(* ===== verification/Tyrne_Prelude.thy ===== *)
theory Tyrne_Prelude
  imports Main "HOL-Library.Word" "HOL-Library.Multiset"
begin

unbundle bit_operations_syntax

text \<open>
  Shared vocabulary of the development: the machine integers of the source, the two ways a
  Rust call can end without a value (a panic, a loop that does not stop), array access, the
  linked lists threaded through slot arrays (\<open>next_free\<close>, \<open>next_sibling\<close>), and the counting
  facts about 16-bit slot indices that the bounded data structures rest on.
\<close>

text \<open>The definitions and facts by which concrete runs are evaluated; the components add theirs.\<close>

named_theorems eval_defs "definitions unfolded when a run is evaluated"

section \<open>Machine types and results\<close>

type_synonym u8 = "8 word"
type_synonym u16 = "16 word"
type_synonym u32 = "32 word"
type_synonym u64 = "64 word"
type_synonym u128 = "128 word"

text \<open>
  A Rust call returns a value, panics (an out-of-range index, a failed assertion, an explicit
  \<open>panic!\<close>) or does not return. Rust's \<open>Result\<close> is a datatype of its own; \<open>Option\<close> is
  Isabelle's \<open>option\<close>. An operation on a state \<open>'s\<close> is a function
  \<open>'s \<Rightarrow> 'r run \<times> 's\<close>: the state it leaves behind is part of the result on every path,
  errors included.
\<close>

datatype 'a run = Ret 'a | Panic | Diverge

datatype ('e, 'a) result = Ok 'a | Err 'e

text \<open>Rust's \<open>Result::map_err\<close>.\<close>

fun map_err :: "('e \<Rightarrow> 'f) \<Rightarrow> ('e, 'a) result \<Rightarrow> ('f, 'a) result" where
  "map_err f (Ok a) = Ok a"
| "map_err f (Err e) = Err (f e)"

text \<open>Rust's \<open>Option::ok_or\<close>.\<close>

fun ok_or :: "'a option \<Rightarrow> 'e \<Rightarrow> ('e, 'a) result" where
  "ok_or (Some a) e = Ok a"
| "ok_or None e = Err e"

lemma ok_or_Ok_iff [simp]: "ok_or x e = Ok a \<longleftrightarrow> x = Some a"
  by (cases x) auto

lemma ok_or_Err_iff [simp]: "ok_or x e = Err e' \<longleftrightarrow> x = None \<and> e = e'"
  by (cases x) auto

text \<open>The \<open>?\<close> operator on a stateful call: go on with the value, or leave with the error. A panic
  or a loop that does not stop ends the caller too.\<close>

fun and_then ::
  "('e, 'a) result run \<times> 's \<Rightarrow> ('a \<Rightarrow> 's \<Rightarrow> ('e, 'b) result run \<times> 's) \<Rightarrow>
   ('e, 'b) result run \<times> 's" where
  "and_then (Ret (Ok a), s) k = k a s"
| "and_then (Ret (Err e), s) k = (Ret (Err e), s)"
| "and_then (Panic, s) k = (Panic, s)"
| "and_then (Diverge, s) k = (Diverge, s)"

text \<open>\<open>map_err\<close> and \<open>ok_or\<close> on the result of a stateful call.\<close>

definition map_err_run :: "('e \<Rightarrow> 'f) \<Rightarrow> ('e, 'a) result run \<times> 's \<Rightarrow> ('f, 'a) result run \<times> 's" where
  "map_err_run f = apfst (map_run (map_err f))"

definition ok_or_run :: "'e \<Rightarrow> 'a option run \<times> 's \<Rightarrow> ('e, 'a) result run \<times> 's" where
  "ok_or_run e = apfst (map_run (\<lambda>x. ok_or x e))"

lemma map_err_run_simps [simp]:
  "map_err_run f (Ret r, s) = (Ret (map_err f r), s)"
  "map_err_run f (Panic, s) = (Panic, s)"
  "map_err_run f (Diverge, s) = (Diverge, s)"
  by (simp_all add: map_err_run_def)

lemma ok_or_run_simps [simp]:
  "ok_or_run e (Ret x, s) = (Ret (ok_or x e), s)"
  "ok_or_run e (Panic, s) = (Panic, s)"
  "ok_or_run e (Diverge, s) = (Diverge, s)"
  by (simp_all add: ok_or_run_def)

text \<open>A stateful call with a plain value, used where the caller returns a \<open>Result\<close>; and a call
  that works on one half of a pair of states.\<close>

definition plain :: "'a run \<times> 's \<Rightarrow> ('e, 'a) result run \<times> 's" where
  "plain = apfst (map_run Ok)"

fun on_fst :: "('s \<Rightarrow> 'r \<times> 's) \<Rightarrow> 's \<times> 't \<Rightarrow> 'r \<times> 's \<times> 't" where
  "on_fst f (s, t) = (case f s of (r, s') \<Rightarrow> (r, s', t))"

fun on_snd :: "('t \<Rightarrow> 'r \<times> 't) \<Rightarrow> 's \<times> 't \<Rightarrow> 'r \<times> 's \<times> 't" where
  "on_snd f (s, t) = (case f t of (r, t') \<Rightarrow> (r, s, t'))"

lemma plain_simps [simp]:
  "plain (Ret x, s) = (Ret (Ok x), s)"
  "plain (Panic, s) = (Panic, s)"
  "plain (Diverge, s) = (Diverge, s)"
  by (simp_all add: plain_def)

lemma and_then_Ok_E:
  assumes "and_then p k = (Ret (Ok b), s')"
  obtains a s where "p = (Ret (Ok a), s)" "k a s = (Ret (Ok b), s')"
  using assms that by (cases "(p, k)" rule: and_then.cases) auto

text \<open>Checked array access, Rust's \<open>slice::get\<close>; \<open>xs[i]\<close> is a panic where this is \<open>None\<close>.\<close>

definition arr_get :: "'a list \<Rightarrow> nat \<Rightarrow> 'a option" where
  "arr_get xs i = (if i < length xs then Some (xs ! i) else None)"

lemma arr_get_Some [simp]: "i < length xs \<Longrightarrow> arr_get xs i = Some (xs ! i)"
  by (simp add: arr_get_def)

lemma arr_get_None [simp]: "length xs \<le> i \<Longrightarrow> arr_get xs i = None"
  by (simp add: arr_get_def)

lemma arr_get_eq_Some: "arr_get xs i = Some x \<longleftrightarrow> i < length xs \<and> xs ! i = x"
  by (auto simp: arr_get_def)

lemma nth_upd: "xs[i := x] ! j = (if i = j \<and> j < length xs then x else xs ! j)"
  by (cases "i < length xs") (auto simp: nth_list_update list_update_beyond not_less)

lemma arr_get_list_update:
  "arr_get (xs[i := x]) j = (if i = j \<and> j < length xs then Some x else arr_get xs j)"
  by (auto simp: arr_get_def)

text \<open>A \<open>usize\<close> is a natural number below \<open>2 ^ 64\<close>; wrapping addition is written out.\<close>

definition usize_wrapping_add :: "nat \<Rightarrow> nat \<Rightarrow> nat" where
  "usize_wrapping_add a b = (a + b) mod 2 ^ 64"

lemma usize_wrapping_add_small [simp]:
  "a + b < 2 ^ 64 \<Longrightarrow> usize_wrapping_add a b = a + b"
  by (simp add: usize_wrapping_add_def)

lemma word_eq_bits: "(a :: 'a :: len word) = b \<longleftrightarrow> (\<forall>n. bit a n = bit b n)"
  by (auto intro: bit_eqI)

section \<open>Slot indices\<close>

text \<open>Slots are named by \<open>u16\<close> values; \<open>unat\<close> is the cast \<open>index as usize\<close>.\<close>

lemma unat_eq_idx [simp]: "unat (i :: u16) = unat j \<longleftrightarrow> i = j"
  by (simp add: word_unat_eq_iff)

lemma of_nat_u16_unat: "n < 2 ^ 16 \<Longrightarrow> unat (of_nat n :: u16) = n"
  by (simp add: unat_of_nat)

lemma ex_u16_idx: "n < 2 ^ 16 \<Longrightarrow> \<exists>i :: u16. unat i = n"
  by (rule exI [where x = "of_nat n"]) (rule of_nat_u16_unat)

lemma card_idx_below: "n \<le> 2 ^ 16 \<Longrightarrow> card {i :: u16. unat i < n} = n"
proof -
  assume n: "n \<le> 2 ^ 16"
  have "unat ` {i :: u16. unat i < n} = {..<n}"
  proof (intro equalityI subsetI)
    fix k assume "k \<in> {..<n}"
    with n obtain i :: u16 where "unat i = k" using ex_u16_idx [of k] by auto
    with \<open>k \<in> {..<n}\<close> show "k \<in> unat ` {i :: u16. unat i < n}" by auto
  qed auto
  moreover have "inj_on unat {i :: u16. unat i < n}"
    by (simp add: inj_on_def)
  ultimately show ?thesis
    by (metis card_image card_lessThan)
qed

lemma distinct_idx_length:
  assumes "distinct xs" and "set xs \<subseteq> {i :: u16. unat i < n}" and "n \<le> 2 ^ 16"
  shows "length xs \<le> n"
  using assms card_mono [of "{i :: u16. unat i < n}" "set xs"]
  by (simp add: distinct_card card_idx_below)

section \<open>Linked lists threaded through an array\<close>

text \<open>
  \<open>chain nxt h xs\<close>: following \<open>nxt\<close> from the head pointer \<open>h\<close> visits exactly \<open>xs\<close> and then
  stops. It determines the list and rules out cycles.
\<close>

primrec chain :: "('i \<Rightarrow> 'i option) \<Rightarrow> 'i option \<Rightarrow> 'i list \<Rightarrow> bool" where
  "chain nxt h [] = (h = None)"
| "chain nxt h (x # xs) = (h = Some x \<and> chain nxt (nxt x) xs)"

lemma chain_from_None [simp]: "chain nxt None xs \<longleftrightarrow> xs = []"
  by (cases xs) auto

lemma chain_from_Some: "chain nxt (Some x) xs \<longleftrightarrow> (\<exists>ys. xs = x # ys \<and> chain nxt (nxt x) ys)"
  by (cases xs) auto

lemma chain_cong:
  "(\<And>x. x \<in> set xs \<Longrightarrow> nxt x = nxt' x) \<Longrightarrow> chain nxt h xs = chain nxt' h xs"
  by (induction xs arbitrary: h) auto

lemma chain_transfer:
  "chain nxt h xs \<Longrightarrow> (\<And>x. x \<in> set xs \<Longrightarrow> nxt' x = nxt x) \<Longrightarrow> chain nxt' h xs"
  by (induction xs arbitrary: h) auto

lemma chain_unique: "chain nxt h xs \<Longrightarrow> chain nxt h ys \<Longrightarrow> xs = ys"
  by (induction xs arbitrary: h ys) (auto simp: chain_from_Some)

lemma chain_suffix: "chain nxt h (xs @ y # ys) \<Longrightarrow> chain nxt (nxt y) ys"
  by (induction xs arbitrary: h) auto

lemma chain_distinct: "chain nxt h xs \<Longrightarrow> distinct xs"
proof (induction xs arbitrary: h)
  case Nil
  then show ?case by simp
next
  case (Cons x xs)
  have "x \<notin> set xs"
  proof
    assume "x \<in> set xs"
    then obtain as bs where xs: "xs = as @ x # bs" by (auto dest: split_list)
    with Cons.prems have "chain nxt (nxt x) (as @ x # bs)" and "chain nxt (nxt x) bs"
      by (auto dest: chain_suffix)
    then have "as @ x # bs = bs" by (rule chain_unique)
    then have "length (as @ x # bs) = length bs" by (rule arg_cong)
    then show False by simp
  qed
  with Cons show ?case by auto
qed

text \<open>Taking an element out of the middle: its predecessor is redirected to its successor.\<close>

lemma chain_unlink:
  assumes "chain nxt h (xs @ c # y # ys)"
  shows "chain (nxt(c := nxt y)) h (xs @ c # ys)"
  using assms
proof (induction xs arbitrary: h)
  case Nil
  then have c: "c \<notin> set ys" using chain_distinct [OF Nil] by simp
  from Nil have "chain nxt (nxt y) ys" by simp
  then have "chain (nxt(c := nxt y)) (nxt y) ys"
    by (rule chain_transfer) (use c in auto)
  with Nil show ?case by (simp add: fun_upd_def)
next
  case (Cons x xs)
  have "x \<noteq> c" using chain_distinct [OF Cons.prems] by auto
  with Cons show ?case by auto
qed

section \<open>Free lists\<close>

text \<open>
  The free list of a slot array of \<open>n\<close> slots: it links exactly the slots that are not in use.
  Both the kernel-object arena and the capability table keep one.
\<close>

definition free_list :: "nat \<Rightarrow> (u16 \<Rightarrow> bool) \<Rightarrow> (u16 \<Rightarrow> u16 option) \<Rightarrow> u16 option \<Rightarrow> bool" where
  "free_list n used nxt h \<longleftrightarrow> (\<exists>xs. chain nxt h xs \<and> set xs = {i. unat i < n \<and> \<not> used i})"

lemma free_list_head:
  assumes "free_list n used nxt (Some i)"
  shows "unat i < n \<and> \<not> used i"
proof -
  from assms obtain xs where "chain nxt (Some i) (i # xs)"
    and "set (i # xs) = {j. unat j < n \<and> \<not> used j}"
    unfolding free_list_def chain_from_Some by auto
  then have "i \<in> {j. unat j < n \<and> \<not> used j}" by (metis list.set_intros(1))
  then show ?thesis by simp
qed

lemma free_list_None:
  assumes "free_list n used nxt None" and "unat i < n"
  shows "used i"
proof -
  from assms(1) have "{} = {i. unat i < n \<and> \<not> used i}" by (simp add: free_list_def)
  with assms(2) show ?thesis by blast
qed

lemma free_list_pop:
  assumes "free_list n used nxt (Some i)"
    and "\<And>j. j \<noteq> i \<Longrightarrow> nxt' j = nxt j" and "\<And>j. used' j \<longleftrightarrow> used j \<or> j = i"
  shows "free_list n used' nxt' (nxt i)"
proof -
  from assms(1) obtain xs where xs: "chain nxt (Some i) (i # xs)"
    and set: "set (i # xs) = {j. unat j < n \<and> \<not> used j}"
    unfolding free_list_def chain_from_Some by auto
  then have i: "i \<notin> set xs" by (metis chain_distinct distinct.simps(2))
  from xs have "chain nxt (nxt i) xs" by simp
  then have "chain nxt' (nxt i) xs"
    by (rule chain_transfer) (metis i assms(2))
  moreover from set i assms(3) have "set xs = {j. unat j < n \<and> \<not> used' j}" by auto
  ultimately show ?thesis unfolding free_list_def by blast
qed

lemma free_list_push:
  assumes "free_list n used nxt h" and "unat i < n" and "used i"
    and "\<And>j. j \<noteq> i \<Longrightarrow> nxt' j = nxt j" and "nxt' i = h"
    and "\<And>j. used' j \<longleftrightarrow> used j \<and> j \<noteq> i"
  shows "free_list n used' nxt' (Some i)"
proof -
  from assms(1) obtain xs where xs: "chain nxt h xs"
    and set: "set xs = {j. unat j < n \<and> \<not> used j}"
    unfolding free_list_def by auto
  with assms(3) have i: "i \<notin> set xs" by simp
  from xs have "chain nxt' h xs"
    by (rule chain_transfer) (metis i assms(4))
  then have "chain nxt' (Some i) (i # xs)" using assms(5) by simp
  moreover from set assms(2,3,6) have "set (i # xs) = {j. unat j < n \<and> \<not> used' j}" by auto
  ultimately show ?thesis unfolding free_list_def by blast
qed

lemma free_list_cong:
  assumes "\<And>j. unat j < n \<Longrightarrow> nxt' j = nxt j" and "\<And>j. unat j < n \<Longrightarrow> used' j = used j"
  shows "free_list n used' nxt' h = free_list n used nxt h"
proof -
  have "set xs = {i. unat i < n \<and> \<not> used i} \<Longrightarrow> chain nxt' h xs = chain nxt h xs" for xs
    using assms(1) by (intro chain_cong) auto
  moreover have "{i. unat i < n \<and> \<not> used' i} = {i. unat i < n \<and> \<not> used i}"
    using assms(2) by auto
  ultimately show ?thesis unfolding free_list_def by auto
qed

text \<open>The initial free list: every slot points at its successor.\<close>

lemma chain_upt:
  assumes "m \<le> n" and "n \<le> 65535"
    and "\<And>i. unat i < n \<Longrightarrow> nxt i = (if unat i + 1 < n then Some (of_nat (unat i + 1)) else None)"
  shows "chain nxt (if m < n then Some (of_nat m) else None) (map of_nat [m..<n] :: u16 list)"
  using assms(1)
proof (induction "n - m" arbitrary: m)
  case 0
  then show ?case by simp
next
  case (Suc k)
  then have m: "m < n" by simp
  with assms(2) have u: "unat (of_nat m :: u16) = m" by (simp add: of_nat_u16_unat)
  from Suc.hyps(1) [of "Suc m"] Suc.hyps(2) m
  have "chain nxt (if Suc m < n then Some (of_nat (Suc m)) else None) (map of_nat [Suc m..<n])"
    by simp
  moreover have "nxt (of_nat m) = (if Suc m < n then Some (of_nat (Suc m)) else None)"
    using assms(3) [of "of_nat m"] u m by simp
  ultimately show ?case using m by (simp add: upt_conv_Cons)
qed

lemma free_list_init:
  assumes "n \<le> 65535" and "h = (if 0 < n then Some 0 else None)"
    and "\<And>i. unat i < n \<Longrightarrow> nxt i = (if unat i + 1 < n then Some (of_nat (unat i + 1)) else None)"
    and "\<And>i. unat i < n \<Longrightarrow> \<not> used i"
  shows "free_list n used nxt h"
proof -
  have "chain nxt h (map of_nat [0..<n])"
    using chain_upt [of 0 n nxt] assms(1-3) by (auto split: if_splits)
  moreover have "set (map of_nat [0..<n]) = {i :: u16. unat i < n \<and> \<not> used i}"
  proof (intro equalityI subsetI)
    fix i :: u16 assume "i \<in> set (map of_nat [0..<n])"
    with assms(1,4) show "i \<in> {i. unat i < n \<and> \<not> used i}"
      by (auto simp: of_nat_u16_unat)
  next
    fix i :: u16 assume "i \<in> {i. unat i < n \<and> \<not> used i}"
    then show "i \<in> set (map of_nat [0..<n])"
      by (auto intro!: image_eqI [where x = "unat i"])
  qed
  ultimately show ?thesis unfolding free_list_def by blast
qed

end
