(* ===== verification/Handle_Store.thy ===== *)
theory Handle_Store
  imports Tyrne_Prelude
begin

text \<open>
  The contract of a generation-tagged handle store, the shape the kernel uses twice: the
  kernel-object arena (\<open>kernel/src/obj/arena.rs\<close>) and the capability table
  (\<open>kernel/src/cap/table.rs\<close>). A store maps handles to values; inserting returns a handle
  that named nothing before, removing makes exactly that handle name nothing. What clients of
  either store rely on is proved here once, from the laws alone.
\<close>

text \<open>The values in a store, each as often as it is stored.\<close>

definition contents :: "('h \<Rightarrow> 'v option) \<Rightarrow> 'v multiset" where
  "contents m = image_mset (\<lambda>h. the (m h)) (mset_set (dom m))"

lemma contents_insert:
  assumes "finite (dom m)" and "m h = None"
  shows "contents (m(h \<mapsto> v)) = add_mset v (contents m)"
proof -
  have h: "h \<notin> dom m" using assms(2) by auto
  have "image_mset (\<lambda>k. the ((m(h \<mapsto> v)) k)) (mset_set (dom m)) = image_mset (\<lambda>k. the (m k)) (mset_set (dom m))"
    by (rule image_mset_cong) (use h assms(1) in auto)
  with h assms show ?thesis by (simp add: contents_def)
qed

lemma contents_remove:
  assumes "finite (dom m)" and "m h = Some v"
  shows "contents m = add_mset v (contents (m(h := None)))"
  using contents_insert [of "m(h := None)" h v] assms by (simp add: fun_upd_idem_iff [THEN iffD2])

locale handle_store =
  fixes invar :: "'s \<Rightarrow> bool"
    and peek :: "'s \<Rightarrow> 'h \<Rightarrow> 'v option"
    and put :: "'v \<Rightarrow> 's \<Rightarrow> ('h \<times> 's) option"
    and rem :: "'h \<Rightarrow> 's \<Rightarrow> ('v \<times> 's) option"
  assumes put_invar: "invar s \<Longrightarrow> put v s = Some (h, s') \<Longrightarrow> invar s'"
    and put_fresh: "invar s \<Longrightarrow> put v s = Some (h, s') \<Longrightarrow> peek s h = None"
    and put_peek: "invar s \<Longrightarrow> put v s = Some (h, s') \<Longrightarrow> peek s' = (peek s)(h \<mapsto> v)"
    and rem_invar: "invar s \<Longrightarrow> rem h s = Some (v, s') \<Longrightarrow> invar s'"
    and rem_value: "invar s \<Longrightarrow> rem h s = Some (v, s') \<Longrightarrow> peek s h = Some v"
    and finite_peek: "invar s \<Longrightarrow> finite (dom (peek s))"
    and rem_peek: "invar s \<Longrightarrow> rem h s = Some (v, s') \<Longrightarrow> peek s' = (peek s)(h := None)"
begin

lemma put_then_peek: "invar s \<Longrightarrow> put v s = Some (h, s') \<Longrightarrow> peek s' h = Some v"
  by (simp add: put_peek)

lemma put_keeps_others:
  "invar s \<Longrightarrow> put v s = Some (h, s') \<Longrightarrow> peek s g = Some w \<Longrightarrow> g \<noteq> h \<and> peek s' g = Some w"
  using put_fresh put_peek by fastforce

lemma rem_then_peek: "invar s \<Longrightarrow> rem h s = Some (v, s') \<Longrightarrow> peek s' h = None"
  by (simp add: rem_peek)

lemma rem_keeps_others:
  "invar s \<Longrightarrow> rem h s = Some (v, s') \<Longrightarrow> g \<noteq> h \<Longrightarrow> peek s' g = peek s g"
  by (simp add: rem_peek)

text \<open>A handle is consumed by the removal: the second removal finds nothing.\<close>

lemma rem_once:
  assumes "invar s" and "rem h s = Some (v, s')"
  shows "rem h s' = None"
proof (cases "rem h s'")
  case (Some p)
  then obtain w s'' where "rem h s' = Some (w, s'')" by (cases p) auto
  with assms have "peek s' h = Some w" by (auto intro: rem_value rem_invar)
  with rem_then_peek [OF assms] show ?thesis by simp
qed simp

text \<open>Two insertions never return the same handle while the first value is still stored.\<close>

lemma put_distinct:
  assumes "invar s" and "put v s = Some (h, s')" and "put w s' = Some (g, s'')"
  shows "g \<noteq> h"
  using put_keeps_others [OF put_invar [OF assms(1,2)] assms(3) put_then_peek [OF assms(1,2)]]
  by blast

lemma put_contents:
  "invar s \<Longrightarrow> put v s = Some (h, s') \<Longrightarrow> contents (peek s') = add_mset v (contents (peek s))"
  by (simp add: put_peek contents_insert finite_peek put_fresh)

lemma rem_contents:
  "invar s \<Longrightarrow> rem h s = Some (v, s') \<Longrightarrow> contents (peek s) = add_mset v (contents (peek s'))"
  by (simp add: rem_peek contents_remove [OF finite_peek rem_value])

text \<open>Moving a value from one store to another neither loses nor duplicates it.\<close>

lemma move_between:
  assumes "invar s" and "invar t" and "rem h s = Some (v, s')" and "put v t = Some (g, t')"
  shows "peek s' h = None \<and> peek t' g = Some v \<and>
    (\<forall>k. k \<noteq> h \<longrightarrow> peek s' k = peek s k) \<and> (\<forall>k. k \<noteq> g \<longrightarrow> peek t' k = peek t k) \<and>
    contents (peek s') + contents (peek t') = contents (peek s) + contents (peek t)"
  using assms rem_contents [OF assms(1,3)] put_contents [OF assms(2,4)]
  by (simp add: rem_peek put_peek)

end

end
