(* ===== verification/Arena.thy ===== *)
theory Arena
  imports Handle_Store
begin

text \<open>
  The generic kernel-object arena, \<open>kernel/src/obj/arena.rs\<close>: a fixed array of slots whose
  free slots form a linked list, and ids tagged with the slot's generation. The capacity
  \<open>N\<close> of \<open>Arena<T, N>\<close> is the length of the slot list. The flag \<open>dbg\<close> says whether
  \<open>debug_assert!\<close> is compiled in.
\<close>

section \<open>Data\<close>

record SlotId =
  sid_index :: u16
  sid_generation :: u32

record 'a Slot =
  slot_entry :: "'a option"
  slot_generation :: u32
  slot_next_free :: "u16 option"

record 'a Arena =
  arena_slots :: "'a Slot list"
  arena_free_head :: "u16 option"

section \<open>Operations\<close>

definition arena_new :: "nat \<Rightarrow> 'a Arena" where
  "arena_new n = \<lparr>
     arena_slots = map (\<lambda>i. let nxt = usize_wrapping_add i 1 in
        \<lparr>slot_entry = None, slot_generation = 0,
         slot_next_free = (if nxt < n then Some (of_nat nxt) else None)\<rparr>) [0..<n],
     arena_free_head = (if n > 0 then Some 0 else None)\<rparr>"

definition allocate :: "bool \<Rightarrow> 'a \<Rightarrow> 'a Arena \<Rightarrow> SlotId option run \<times> 'a Arena" where
  "allocate dbg v ar = (case arena_free_head ar of
     None \<Rightarrow> (Ret None, ar)
   | Some head \<Rightarrow>
       if dbg \<and> \<not> unat head < length (arena_slots ar) then (Panic, ar)
       else (case arr_get (arena_slots ar) (unat head) of
         None \<Rightarrow> (Ret None, ar)
       | Some slot \<Rightarrow>
           (Ret (Some \<lparr>sid_index = head, sid_generation = slot_generation slot\<rparr>),
            \<lparr>arena_slots = (arena_slots ar)[unat head :=
                slot\<lparr>slot_entry := Some v, slot_next_free := None\<rparr>],
             arena_free_head = slot_next_free slot\<rparr>)))"

definition free :: "SlotId \<Rightarrow> 'a Arena \<Rightarrow> 'a option \<times> 'a Arena" where
  "free i ar = (case arr_get (arena_slots ar) (unat (sid_index i)) of
     None \<Rightarrow> (None, ar)
   | Some slot \<Rightarrow>
       if slot_generation slot \<noteq> sid_generation i then (None, ar)
       else (case slot_entry slot of
         None \<Rightarrow> (None, ar)
       | Some v \<Rightarrow>
           (Some v,
            \<lparr>arena_slots = (arena_slots ar)[unat (sid_index i) :=
                \<lparr>slot_entry = None, slot_generation = slot_generation slot + 1,
                 slot_next_free = arena_free_head ar\<rparr>],
             arena_free_head = Some (sid_index i)\<rparr>)))"

definition get :: "'a Arena \<Rightarrow> SlotId \<Rightarrow> 'a option" where
  "get ar i = (case arr_get (arena_slots ar) (unat (sid_index i)) of
     None \<Rightarrow> None
   | Some slot \<Rightarrow> if slot_generation slot \<noteq> sid_generation i then None else slot_entry slot)"

text \<open>\<open>get_mut\<close> hands out a mutable reference; the caller's assignment through it is \<open>f\<close>.\<close>

definition get_mut :: "('a \<Rightarrow> 'a) \<Rightarrow> SlotId \<Rightarrow> 'a Arena \<Rightarrow> 'a Arena option" where
  "get_mut f i ar = (case arr_get (arena_slots ar) (unat (sid_index i)) of
     None \<Rightarrow> None
   | Some slot \<Rightarrow>
       if slot_generation slot \<noteq> sid_generation i then None
       else (case slot_entry slot of
         None \<Rightarrow> None
       | Some v \<Rightarrow> Some (ar\<lparr>arena_slots := (arena_slots ar)[unat (sid_index i) :=
            slot\<lparr>slot_entry := Some (f v)\<rparr>]\<rparr>)))"

definition contains :: "'a Arena \<Rightarrow> SlotId \<Rightarrow> bool" where
  "contains ar i = (get ar i \<noteq> None)"

section \<open>Invariant\<close>

definition slot_used :: "'a Arena \<Rightarrow> u16 \<Rightarrow> bool" where
  "slot_used ar i = (slot_entry (arena_slots ar ! unat i) \<noteq> None)"

definition slot_next :: "'a Arena \<Rightarrow> u16 \<Rightarrow> u16 option" where
  "slot_next ar i = slot_next_free (arena_slots ar ! unat i)"

text \<open>At most \<open>u16::MAX\<close> slots (the compile-time assertion), and the free list links exactly
  the empty ones.\<close>

definition arena_wf :: "'a Arena \<Rightarrow> bool" where
  "arena_wf ar \<longleftrightarrow> length (arena_slots ar) \<le> 65535 \<and>
     free_list (length (arena_slots ar)) (slot_used ar) (slot_next ar) (arena_free_head ar)"

lemma arena_wf_new:
  assumes "n \<le> 65535"
  shows "arena_wf (arena_new n :: 'a Arena)"
proof -
  let ?a = "arena_new n :: 'a Arena"
  have len: "length (arena_slots ?a) = n" by (simp add: arena_new_def)
  have "free_list n (slot_used ?a) (slot_next ?a) (arena_free_head ?a)"
    using assms
    by (intro free_list_init) (auto simp: arena_new_def slot_used_def slot_next_def Let_def)
  with len assms show ?thesis by (simp add: arena_wf_def)
qed

lemma length_arena_new [simp]: "length (arena_slots (arena_new n)) = n"
  by (simp add: arena_new_def)

lemma slot_used_upd:
  "unat i < length (arena_slots ar) \<Longrightarrow>
   slot_used (ar\<lparr>arena_slots := (arena_slots ar)[unat i := s], arena_free_head := h\<rparr>) j =
     (if j = i then slot_entry s \<noteq> None else slot_used ar j)"
  by (auto simp: slot_used_def nth_list_update)

lemma slot_next_upd:
  "unat i < length (arena_slots ar) \<Longrightarrow>
   slot_next (ar\<lparr>arena_slots := (arena_slots ar)[unat i := s], arena_free_head := h\<rparr>) j =
     (if j = i then slot_next_free s else slot_next ar j)"
  by (auto simp: slot_next_def nth_list_update)

lemmas slot_upd = slot_used_upd slot_next_upd

text \<open>A well-formed arena never trips the debug assertion; a full one returns \<open>None\<close>.\<close>

lemma allocate_cases:
  assumes "arena_wf ar"
  obtains (full) "arena_free_head ar = None" "allocate dbg v ar = (Ret None, ar)"
  | (ok) i s where "arena_free_head ar = Some i" "unat i < length (arena_slots ar)"
      "arena_slots ar ! unat i = s" "slot_entry s = None"
      "allocate dbg v ar = (Ret (Some \<lparr>sid_index = i, sid_generation = slot_generation s\<rparr>),
         ar\<lparr>arena_slots := (arena_slots ar)[unat i :=
              s\<lparr>slot_entry := Some v, slot_next_free := None\<rparr>],
            arena_free_head := slot_next_free s\<rparr>)"
proof (cases "arena_free_head ar")
  case None
  then show ?thesis by (intro full) (simp_all add: allocate_def)
next
  case (Some i)
  with assms have "unat i < length (arena_slots ar)" and "\<not> slot_used ar i"
    by (auto simp: arena_wf_def dest: free_list_head)
  with Some show ?thesis
    by (intro ok [of i "arena_slots ar ! unat i"]) (simp_all add: allocate_def slot_used_def)
qed

lemma free_Some:
  assumes "free i ar = (Some v, ar')"
  obtains s where "unat (sid_index i) < length (arena_slots ar)"
    "arena_slots ar ! unat (sid_index i) = s" "slot_generation s = sid_generation i"
    "slot_entry s = Some v"
    "ar' = ar\<lparr>arena_slots := (arena_slots ar)[unat (sid_index i) :=
        \<lparr>slot_entry = None, slot_generation = slot_generation s + 1,
         slot_next_free = arena_free_head ar\<rparr>],
        arena_free_head := Some (sid_index i)\<rparr>"
  using assms that [of "arena_slots ar ! unat (sid_index i)"]
  by (auto simp: free_def arr_get_def split: if_splits option.splits)

lemma free_None: "free i ar = (None, ar') \<Longrightarrow> ar' = ar \<and> get ar i = None"
  by (auto simp: free_def get_def split: option.splits if_splits)

lemma get_Some_iff:
  "get ar i = Some v \<longleftrightarrow> unat (sid_index i) < length (arena_slots ar) \<and>
     slot_generation (arena_slots ar ! unat (sid_index i)) = sid_generation i \<and>
     slot_entry (arena_slots ar ! unat (sid_index i)) = Some v"
  by (auto simp: get_def arr_get_def)

lemma allocate_wf:
  assumes wf: "arena_wf ar" and al: "allocate dbg v ar = (r, ar')"
  shows "arena_wf ar' \<and> length (arena_slots ar') = length (arena_slots ar)"
  using wf
proof (cases rule: allocate_cases [where dbg = dbg and v = v])
  case full
  with wf al show ?thesis by simp
next
  case (ok i s)
  with al have ar': "ar' = ar\<lparr>arena_slots := (arena_slots ar)[unat i :=
      s\<lparr>slot_entry := Some v, slot_next_free := None\<rparr>], arena_free_head := slot_next_free s\<rparr>"
    by simp
  have "free_list (length (arena_slots ar)) (slot_used ar') (slot_next ar') (slot_next ar i)"
    by (rule free_list_pop [of _ "slot_used ar" "slot_next ar"])
      (use wf ok in \<open>auto simp: arena_wf_def ar' slot_upd\<close>)
  with wf ok show ?thesis by (simp add: arena_wf_def ar' slot_next_def)
qed

lemma free_wf:
  assumes wf: "arena_wf ar" and fr: "free i ar = (r, ar')"
  shows "arena_wf ar' \<and> length (arena_slots ar') = length (arena_slots ar)"
proof (cases r)
  case None
  with fr wf show ?thesis by (auto dest: free_None)
next
  case (Some v)
  with fr obtain s where s: "unat (sid_index i) < length (arena_slots ar)"
    "arena_slots ar ! unat (sid_index i) = s" "slot_entry s = Some v"
    and ar': "ar' = ar\<lparr>arena_slots := (arena_slots ar)[unat (sid_index i) :=
        \<lparr>slot_entry = None, slot_generation = slot_generation s + 1,
         slot_next_free = arena_free_head ar\<rparr>],
        arena_free_head := Some (sid_index i)\<rparr>"
    by (auto elim: free_Some)
  have "free_list (length (arena_slots ar)) (slot_used ar') (slot_next ar') (Some (sid_index i))"
    by (rule free_list_push [of _ "slot_used ar" "slot_next ar" "arena_free_head ar"])
      (use wf s slot_used_def [of ar "sid_index i"] in \<open>auto simp: arena_wf_def ar' slot_upd\<close>)
  with wf s show ?thesis by (simp add: arena_wf_def ar')
qed

lemma SlotId_eq_iff:
  "(i :: SlotId) = j \<longleftrightarrow> sid_index i = sid_index j \<and> sid_generation i = sid_generation j"
  by auto

lemma get_upd:
  "unat k < length (arena_slots ar) \<Longrightarrow>
   get (ar\<lparr>arena_slots := (arena_slots ar)[unat k := s], arena_free_head := h\<rparr>) j =
     (if sid_index j = k then if slot_generation s = sid_generation j then slot_entry s else None
      else get ar j)"
  by (auto simp: get_def arr_get_list_update)

lemma allocate_get:
  assumes wf: "arena_wf ar" and al: "allocate dbg v ar = (Ret (Some i), ar')"
  shows "get ar i = None \<and> get ar' = (get ar)(i \<mapsto> v)"
  using wf
proof (cases rule: allocate_cases [where dbg = dbg and v = v])
  case full
  with al show ?thesis by simp
next
  case (ok k s)
  with al have i: "i = \<lparr>sid_index = k, sid_generation = slot_generation s\<rparr>"
    and ar': "ar' = ar\<lparr>arena_slots := (arena_slots ar)[unat k :=
      s\<lparr>slot_entry := Some v, slot_next_free := None\<rparr>], arena_free_head := slot_next_free s\<rparr>"
    by simp_all
  have none: "get ar j = None" if "sid_index j = k" for j
    using ok that by (simp add: get_def)
  then have "get ar' j = ((get ar)(i \<mapsto> v)) j" for j
    unfolding ar' get_upd [OF ok(2)] by (auto simp: i SlotId_eq_iff)
  with none show ?thesis by (auto simp: i fun_eq_iff)
qed

lemma free_get:
  assumes "free i ar = (Some v, ar')"
  shows "get ar i = Some v \<and> get ar' = (get ar)(i := None)"
proof -
  from assms obtain s where s: "unat (sid_index i) < length (arena_slots ar)"
    "arena_slots ar ! unat (sid_index i) = s" "slot_generation s = sid_generation i"
    "slot_entry s = Some v"
    and ar': "ar' = ar\<lparr>arena_slots := (arena_slots ar)[unat (sid_index i) :=
        \<lparr>slot_entry = None, slot_generation = slot_generation s + 1,
         slot_next_free = arena_free_head ar\<rparr>],
        arena_free_head := Some (sid_index i)\<rparr>"
    by (auto elim: free_Some)
  have other: "get ar j = None" if "sid_index j = sid_index i" and "j \<noteq> i" for j
    using s that by (auto simp: get_def SlotId_eq_iff)
  have "get ar' j = ((get ar)(i := None)) j" for j
    unfolding ar' get_upd [OF s(1)] using other by auto
  with s show ?thesis by (auto simp: get_Some_iff fun_eq_iff)
qed

section \<open>The handle-store contract\<close>

definition arena_put :: "'a \<Rightarrow> 'a Arena \<Rightarrow> (SlotId \<times> 'a Arena) option" where
  "arena_put v ar = (case allocate True v ar of (Ret (Some i), ar') \<Rightarrow> Some (i, ar') | _ \<Rightarrow> None)"

definition arena_rem :: "SlotId \<Rightarrow> 'a Arena \<Rightarrow> ('a \<times> 'a Arena) option" where
  "arena_rem i ar = (case free i ar of (Some v, ar') \<Rightarrow> Some (v, ar') | _ \<Rightarrow> None)"

lemma arena_put_iff: "arena_put v ar = Some (i, ar') \<longleftrightarrow> allocate True v ar = (Ret (Some i), ar')"
  by (auto simp: arena_put_def split: prod.splits run.splits option.splits)

lemma arena_rem_iff: "arena_rem i ar = Some (v, ar') \<longleftrightarrow> free i ar = (Some v, ar')"
  by (auto simp: arena_rem_def split: prod.splits option.splits)

lemma finite_SlotId: "finite (A :: SlotId set)"
proof (rule finite_subset)
  show "A \<subseteq> range (\<lambda>(i, g). \<lparr>sid_index = i, sid_generation = g\<rparr>)"
    by (auto simp: image_iff) (metis SlotId.surjective old.unit.exhaust)
qed simp

interpretation arena_store: handle_store arena_wf get arena_put arena_rem
  by unfold_locales (auto simp: arena_put_iff arena_rem_iff finite_SlotId
      dest: allocate_wf allocate_get free_wf free_get)

section \<open>Runs of arena operations\<close>

datatype 'a arena_op = Allocate 'a | Free SlotId | Mutate "'a \<Rightarrow> 'a" SlotId

fun arena_step :: "'a arena_op \<Rightarrow> 'a Arena \<Rightarrow> 'a Arena" where
  "arena_step (Allocate v) ar = snd (allocate True v ar)"
| "arena_step (Free i) ar = snd (free i ar)"
| "arena_step (Mutate f i) ar = (case get_mut f i ar of None \<Rightarrow> ar | Some ar' \<Rightarrow> ar')"

fun arena_run :: "'a arena_op list \<Rightarrow> 'a Arena \<Rightarrow> 'a Arena" where
  "arena_run [] ar = ar"
| "arena_run (x # xs) ar = arena_run xs (arena_step x ar)"

text \<open>How often slot \<open>k\<close> is successfully freed along a run.\<close>

fun frees_slot :: "u16 \<Rightarrow> 'a arena_op \<Rightarrow> 'a Arena \<Rightarrow> nat" where
  "frees_slot k (Free i) ar = (if sid_index i = k \<and> get ar i \<noteq> None then 1 else 0)"
| "frees_slot k _ ar = 0"

fun frees_of :: "u16 \<Rightarrow> 'a arena_op list \<Rightarrow> 'a Arena \<Rightarrow> nat" where
  "frees_of k [] ar = 0"
| "frees_of k (x # xs) ar = frees_slot k x ar + frees_of k xs (arena_step x ar)"

lemma get_mut_Some:
  assumes "get_mut f i ar = Some ar'"
  obtains s v where "unat (sid_index i) < length (arena_slots ar)"
    "arena_slots ar ! unat (sid_index i) = s" "slot_generation s = sid_generation i"
    "slot_entry s = Some v"
    "ar' = ar\<lparr>arena_slots := (arena_slots ar)[unat (sid_index i) := s\<lparr>slot_entry := Some (f v)\<rparr>],
        arena_free_head := arena_free_head ar\<rparr>"
  using assms that [of "arena_slots ar ! unat (sid_index i)"]
  by (auto simp: get_mut_def arr_get_def split: if_splits option.splits)

lemma get_mut_get:
  assumes "get_mut f i ar = Some ar'"
  shows "\<exists>v. get ar i = Some v \<and> get ar' = (get ar)(i \<mapsto> f v)"
proof -
  from assms obtain s v where s: "unat (sid_index i) < length (arena_slots ar)"
    "arena_slots ar ! unat (sid_index i) = s" "slot_generation s = sid_generation i"
    "slot_entry s = Some v"
    and ar': "ar' = ar\<lparr>arena_slots := (arena_slots ar)[unat (sid_index i) :=
        s\<lparr>slot_entry := Some (f v)\<rparr>], arena_free_head := arena_free_head ar\<rparr>"
    by (rule get_mut_Some)
  have "get ar' j = ((get ar)(i \<mapsto> f v)) j" for j
    unfolding ar' get_upd [OF s(1)] using s by (auto simp: get_def SlotId_eq_iff)
  with s show ?thesis by (intro exI [of _ v]) (auto simp: get_Some_iff fun_eq_iff)
qed

lemma get_mut_None: "get_mut f i ar = None \<Longrightarrow> get ar i = None"
  by (auto simp: get_mut_def get_def split: option.splits if_splits)

lemma get_mut_wf:
  assumes "arena_wf ar" and "get_mut f i ar = Some ar'"
  shows "arena_wf ar' \<and> length (arena_slots ar') = length (arena_slots ar)"
proof -
  from assms(2) obtain s v where s: "unat (sid_index i) < length (arena_slots ar)"
    "arena_slots ar ! unat (sid_index i) = s" "slot_entry s = Some v"
    and ar': "ar' = ar\<lparr>arena_slots := (arena_slots ar)[unat (sid_index i) :=
        s\<lparr>slot_entry := Some (f v)\<rparr>], arena_free_head := arena_free_head ar\<rparr>"
    by (rule get_mut_Some)
  have "slot_used ar' = slot_used ar"
    unfolding fun_eq_iff ar' slot_used_upd [OF s(1)] using s by (auto simp: slot_used_def)
  moreover have "slot_next ar' = slot_next ar"
    unfolding fun_eq_iff ar' slot_next_upd [OF s(1)] using s by (auto simp: slot_next_def)
  ultimately show ?thesis using assms(1) by (simp add: arena_wf_def ar')
qed

lemma arena_step_wf:
  assumes "arena_wf ar"
  shows "arena_wf (arena_step x ar) \<and>
    length (arena_slots (arena_step x ar)) = length (arena_slots ar)"
proof (cases x)
  case (Allocate v)
  then show ?thesis using allocate_wf [OF assms surjective_pairing] by simp
next
  case (Free i)
  then show ?thesis using free_wf [OF assms surjective_pairing] by simp
next
  case (Mutate f i)
  with assms show ?thesis by (auto split: option.splits dest: get_mut_wf)
qed

lemma arena_run_wf:
  "arena_wf ar \<Longrightarrow> arena_wf (arena_run xs ar) \<and>
     length (arena_slots (arena_run xs ar)) = length (arena_slots ar)"
proof (induction xs arbitrary: ar)
  case (Cons x xs)
  from arena_step_wf [OF Cons.prems] Cons.IH show ?case by simp
qed simp

lemma arena_step_generation:
  assumes "arena_wf ar"
  shows "slot_generation (arena_slots (arena_step x ar) ! unat k) =
    slot_generation (arena_slots ar ! unat k) + of_nat (frees_slot k x ar)"
proof (cases x)
  case (Allocate v)
  from assms show ?thesis
    by (cases rule: allocate_cases [where dbg = True and v = v])
      (auto simp: Allocate nth_list_update)
next
  case (Free i)
  show ?thesis
  proof (cases "free i ar")
    case (Pair r ar')
    then show ?thesis
    proof (cases r)
      case None
      with Pair Free show ?thesis by (auto dest: free_None)
    next
      case (Some v)
      with Pair have fr: "free i ar = (Some v, ar')" by simp
      then have "snd (free i ar) = ar'" and "get ar i = Some v" by (simp_all add: free_get)
      with fr show ?thesis
        by (elim free_Some) (auto simp: Free nth_list_update)
    qed
  qed
next
  case (Mutate f i)
  show ?thesis
  proof (cases "get_mut f i ar")
    case None
    with Mutate show ?thesis by simp
  next
    case (Some ar')
    then show ?thesis by (elim get_mut_Some) (auto simp: Mutate Some nth_list_update)
  qed
qed

lemma arena_run_generation:
  assumes "arena_wf ar"
  shows "slot_generation (arena_slots (arena_run xs ar) ! unat k) =
    slot_generation (arena_slots ar ! unat k) + of_nat (frees_of k xs ar)"
  using assms
proof (induction xs arbitrary: ar)
  case (Cons x xs)
  have "slot_generation (arena_slots (arena_run (x # xs) ar) ! unat k) =
      slot_generation (arena_slots (arena_step x ar) ! unat k) +
      of_nat (frees_of k xs (arena_step x ar))"
    using Cons.IH [OF conjunct1 [OF arena_step_wf [OF Cons.prems]]] by simp
  then show ?case using arena_step_generation [OF Cons.prems] by simp
qed simp

section \<open>Properties\<close>

text \<open>C26. Every operation of a well-formed arena returns (no assertion fires, with or without
  debug assertions), keeps it well formed, and acts on the map from ids to stored values: an
  allocation adds a binding for an id that named nothing, a free removes exactly its id's
  binding and returns the value, and both leave the arena unchanged when they return \<open>None\<close>.\<close>

theorem arena_refines_map:
  assumes "arena_wf ar"
  shows "(case allocate dbg v ar of
        (Ret (Some i), ar') \<Rightarrow> arena_wf ar' \<and> get ar i = None \<and> get ar' = (get ar)(i \<mapsto> v)
      | (Ret None, ar') \<Rightarrow> ar' = ar
      | _ \<Rightarrow> False) \<and>
    (case free j ar of
        (Some w, ar') \<Rightarrow> arena_wf ar' \<and> get ar j = Some w \<and> get ar' = (get ar)(j := None)
      | (None, ar') \<Rightarrow> ar' = ar \<and> get ar j = None) \<and>
    (case get_mut f j ar of
        Some ar' \<Rightarrow> arena_wf ar' \<and> (\<exists>w. get ar j = Some w \<and> get ar' = (get ar)(j \<mapsto> f w))
      | None \<Rightarrow> get ar j = None)" (is "?A \<and> ?F \<and> ?M")
proof (intro conjI)
  show ?A using assms
  proof (cases rule: allocate_cases [where dbg = dbg and v = v])
    case (ok i s)
    then show ?thesis using allocate_wf [OF assms ok(5)] allocate_get [OF assms ok(5)] by simp
  qed simp
  show ?F
    by (auto split: prod.split option.split dest: free_None free_get free_wf [OF assms])
  show ?M
    by (auto split: option.split dest: get_mut_None get_mut_get get_mut_wf [OF assms])
qed

theorem arena_refines_map_witness:
  "(case allocate True (7 :: u32) (arena_new 4) of
      (Ret (Some i), ar') \<Rightarrow> arena_wf ar' \<and> get ar' i = Some 7
    | _ \<Rightarrow> False)"
  using arena_refines_map [OF arena_wf_new [of 4], where dbg = True and v = "7 :: u32"]
  by (auto split: prod.splits run.splits option.splits simp: allocate_def arena_new_def)

text \<open>A freed id stays dead. After \<open>free i\<close> succeeds, no sequence of arena operations that
  frees slot \<open>sid_index i\<close> fewer than \<open>2 ^ 32 - 1\<close> further times makes \<open>i\<close> resolve again.\<close>

theorem stale_id_stays_dead:
  assumes "arena_wf ar" and "free i ar = (Some v, ar')"
    and "frees_of (sid_index i) xs ar' < 2 ^ 32 - 1"
  shows "get (arena_run xs ar') i = None"
proof -
  let ?k = "unat (sid_index i)" and ?n = "frees_of (sid_index i) xs ar'"
  have wf': "arena_wf ar'" using free_wf [OF assms(1,2)] by simp
  have g: "slot_generation (arena_slots ar' ! ?k) = sid_generation i + 1"
    using assms(2) by (elim free_Some) auto
  have "(1 :: u32) + of_nat ?n = of_nat (Suc ?n)" by simp
  moreover have "(of_nat (Suc ?n) :: u32) \<noteq> 0"
  proof -
    have "unat (of_nat (Suc ?n) :: u32) = Suc ?n"
      using assms(3) by (simp add: unat_of_nat del: of_nat_Suc)
    then show ?thesis by (metis nat.distinct(1) unat_0)
  qed
  ultimately have "sid_generation i + 1 + of_nat ?n \<noteq> sid_generation i"
    by (simp add: add.assoc)
  with arena_run_generation [OF wf', of xs "sid_index i"] g show ?thesis
    by (auto simp: get_def arr_get_def)
qed

theorem stale_id_stays_dead_witness:
  "\<exists>i v ar'. free i (snd (allocate True (7 :: u32) (arena_new 4))) = (Some v, ar') \<and>
     get (arena_run [Allocate 8, Allocate 9] ar') i = None"
proof -
  let ?a = "snd (allocate True (7 :: u32) (arena_new 4))" and ?i = "\<lparr>sid_index = 0, sid_generation = 0\<rparr>"
  have wf: "arena_wf ?a"
    by (rule conjunct1 [OF allocate_wf [OF arena_wf_new surjective_pairing]]) simp
  have fr: "free ?i ?a = (Some 7, snd (free ?i ?a))"
    by (simp add: free_def allocate_def arena_new_def)
  have "get (arena_run [Allocate 8, Allocate 9] (snd (free ?i ?a))) ?i = None"
    by (rule stale_id_stays_dead [OF wf fr]) simp
  with fr show ?thesis by blast
qed

text \<open>No slot is ever lost: after any sequence of operations on a new arena, an allocation
  fails exactly when all \<open>N\<close> slots hold a value.\<close>

theorem arena_full_iff_all_used:
  assumes "n \<le> 65535"
  shows "fst (allocate dbg v (arena_run xs (arena_new n))) = Ret None \<longleftrightarrow>
    (\<forall>k. unat k < n \<longrightarrow> slot_used (arena_run xs (arena_new n)) k)"
proof -
  let ?a = "arena_run xs (arena_new n)"
  have wf: "arena_wf ?a" and len: "length (arena_slots ?a) = n"
    using arena_run_wf [OF arena_wf_new [OF assms], of xs] by simp_all
  show ?thesis using wf
  proof (cases rule: allocate_cases [where dbg = dbg and v = v])
    case full
    with wf len show ?thesis by (auto simp: arena_wf_def dest: free_list_None)
  next
    case (ok i s)
    with len show ?thesis by (auto simp: slot_used_def)
  qed
qed

theorem arena_full_iff_all_used_witness:
  "fst (allocate True (3 :: u8) (arena_run [Allocate 1, Allocate 2] (arena_new 2))) = Ret None \<longleftrightarrow>
    (\<forall>k. unat k < 2 \<longrightarrow> slot_used (arena_run [Allocate 1, Allocate (2 :: u8)] (arena_new 2)) k)"
  by (rule arena_full_iff_all_used) simp

end
