(* ===== verification/Kernel_Objects.thy ===== *)
theory Kernel_Objects
  imports Arena
begin

text \<open>
  The three kinds of kernel object and their typed handles: \<open>kernel/src/obj/mod.rs\<close>,
  \<open>task.rs\<close>, \<open>endpoint.rs\<close>, \<open>notification.rs\<close>. Each kind lives in an arena of its own with
  capacity 16; a handle is the arena's slot id wrapped in a type of its own, so a handle of one
  kind cannot be used for another.
\<close>

section \<open>Capacities, errors, objects and handles\<close>

definition TASK_ARENA_CAPACITY :: nat where
  "TASK_ARENA_CAPACITY = 16"

definition ENDPOINT_ARENA_CAPACITY :: nat where
  "ENDPOINT_ARENA_CAPACITY = 16"

definition NOTIFICATION_ARENA_CAPACITY :: nat where
  "NOTIFICATION_ARENA_CAPACITY = 16"

lemmas arena_capacities =
  TASK_ARENA_CAPACITY_def ENDPOINT_ARENA_CAPACITY_def NOTIFICATION_ARENA_CAPACITY_def

datatype ObjError = ArenaFull | InvalidHandle | StillReachable

record Task =
  task_id :: u32

record Endpoint =
  endpoint_id :: u32

record Notification =
  notif_word :: u64

datatype TaskHandle = TaskHandle (task_slot: SlotId)

datatype EndpointHandle = EndpointHandle (endpoint_slot: SlotId)

datatype NotificationHandle = NotificationHandle (notif_slot: SlotId)

type_synonym TaskArena = "Task Arena"
type_synonym EndpointArena = "Endpoint Arena"
type_synonym NotificationArena = "Notification Arena"

definition task_arena_new :: TaskArena where
  "task_arena_new = arena_new TASK_ARENA_CAPACITY"

definition endpoint_arena_new :: EndpointArena where
  "endpoint_arena_new = arena_new ENDPOINT_ARENA_CAPACITY"

definition notification_arena_new :: NotificationArena where
  "notification_arena_new = arena_new NOTIFICATION_ARENA_CAPACITY"

section \<open>Tasks\<close>

definition task_new :: "u32 \<Rightarrow> Task" where
  "task_new i = \<lparr>task_id = i\<rparr>"

definition create_task ::
  "bool \<Rightarrow> TaskArena \<Rightarrow> Task \<Rightarrow> (ObjError, TaskHandle) result run \<times> TaskArena" where
  "create_task dbg ar t = (case allocate dbg t ar of
     (Ret r, ar') \<Rightarrow> (Ret (ok_or (map_option TaskHandle r) ArenaFull), ar')
   | (Panic, ar') \<Rightarrow> (Panic, ar')
   | (Diverge, ar') \<Rightarrow> (Diverge, ar'))"

definition destroy_task :: "TaskArena \<Rightarrow> TaskHandle \<Rightarrow> (ObjError, Task) result \<times> TaskArena" where
  "destroy_task ar h = (case free (task_slot h) ar of (r, ar') \<Rightarrow> (ok_or r InvalidHandle, ar'))"

definition get_task :: "TaskArena \<Rightarrow> TaskHandle \<Rightarrow> Task option" where
  "get_task ar h = get ar (task_slot h)"

section \<open>Endpoints\<close>

definition endpoint_new :: "u32 \<Rightarrow> Endpoint" where
  "endpoint_new i = \<lparr>endpoint_id = i\<rparr>"

definition create_endpoint ::
  "bool \<Rightarrow> EndpointArena \<Rightarrow> Endpoint \<Rightarrow> (ObjError, EndpointHandle) result run \<times> EndpointArena" where
  "create_endpoint dbg ar e = (case allocate dbg e ar of
     (Ret r, ar') \<Rightarrow> (Ret (ok_or (map_option EndpointHandle r) ArenaFull), ar')
   | (Panic, ar') \<Rightarrow> (Panic, ar')
   | (Diverge, ar') \<Rightarrow> (Diverge, ar'))"

definition destroy_endpoint ::
  "EndpointArena \<Rightarrow> EndpointHandle \<Rightarrow> (ObjError, Endpoint) result \<times> EndpointArena" where
  "destroy_endpoint ar h =
     (case free (endpoint_slot h) ar of (r, ar') \<Rightarrow> (ok_or r InvalidHandle, ar'))"

definition get_endpoint :: "EndpointArena \<Rightarrow> EndpointHandle \<Rightarrow> Endpoint option" where
  "get_endpoint ar h = get ar (endpoint_slot h)"

section \<open>Notifications\<close>

definition notif_new :: "u64 \<Rightarrow> Notification" where
  "notif_new w = \<lparr>notif_word = w\<rparr>"

definition notif_set :: "u64 \<Rightarrow> Notification \<Rightarrow> Notification" where
  "notif_set bits n = n\<lparr>notif_word := notif_word n OR bits\<rparr>"

definition notif_consume :: "Notification \<Rightarrow> u64 \<times> Notification" where
  "notif_consume n = (notif_word n, n\<lparr>notif_word := 0\<rparr>)"

definition create_notification ::
  "bool \<Rightarrow> NotificationArena \<Rightarrow> Notification \<Rightarrow>
   (ObjError, NotificationHandle) result run \<times> NotificationArena" where
  "create_notification dbg ar n = (case allocate dbg n ar of
     (Ret r, ar') \<Rightarrow> (Ret (ok_or (map_option NotificationHandle r) ArenaFull), ar')
   | (Panic, ar') \<Rightarrow> (Panic, ar')
   | (Diverge, ar') \<Rightarrow> (Diverge, ar'))"

definition destroy_notification ::
  "NotificationArena \<Rightarrow> NotificationHandle \<Rightarrow> (ObjError, Notification) result \<times> NotificationArena" where
  "destroy_notification ar h =
     (case free (notif_slot h) ar of (r, ar') \<Rightarrow> (ok_or r InvalidHandle, ar'))"

definition get_notification :: "NotificationArena \<Rightarrow> NotificationHandle \<Rightarrow> Notification option" where
  "get_notification ar h = get ar (notif_slot h)"

section \<open>Lemmas\<close>

lemma new_arenas_wf:
  "arena_wf task_arena_new" "arena_wf endpoint_arena_new" "arena_wf notification_arena_new"
  by (simp_all add: task_arena_new_def endpoint_arena_new_def notification_arena_new_def
      arena_capacities arena_wf_new)

text \<open>A well-formed arena creates an object or reports that it is full; it does not panic.\<close>

lemma create_endpoint_cases:
  assumes "arena_wf ar"
  obtains (full) "create_endpoint dbg ar e = (Ret (Err ArenaFull), ar)"
  | (ok) i ar' where "allocate dbg e ar = (Ret (Some i), ar')"
      "create_endpoint dbg ar e = (Ret (Ok (EndpointHandle i)), ar')"
  using assms
proof (cases rule: allocate_cases [where dbg = dbg and v = e])
  case full
  then show ?thesis using that(1) by (simp add: create_endpoint_def)
next
  case (ok i s)
  then show ?thesis using that(2) by (simp add: create_endpoint_def)
qed

text \<open>A notification word accumulates bits until it is consumed.\<close>

lemma notif_word_set [simp]: "notif_word (notif_set b n) = notif_word n OR b"
  by (simp add: notif_set_def)

lemma notif_set_set: "notif_set a (notif_set b n) = notif_set (b OR a) n"
  by (simp add: notif_set_def or.assoc)

lemma notif_set_idem: "notif_set b (notif_set b n) = notif_set b n"
  by (simp add: notif_set_set)

lemma notif_fold_set: "fold notif_set bs n = notif_set (fold (OR) bs 0) n"
proof (induction bs arbitrary: n)
  case Nil
  show ?case by (simp add: notif_set_def)
next
  case (Cons b bs)
  have "fold (OR) bs (x OR y) = x OR fold (OR) bs (y :: u64)" for x y
    by (induction bs arbitrary: x y) (simp_all add: or.left_commute or.assoc)
  from this [of b 0] Cons show ?case by (simp add: notif_set_set or.commute)
qed

end
