(* ===== verification/Sched_Queue.thy ===== *)
theory Sched_Queue
  imports Kernel_Objects
begin

text \<open>
  The scheduler's ready queue, \<open>SchedQueue<N>\<close> of \<open>kernel/src/sched/mod.rs\<close>: a ring buffer of
  task handles. The interface the scheduler relies on is the locale \<open>bounded_fifo\<close>; the ring
  buffer is shown to provide it.
\<close>

section \<open>The interface\<close>

locale bounded_fifo =
  fixes invar :: "'q \<Rightarrow> bool"
    and items :: "'q \<Rightarrow> 'a list"
    and capacity :: "'q \<Rightarrow> nat"
    and enq :: "'a \<Rightarrow> 'q \<Rightarrow> ('a, unit) result run \<times> 'q"
    and deq :: "'q \<Rightarrow> 'a option run \<times> 'q"
  assumes enq_full: "invar q \<Longrightarrow> length (items q) = capacity q \<Longrightarrow> enq a q = (Ret (Err a), q)"
    and enq_room: "invar q \<Longrightarrow> length (items q) < capacity q \<Longrightarrow>
      \<exists>q'. enq a q = (Ret (Ok ()), q') \<and> invar q' \<and> items q' = items q @ [a] \<and> capacity q' = capacity q"
    and deq_empty: "invar q \<Longrightarrow> items q = [] \<Longrightarrow> deq q = (Ret None, q)"
    and deq_head: "invar q \<Longrightarrow> items q = a # as \<Longrightarrow>
      \<exists>q'. deq q = (Ret (Some a), q') \<and> invar q' \<and> items q' = as \<and> capacity q' = capacity q"
    and items_bound: "invar q \<Longrightarrow> length (items q) \<le> capacity q"
begin

lemma enq_cases:
  assumes "invar q"
  obtains (full) "length (items q) = capacity q" "enq a q = (Ret (Err a), q)"
  | (ok) q' where "enq a q = (Ret (Ok ()), q')" "invar q'" "items q' = items q @ [a]"
      "capacity q' = capacity q"
proof (cases "length (items q) = capacity q")
  case True
  then show ?thesis using full enq_full [OF assms] by blast
next
  case False
  then have "length (items q) < capacity q" using items_bound [OF assms] by simp
  then show ?thesis using ok enq_room [OF assms] by blast
qed

lemma deq_cases:
  assumes "invar q"
  obtains (empty) "items q = []" "deq q = (Ret None, q)"
  | (ok) a q' where "deq q = (Ret (Some a), q')" "invar q'" "items q = a # items q'"
      "capacity q' = capacity q"
proof (cases "items q")
  case Nil
  then show ?thesis using empty deq_empty [OF assms] by blast
next
  case (Cons a as)
  then show ?thesis using ok deq_head [OF assms Cons] by auto
qed

text \<open>Neither operation panics.\<close>

lemma returns: "invar q \<Longrightarrow> (\<exists>r. fst (enq a q) = Ret r) \<and> (\<exists>r. fst (deq q) = Ret r)"
  by (metis deq_cases enq_cases fst_conv)

text \<open>What goes to the back while another element is in front comes out after it: putting an
  element at the back and taking the front rotates the queue.\<close>

lemma rotate:
  assumes "invar q" and "items q = a # as" and "enq b q = (Ret (Ok ()), q1)"
  shows "\<exists>q2. deq q1 = (Ret (Some a), q2) \<and> invar q2 \<and> items q2 = as @ [b]"
proof -
  have "length (items q) \<noteq> capacity q" using enq_full [OF assms(1)] assms(3) by fastforce
  then have "length (items q) < capacity q" using items_bound [OF assms(1)] by simp
  from enq_room [OF assms(1) this, of b] assms(2,3)
  have "invar q1" "items q1 = a # (as @ [b])" by auto
  from deq_head [OF this] show ?thesis by blast
qed

end

section \<open>The ring buffer\<close>

record SchedQueue =
  sq_buf :: "TaskHandle option list"
  sq_head :: nat
  sq_len :: nat

definition queue_new :: "nat \<Rightarrow> SchedQueue" where
  "queue_new n = \<lparr>sq_buf = replicate n None, sq_head = 0, sq_len = 0\<rparr>"

definition enqueue :: "TaskHandle \<Rightarrow> SchedQueue \<Rightarrow> (TaskHandle, unit) result run \<times> SchedQueue" where
  "enqueue h q =
     (let n = length (sq_buf q) in
      if sq_len q = n then (Ret (Err h), q)
      else if n = 0 then (Panic, q)
      else
        let tail = usize_wrapping_add (sq_head q) (sq_len q) mod n
        in (Ret (Ok ()), q\<lparr>sq_buf := (sq_buf q)[tail := Some h],
              sq_len := usize_wrapping_add (sq_len q) 1\<rparr>))"

definition dequeue :: "SchedQueue \<Rightarrow> TaskHandle option run \<times> SchedQueue" where
  "dequeue q =
     (let n = length (sq_buf q) in
      if sq_len q = 0 then (Ret None, q)
      else (case arr_get (sq_buf q) (sq_head q) of
        None \<Rightarrow> (Panic, q)
      | Some handle \<Rightarrow>
          (Ret handle, \<lparr>sq_buf = (sq_buf q)[sq_head q := None],
             sq_head = usize_wrapping_add (sq_head q) 1 mod n, sq_len = sq_len q - 1\<rparr>)))"

definition queue_len :: "SchedQueue \<Rightarrow> nat" where
  "queue_len q = sq_len q"

definition queue_is_empty :: "SchedQueue \<Rightarrow> bool" where
  "queue_is_empty q \<longleftrightarrow> sq_len q = 0"

section \<open>The ring buffer is a bounded FIFO\<close>

definition queue_items :: "SchedQueue \<Rightarrow> TaskHandle list" where
  "queue_items q = map (\<lambda>i. the (sq_buf q ! ((sq_head q + i) mod length (sq_buf q)))) [0..<sq_len q]"

text \<open>An array fits in the address space, so head and length never wrap around as \<open>usize\<close>.\<close>

definition queue_wf :: "SchedQueue \<Rightarrow> bool" where
  "queue_wf q \<longleftrightarrow> length (sq_buf q) < 2 ^ 63 \<and> sq_len q \<le> length (sq_buf q) \<and>
     (sq_head q < length (sq_buf q) \<or> sq_len q = 0 \<and> length (sq_buf q) = 0 \<and> sq_head q = 0) \<and>
     (\<forall>i < sq_len q. sq_buf q ! ((sq_head q + i) mod length (sq_buf q)) \<noteq> None)"

lemma length_queue_items [simp]: "length (queue_items q) = sq_len q"
  by (simp add: queue_items_def)

lemma queue_new_wf: "n < 2 ^ 63 \<Longrightarrow> queue_wf (queue_new n)" "queue_items (queue_new n) = []"
  by (auto simp: queue_wf_def queue_new_def queue_items_def)

lemma mod_shift_inj:
  assumes "a < n" "b < n" "(h + a) mod n = (h + b) mod (n :: nat)"
  shows "a = b"
proof -
  have "a = b" if "a \<le> b" "b < n" "(h + b) mod n = (h + a) mod n" for a b
  proof -
    have "n dvd (h + b) - (h + a)" using that mod_eq_dvd_iff_nat [of "h + a" "h + b" n] by simp
    then have "n dvd b - a" by simp
    with that show "a = b" by (meson diff_is_0_eq dual_order.antisym less_imp_diff_less nat_dvd_not_less not_gr_zero)
  qed
  with assms show ?thesis by (metis nle_le)
qed

lemma queue_enq_room:
  assumes wf: "queue_wf q" and room: "length (queue_items q) < length (sq_buf q)"
  shows "\<exists>q'. enqueue h q = (Ret (Ok ()), q') \<and> queue_wf q' \<and> queue_items q' = queue_items q @ [h] \<and>
    length (sq_buf q') = length (sq_buf q)"
proof -
  let ?n = "length (sq_buf q)"
  define tail where "tail = (sq_head q + sq_len q) mod ?n"
  define q' where "q' = q\<lparr>sq_buf := (sq_buf q)[tail := Some h], sq_len := sq_len q + 1\<rparr>"
  have n: "0 < ?n" "?n < 2 ^ 63" "sq_len q < ?n" "sq_head q < ?n" using wf room by (auto simp: queue_wf_def)
  then have "usize_wrapping_add (sq_head q) (sq_len q) = sq_head q + sq_len q"
    "usize_wrapping_add (sq_len q) 1 = sq_len q + 1" by simp_all
  then have run: "enqueue h q = (Ret (Ok ()), q')"
    using n by (auto simp: enqueue_def Let_def tail_def q'_def)
  have tail: "tail < ?n" using n(1) by (simp add: tail_def)
  have old: "sq_buf q' ! ((sq_head q + i) mod ?n) = sq_buf q ! ((sq_head q + i) mod ?n)" if "i < sq_len q" for i
  proof -
    have "(sq_head q + i) mod ?n \<noteq> tail"
      using mod_shift_inj [of i ?n "sq_len q" "sq_head q"] that n(3) by (auto simp: tail_def)
    then show ?thesis by (simp add: q'_def)
  qed
  have new: "sq_buf q' ! ((sq_head q + sq_len q) mod ?n) = Some h"
    using tail by (simp add: q'_def tail_def)
  have "queue_wf q'"
    using wf n old new by (auto simp: queue_wf_def q'_def less_Suc_eq)
  moreover have "queue_items q' = queue_items q @ [h]"
    using old new by (simp add: queue_items_def q'_def)
  ultimately show ?thesis using run by (simp add: q'_def)
qed

lemma queue_deq_head:
  assumes wf: "queue_wf q" and items: "queue_items q = a # as"
  shows "\<exists>q'. dequeue q = (Ret (Some a), q') \<and> queue_wf q' \<and> queue_items q' = as \<and>
    length (sq_buf q') = length (sq_buf q)"
proof -
  let ?n = "length (sq_buf q)"
  define q' where "q' = \<lparr>sq_buf = (sq_buf q)[sq_head q := None], sq_head = (sq_head q + 1) mod ?n,
    sq_len = sq_len q - 1\<rparr>"
  have len: "sq_len q = Suc (length as)" using length_queue_items [of q] items by simp
  then have n: "0 < ?n" "?n < 2 ^ 63" "sq_head q < ?n" "sq_len q \<le> ?n" using wf by (auto simp: queue_wf_def)
  have cells: "sq_buf q ! ((sq_head q + i) mod ?n) \<noteq> None" if "i < sq_len q" for i
    using wf that by (simp add: queue_wf_def)
  have idx: "(sq_head q' + i) mod ?n = (sq_head q + Suc i) mod ?n" for i
    by (simp add: q'_def mod_simps)
  have keep: "sq_buf q' ! ((sq_head q' + i) mod ?n) = sq_buf q ! ((sq_head q + Suc i) mod ?n)"
    if "i < length as" for i
  proof -
    have "(sq_head q + Suc i) mod ?n \<noteq> (sq_head q + 0) mod ?n"
      using mod_shift_inj [of "Suc i" ?n 0 "sq_head q"] that len n by auto
    then have "(sq_head q + Suc i) mod ?n \<noteq> sq_head q" using n(3) by simp
    then show ?thesis unfolding idx by (simp add: q'_def)
  qed
  have "queue_items q = the (sq_buf q ! sq_head q) # map (\<lambda>i. the (sq_buf q ! ((sq_head q + Suc i) mod ?n))) [0..<length as]"
    using n(3) by (simp add: queue_items_def len upt_conv_Cons map_Suc_upt [symmetric] comp_def del: upt_Suc)
  then have a: "the (sq_buf q ! sq_head q) = a"
    and as: "map (\<lambda>i. the (sq_buf q ! ((sq_head q + Suc i) mod ?n))) [0..<length as] = as"
    using items by auto
  have "sq_buf q ! sq_head q = Some a" using cells [of 0] a n(3) len by auto
  then have "dequeue q = (Ret (Some a), q')"
    using n len by (simp add: dequeue_def Let_def q'_def)
  moreover have "queue_items q' = as"
  proof -
    have "queue_items q' = map (\<lambda>i. the (sq_buf q ! ((sq_head q + Suc i) mod ?n))) [0..<length as]"
      using keep by (simp add: queue_items_def q'_def len)
    then show ?thesis using as by simp
  qed
  moreover have "queue_wf q'"
    using n len keep cells [of "Suc _"] by (auto simp: queue_wf_def q'_def)
  ultimately show ?thesis by (simp add: q'_def)
qed

interpretation ready_queue: bounded_fifo queue_wf queue_items "\<lambda>q. length (sq_buf q)" enqueue dequeue
proof unfold_locales
  fix q a assume "queue_wf q" "length (queue_items q) = length (sq_buf q)"
  then show "enqueue a q = (Ret (Err a), q)" by (simp add: enqueue_def Let_def)
next
  fix q assume "queue_wf q" "queue_items q = []"
  then have "sq_len q = 0" by (metis length_queue_items list.size(3))
  then show "dequeue q = (Ret None, q)" by (simp add: dequeue_def)
next
  fix q assume "queue_wf q"
  then show "length (queue_items q) \<le> length (sq_buf q)" by (simp add: queue_wf_def)
qed (use queue_enq_room queue_deq_head in auto)

text \<open>C29. The ring buffer is a first-in first-out queue of bounded length: whatever the position of
  its head, \<open>enqueue\<close> appends to the list of queued tasks or reports that all \<open>N\<close> places are
  taken, \<open>dequeue\<close> removes the oldest, and neither panics.\<close>

theorem ring_buffer_is_fifo:
  assumes "queue_wf q"
  shows "(case enqueue h q of
      (Ret (Ok _), q') \<Rightarrow> queue_wf q' \<and> queue_items q' = queue_items q @ [h] \<and> length (queue_items q) < length (sq_buf q)
    | (Ret (Err x), q') \<Rightarrow> x = h \<and> q' = q \<and> length (queue_items q) = length (sq_buf q)
    | _ \<Rightarrow> False) \<and>
    (case dequeue q of
      (Ret (Some a), q') \<Rightarrow> queue_wf q' \<and> queue_items q = a # queue_items q'
    | (Ret None, q') \<Rightarrow> q' = q \<and> queue_items q = []
    | _ \<Rightarrow> False) \<and> queue_is_empty q = (queue_items q = []) \<and> queue_len q = length (queue_items q)"
proof (intro conjI)
  show "case enqueue h q of
      (Ret (Ok _), q') \<Rightarrow> queue_wf q' \<and> queue_items q' = queue_items q @ [h] \<and> length (queue_items q) < length (sq_buf q)
    | (Ret (Err x), q') \<Rightarrow> x = h \<and> q' = q \<and> length (queue_items q) = length (sq_buf q)
    | _ \<Rightarrow> False"
    using assms
  proof (cases rule: ready_queue.enq_cases [where a = h])
    case (ok q')
    then show ?thesis
      using ready_queue.items_bound [OF ok(2)] by simp
  qed simp
  show "case dequeue q of
      (Ret (Some a), q') \<Rightarrow> queue_wf q' \<and> queue_items q = a # queue_items q'
    | (Ret None, q') \<Rightarrow> q' = q \<and> queue_items q = []
    | _ \<Rightarrow> False"
    using assms by (cases rule: ready_queue.deq_cases) simp_all
qed (use length_queue_items [of q] in \<open>auto simp: queue_is_empty_def queue_len_def simp del: length_queue_items\<close>)

theorem ring_buffer_is_fifo_witness:
  "queue_items (snd (enqueue (TaskHandle \<lparr>sid_index = 3, sid_generation = 0\<rparr>) (queue_new 16))) =
    [TaskHandle \<lparr>sid_index = 3, sid_generation = 0\<rparr>]"
proof -
  let ?h = "TaskHandle \<lparr>sid_index = 3, sid_generation = 0\<rparr>"
  obtain q' where e: "enqueue ?h (queue_new 16) = (Ret (Ok ()), q')"
    by (simp add: enqueue_def queue_new_def Let_def)
  have "queue_wf (queue_new 16)" by (rule queue_new_wf) simp
  from ring_buffer_is_fifo [OF this, of ?h] e show ?thesis by (simp add: queue_new_wf(2))
qed

end
