(* ===== verification/Bit_Field.thy ===== *)
theory Bit_Field
  imports Tyrne_Prelude
begin

text \<open>
  The contract of a bit-flag type, the shape the source uses twice: \<open>CapRights\<close>
  (\<open>kernel/src/cap/rights.rs\<close>) and \<open>MappingFlags\<close> (\<open>hal/src/mmu.rs\<close>), each a \<open>u32\<close> with the same
  operations. A value is the set of positions of its bits, and the operations are those of sets.
\<close>

definition bit_set :: "u32 \<Rightarrow> nat set" where
  "bit_set w = {n. bit w n}"

lemma bit_set_inject: "bit_set v = bit_set w \<longleftrightarrow> v = w"
  by (auto simp: bit_set_def set_eq_iff word_eq_bits)

lemma bit_set_ops:
  "bit_set (v OR w) = bit_set v \<union> bit_set w"
  "bit_set (v AND w) = bit_set v \<inter> bit_set w"
  "bit_set (v AND NOT w) = bit_set v - bit_set w"
  "bit_set 0 = {}"
  by (auto simp: bit_set_def bit_or_iff bit_and_iff bit_not_iff dest: bit_imp_le_length)

locale bit_field =
  fixes raw :: "'f \<Rightarrow> u32"
    and contains :: "'f \<Rightarrow> 'f \<Rightarrow> bool"
    and union :: "'f \<Rightarrow> 'f \<Rightarrow> 'f"
    and intersection :: "'f \<Rightarrow> 'f \<Rightarrow> 'f"
    and difference :: "'f \<Rightarrow> 'f \<Rightarrow> 'f"
    and is_empty :: "'f \<Rightarrow> bool"
  assumes raw_inject: "raw a = raw b \<Longrightarrow> a = b"
    and contains: "contains a b \<longleftrightarrow> raw a AND raw b = raw b"
    and union: "raw (union a b) = raw a OR raw b"
    and intersection: "raw (intersection a b) = raw a AND raw b"
    and difference: "raw (difference a b) = raw a AND NOT (raw b)"
    and is_empty: "is_empty a \<longleftrightarrow> raw a = 0"
begin

lemma inject: "bit_set (raw a) = bit_set (raw b) \<longleftrightarrow> a = b"
  using raw_inject by (auto simp: bit_set_inject)

lemma contains_iff: "contains a b \<longleftrightarrow> bit_set (raw b) \<subseteq> bit_set (raw a)"
  unfolding contains bit_set_inject [symmetric] bit_set_ops by blast

lemma sets:
  "bit_set (raw (union a b)) = bit_set (raw a) \<union> bit_set (raw b)"
  "bit_set (raw (intersection a b)) = bit_set (raw a) \<inter> bit_set (raw b)"
  "bit_set (raw (difference a b)) = bit_set (raw a) - bit_set (raw b)"
  "is_empty a \<longleftrightarrow> bit_set (raw a) = {}"
  by (simp_all add: union intersection bit_set_ops(1,2))
    (simp_all only: difference bit_set_ops(3) is_empty bit_set_inject flip: bit_set_ops(4))

lemma contains_refl: "contains a a"
  by (simp add: contains_iff)

lemma contains_trans: "contains a b \<Longrightarrow> contains b c \<Longrightarrow> contains a c"
  by (auto simp: contains_iff)

lemma contains_antisym: "contains a b \<Longrightarrow> contains b a \<Longrightarrow> a = b"
  using inject [of a b] by (auto simp: contains_iff)

lemma contains_union: "contains c (union a b) \<longleftrightarrow> contains c a \<and> contains c b"
  by (auto simp: contains_iff sets)

lemma contains_intersection: "contains (intersection a b) c \<longleftrightarrow> contains a c \<and> contains b c"
  by (auto simp: contains_iff sets)

text \<open>Narrowing: what is left after a difference, and nothing is left of what was taken away.\<close>

lemma difference_narrows: "contains a (difference a b)" "is_empty (intersection (difference a b) b)"
  by (auto simp: contains_iff sets)

lemma split: "union (intersection a b) (difference a b) = a"
  unfolding inject [symmetric] sets by blast

end

end
