(* ===== verification/Cap_Rights.thy ===== *)
theory Cap_Rights
  imports Kernel_Objects Bit_Field
begin

text \<open>
  The rights bitfield and the capability value: \<open>kernel/src/cap/rights.rs\<close> and the types of
  \<open>kernel/src/cap/mod.rs\<close>.
\<close>

section \<open>Rights\<close>

datatype CapRights = CapRights (rights_raw: u32)

definition EMPTY :: CapRights where "EMPTY = CapRights 0"
definition DUPLICATE :: CapRights where "DUPLICATE = CapRights (push_bit 0 1)"
definition DERIVE :: CapRights where "DERIVE = CapRights (push_bit 1 1)"
definition REVOKE :: CapRights where "REVOKE = CapRights (push_bit 2 1)"
definition TRANSFER :: CapRights where "TRANSFER = CapRights (push_bit 3 1)"
definition SEND :: CapRights where "SEND = CapRights (push_bit 4 1)"
definition RECV :: CapRights where "RECV = CapRights (push_bit 5 1)"
definition NOTIFY :: CapRights where "NOTIFY = CapRights (push_bit 6 1)"

lemmas rights_consts =
  EMPTY_def DUPLICATE_def DERIVE_def REVOKE_def TRANSFER_def SEND_def RECV_def NOTIFY_def

definition KNOWN_BITS :: CapRights where
  "KNOWN_BITS = CapRights (rights_raw DUPLICATE OR rights_raw DERIVE OR rights_raw REVOKE OR
     rights_raw TRANSFER OR rights_raw SEND OR rights_raw RECV OR rights_raw NOTIFY)"

definition rights_from_raw :: "u32 \<Rightarrow> CapRights" where
  "rights_from_raw bits = CapRights (bits AND rights_raw KNOWN_BITS)"

definition rights_contains :: "CapRights \<Rightarrow> CapRights \<Rightarrow> bool" where
  "rights_contains a b \<longleftrightarrow> (rights_raw a AND rights_raw b) = rights_raw b"

definition rights_union :: "CapRights \<Rightarrow> CapRights \<Rightarrow> CapRights" where
  "rights_union a b = CapRights (rights_raw a OR rights_raw b)"

definition rights_intersection :: "CapRights \<Rightarrow> CapRights \<Rightarrow> CapRights" where
  "rights_intersection a b = CapRights (rights_raw a AND rights_raw b)"

definition rights_difference :: "CapRights \<Rightarrow> CapRights \<Rightarrow> CapRights" where
  "rights_difference a b = CapRights (rights_raw a AND NOT (rights_raw b))"

definition rights_is_empty :: "CapRights \<Rightarrow> bool" where
  "rights_is_empty a \<longleftrightarrow> rights_raw a = 0"

text \<open>The operators \<open>|\<close>, \<open>&\<close> and \<open>|=\<close>.\<close>

definition rights_bitor :: "CapRights \<Rightarrow> CapRights \<Rightarrow> CapRights" where
  "rights_bitor a rhs = rights_union a rhs"

definition rights_bitand :: "CapRights \<Rightarrow> CapRights \<Rightarrow> CapRights" where
  "rights_bitand a rhs = rights_intersection a rhs"

definition rights_bitor_assign :: "CapRights \<Rightarrow> CapRights \<Rightarrow> CapRights" where
  "rights_bitor_assign a rhs = rights_bitor a rhs"

section \<open>Capabilities\<close>

datatype CapKind = KindTask | KindEndpoint | KindNotification | KindMemoryRegion

datatype CapObject =
    ObjTask TaskHandle
  | ObjEndpoint EndpointHandle
  | ObjNotification NotificationHandle

fun object_kind :: "CapObject \<Rightarrow> CapKind" where
  "object_kind (ObjTask _) = KindTask"
| "object_kind (ObjEndpoint _) = KindEndpoint"
| "object_kind (ObjNotification _) = KindNotification"

record Capability =
  cap_rights :: CapRights
  cap_object :: CapObject

definition capability_new :: "CapRights \<Rightarrow> CapObject \<Rightarrow> Capability" where
  "capability_new r obj = \<lparr>cap_rights = r, cap_object = obj\<rparr>"

definition cap_kind :: "Capability \<Rightarrow> CapKind" where
  "cap_kind c = object_kind (cap_object c)"

datatype CapError =
    CapsExhausted
  | CapInvalidHandle
  | WidenedRights
  | InsufficientRights
  | DerivationTooDeep
  | HasChildren

section \<open>Rights as sets of bits\<close>

text \<open>The abstract view: a rights value is the set of bit positions it has.\<close>

definition rights_set :: "CapRights \<Rightarrow> nat set" where
  "rights_set r = bit_set (rights_raw r)"

interpretation rights: bit_field rights_raw rights_contains rights_union rights_intersection rights_difference
  rights_is_empty
  by unfold_locales (simp_all add: CapRights.expand rights_contains_def rights_union_def rights_intersection_def
      rights_difference_def rights_is_empty_def)

lemmas rights_contains_iff = rights.contains_iff [folded rights_set_def]
lemmas rights_sets = rights.sets [folded rights_set_def]
lemmas rights_contains_refl [simp] = rights.contains_refl
lemmas rights_contains_trans = rights.contains_trans

text \<open>Rights are ordered by containment, and form a lattice with the empty set at the bottom.\<close>

instantiation CapRights :: "{distrib_lattice, order_bot}"
begin

definition less_eq_CapRights :: "CapRights \<Rightarrow> CapRights \<Rightarrow> bool" where
  "less_eq_CapRights a b = rights_contains b a"

definition less_CapRights :: "CapRights \<Rightarrow> CapRights \<Rightarrow> bool" where
  "less_CapRights a b \<longleftrightarrow> rights_contains b a \<and> \<not> rights_contains a b"

definition inf_CapRights :: "CapRights \<Rightarrow> CapRights \<Rightarrow> CapRights" where
  "inf_CapRights a b = rights_intersection a b"

definition sup_CapRights :: "CapRights \<Rightarrow> CapRights \<Rightarrow> CapRights" where
  "sup_CapRights a b = rights_union a b"

definition bot_CapRights :: CapRights where
  "bot_CapRights = EMPTY"

instance
proof
  fix a b c :: CapRights
  note order = less_eq_CapRights_def less_CapRights_def inf_CapRights_def sup_CapRights_def bot_CapRights_def
  show "(a < b) = (a \<le> b \<and> \<not> b \<le> a)" by (simp add: order)
  show "a \<le> a" by (simp add: order)
  show "a \<le> b \<Longrightarrow> b \<le> c \<Longrightarrow> a \<le> c" by (auto simp: order rights_contains_iff)
  show "a \<le> b \<Longrightarrow> b \<le> a \<Longrightarrow> a = b" by (simp add: order rights.contains_antisym)
  show "inf a b \<le> a" "inf a b \<le> b" "a \<le> b \<Longrightarrow> a \<le> c \<Longrightarrow> a \<le> inf b c"
    by (auto simp: order rights_contains_iff rights_sets)
  show "a \<le> sup a b" "b \<le> sup a b" "b \<le> a \<Longrightarrow> c \<le> a \<Longrightarrow> sup b c \<le> a"
    by (auto simp: order rights_contains_iff rights_sets)
  show "sup a (inf b c) = inf (sup a b) (sup a c)"
    by (rule rights.inject [THEN iffD1]) (auto simp: order rights.sets)
  show "bot \<le> a" by (simp add: order rights_contains_def EMPTY_def)
qed

end

lemma KNOWN_BITS_raw: "rights_raw KNOWN_BITS = 127"
  by (simp add: KNOWN_BITS_def rights_consts)

lemma rights_set_KNOWN_BITS: "rights_set KNOWN_BITS = {..<7}"
proof -
  have "(127 :: u32) = mask 7" by (simp add: mask_eq_exp_minus_1)
  then have "rights_raw KNOWN_BITS = mask 7" by (simp only: KNOWN_BITS_raw)
  then show ?thesis unfolding rights_set_def bit_set_def by (auto simp only: bit_mask_iff) simp_all
qed

lemma rights_set_from_raw: "rights_set (rights_from_raw w) = {n. bit w n \<and> n < 7}"
  using rights_set_KNOWN_BITS
  by (auto simp: rights_from_raw_def rights_set_def bit_set_def bit_and_iff)

text \<open>The rights values a program can get hold of: the field is private, so each comes from a constant,
  from raw bits, or from an operation.\<close>

inductive api_rights :: "CapRights \<Rightarrow> bool" where
  const: "r \<in> {EMPTY, DUPLICATE, DERIVE, REVOKE, TRANSFER, SEND, RECV, NOTIFY, KNOWN_BITS} \<Longrightarrow> api_rights r"
| from_raw: "api_rights (rights_from_raw w)"
| union: "api_rights a \<Longrightarrow> api_rights b \<Longrightarrow> api_rights (rights_union a b)"
| intersection: "api_rights a \<Longrightarrow> api_rights b \<Longrightarrow> api_rights (rights_intersection a b)"
| difference: "api_rights a \<Longrightarrow> api_rights b \<Longrightarrow> api_rights (rights_difference a b)"

lemma single_right: "n < 32 \<Longrightarrow> rights_set (CapRights (push_bit n 1)) = {n}"
  by (auto simp: rights_set_def bit_set_def bit_exp_iff)

lemma rights_set_named:
  "rights_set EMPTY = {}" "rights_set DUPLICATE = {0}" "rights_set DERIVE = {1}" "rights_set REVOKE = {2}"
  "rights_set TRANSFER = {3}" "rights_set SEND = {4}" "rights_set RECV = {5}" "rights_set NOTIFY = {6}"
  unfolding DUPLICATE_def DERIVE_def REVOKE_def TRANSFER_def SEND_def RECV_def NOTIFY_def
  by (simp add: EMPTY_def rights_set_def bit_set_def) (rule single_right, simp)+

lemma rights_from_raw_raw: "rights_from_raw (rights_raw a) = a \<longleftrightarrow> rights_set a \<subseteq> {..<7}"
proof -
  have "rights_from_raw (rights_raw a) = a \<longleftrightarrow> rights_set (rights_from_raw (rights_raw a)) = rights_set a"
    using rights.inject [of "rights_from_raw (rights_raw a)" a] by (simp add: rights_set_def)
  also have "\<dots> \<longleftrightarrow> rights_set a \<subseteq> {..<7}" by (auto simp: rights_set_from_raw) (auto simp: rights_set_def bit_set_def)
  finally show ?thesis .
qed

lemma api_rights_known: "api_rights a \<Longrightarrow> rights_set a \<subseteq> {..<7}"
  by (induction rule: api_rights.induct) (auto simp: rights_set_named rights_set_KNOWN_BITS rights_set_from_raw rights_sets)

section \<open>Properties\<close>

text \<open>C37. Rights cross the ABI unchanged, and nothing else does. Each named right is a bit of its own;
  \<open>from_raw\<close> keeps exactly the bits of the seven named rights, whatever the caller passed. The values a
  program can get hold of are exactly the sets of named rights, and exactly those that survive
  \<open>from_raw\<close> after \<open>raw\<close>. On them \<open>contains\<close> is inclusion and \<open>union\<close>, \<open>intersection\<close> and \<open>difference\<close> are those of
  the sets.\<close>

theorem rights_are_bit_sets:
  "map rights_set [EMPTY, DUPLICATE, DERIVE, REVOKE, TRANSFER, SEND, RECV, NOTIFY] =
     [{}, {0}, {1}, {2}, {3}, {4}, {5}, {6}] \<and>
   rights_set (rights_from_raw w) = {n. bit w n} \<inter> {..<7} \<and>
   (api_rights a \<longleftrightarrow> rights_set a \<subseteq> {..<7}) \<and>
   (api_rights a \<longleftrightarrow> rights_from_raw (rights_raw a) = a) \<and>
   (rights_contains a b \<longleftrightarrow> rights_set b \<subseteq> rights_set a) \<and>
   rights_set (rights_union a b) = rights_set a \<union> rights_set b \<and>
   rights_set (rights_intersection a b) = rights_set a \<inter> rights_set b \<and>
   rights_set (rights_difference a b) = rights_set a - rights_set b \<and>
   (rights_is_empty a \<longleftrightarrow> rights_set a = {}) \<and>
   rights_set KNOWN_BITS = {..<7}"
proof -
  have "api_rights a" if "rights_from_raw (rights_raw a) = a" using api_rights.from_raw [of "rights_raw a"] that by simp
  then have "api_rights a \<longleftrightarrow> rights_set a \<subseteq> {..<7}" using api_rights_known rights_from_raw_raw by blast
  then show ?thesis
    using rights_contains_iff rights_sets rights_set_KNOWN_BITS
    by (auto simp: rights_set_named rights_set_from_raw rights_from_raw_raw)
qed

end
