(* ===== verification/Cap_Table.thy ===== *)
theory Cap_Table
  imports Cap_Rights
begin

text \<open>
  The capability table, \<open>kernel/src/cap/table.rs\<close>: 64 slots with a free list, and a
  derivation tree threaded through them (\<open>parent\<close>, \<open>first_child\<close>, \<open>next_sibling\<close>). This theory
  holds the data and the operations, statement by statement; \<open>Cap_Forest\<close> holds the invariant
  and what follows from it. Indexing \<open>self.slots[i]\<close> out of range is \<open>Panic\<close>.
\<close>

section \<open>Data\<close>

definition CAP_TABLE_CAPACITY :: nat where
  "CAP_TABLE_CAPACITY = 64"

definition MAX_DERIVATION_DEPTH :: nat where
  "MAX_DERIVATION_DEPTH = 16"

record CapHandle =
  ch_index :: u16
  ch_generation :: u32

record SlotEntry =
  capability :: Capability
  parent :: "u16 option"
  first_child :: "u16 option"
  next_sibling :: "u16 option"
  depth :: u8

record CapSlot =
  cs_entry :: "SlotEntry option"
  cs_generation :: u32
  cs_next_free :: "u16 option"

record CapabilityTable =
  ct_slots :: "CapSlot list"
  ct_free_head :: "u16 option"

section \<open>Internals\<close>

text \<open>\<open>self.slots[i].entry = e\<close> and \<open>if let Some(e) = self.slots[i].entry.as_mut()\<close>, for an
  index the code has read just before.\<close>

definition set_entry :: "u16 \<Rightarrow> SlotEntry option \<Rightarrow> CapabilityTable \<Rightarrow> CapabilityTable" where
  "set_entry i e t = t\<lparr>ct_slots := (ct_slots t)[unat i := (ct_slots t ! unat i)\<lparr>cs_entry := e\<rparr>]\<rparr>"

definition modify_entry ::
  "u16 \<Rightarrow> (SlotEntry \<Rightarrow> SlotEntry) \<Rightarrow> CapabilityTable \<Rightarrow> CapabilityTable" where
  "modify_entry i f t = set_entry i (map_option f (cs_entry (ct_slots t ! unat i))) t"

text \<open>\<open>match &slot.entry { Some(entry) => entry.next_sibling, None => None }\<close>, and the same for
  the first child.\<close>

definition sibling_of :: "CapSlot \<Rightarrow> u16 option" where
  "sibling_of slot = (case cs_entry slot of Some entry \<Rightarrow> next_sibling entry | None \<Rightarrow> None)"

definition first_child_of :: "CapSlot \<Rightarrow> u16 option" where
  "first_child_of slot = (case cs_entry slot of Some entry \<Rightarrow> first_child entry | None \<Rightarrow> None)"

definition table_new :: CapabilityTable where
  "table_new = \<lparr>
     ct_slots = map (\<lambda>i. let next_idx = usize_wrapping_add i 1 in
        \<lparr>cs_entry = None, cs_generation = 0,
         cs_next_free = (if next_idx < CAP_TABLE_CAPACITY then Some (of_nat next_idx) else None)\<rparr>)
       [0..<CAP_TABLE_CAPACITY],
     ct_free_head = Some 0\<rparr>"

definition resolve_handle :: "CapabilityTable \<Rightarrow> CapHandle \<Rightarrow> (CapError, u16) result" where
  "resolve_handle t h = (case arr_get (ct_slots t) (unat (ch_index h)) of
     None \<Rightarrow> Err CapInvalidHandle
   | Some slot \<Rightarrow>
       if cs_generation slot \<noteq> ch_generation h then Err CapInvalidHandle
       else if cs_entry slot = None then Err CapInvalidHandle
       else Ok (ch_index h))"

definition entry_of :: "CapabilityTable \<Rightarrow> CapHandle \<Rightarrow> (CapError, SlotEntry) result run" where
  "entry_of t h = (case resolve_handle t h of
     Err e \<Rightarrow> Ret (Err e)
   | Ok i \<Rightarrow> (case arr_get (ct_slots t) (unat i) of
       None \<Rightarrow> Panic
     | Some slot \<Rightarrow> (case cs_entry slot of
         Some e \<Rightarrow> Ret (Ok e)
       | None \<Rightarrow> Ret (Err CapInvalidHandle))))"

definition pop_free :: "CapabilityTable \<Rightarrow> u16 option run \<times> CapabilityTable" where
  "pop_free t = (case ct_free_head t of
     None \<Rightarrow> (Ret None, t)
   | Some head \<Rightarrow> (case arr_get (ct_slots t) (unat head) of
       None \<Rightarrow> (Panic, t)
     | Some slot \<Rightarrow> (Ret (Some head),
         \<lparr>ct_slots = (ct_slots t)[unat head := slot\<lparr>cs_next_free := None\<rparr>],
          ct_free_head = cs_next_free slot\<rparr>)))"

definition free_slot :: "u16 \<Rightarrow> CapabilityTable \<Rightarrow> CapabilityTable" where
  "free_slot i t = (case arr_get (ct_slots t) (unat i) of
     None \<Rightarrow> t\<lparr>ct_free_head := Some i\<rparr>
   | Some slot \<Rightarrow>
       \<lparr>ct_slots = (ct_slots t)[unat i :=
          \<lparr>cs_entry = None, cs_generation = cs_generation slot + 1,
           cs_next_free = ct_free_head t\<rparr>],
        ct_free_head = Some i\<rparr>)"

text \<open>The sibling walk of \<open>unlink_from_siblings\<close> has no bound in the code: \<open>None\<close> is a walk
  that does not end.\<close>

partial_function (option) unlink_walk ::
  "CapabilityTable \<Rightarrow> u16 \<Rightarrow> u16 option \<Rightarrow> u16 option \<Rightarrow>
   ((CapError, unit) result run \<times> CapabilityTable) option" where
  "unlink_walk t index nxt cursor =
     (if cursor = None then Some (Ret (Err CapInvalidHandle), t)
      else if length (ct_slots t) \<le> unat (the cursor) then Some (Panic, t)
      else if sibling_of (ct_slots t ! unat (the cursor)) = Some index
      then Some (Ret (Ok ()), modify_entry (the cursor) (\<lambda>e. e\<lparr>next_sibling := nxt\<rparr>) t)
      else unlink_walk t index nxt (sibling_of (ct_slots t ! unat (the cursor))))"

declare unlink_walk.simps [code]

definition unlink_from_siblings ::
  "u16 \<Rightarrow> CapabilityTable \<Rightarrow> (CapError, unit) result run \<times> CapabilityTable" where
  "unlink_from_siblings index t = (case arr_get (ct_slots t) (unat index) of
     None \<Rightarrow> (Panic, t)
   | Some slot \<Rightarrow> (case cs_entry slot of
       None \<Rightarrow> (Ret (Err CapInvalidHandle), t)
     | Some entry \<Rightarrow> (case parent entry of
         None \<Rightarrow> (Ret (Ok ()), t)
       | Some parent_idx \<Rightarrow> (case arr_get (ct_slots t) (unat parent_idx) of
           None \<Rightarrow> (Panic, t)
         | Some pslot \<Rightarrow> (case cs_entry pslot of
             None \<Rightarrow> (Ret (Err CapInvalidHandle), t)
           | Some pentry \<Rightarrow>
               if first_child pentry = Some index
               then (Ret (Ok ()),
                 modify_entry parent_idx (\<lambda>e. e\<lparr>first_child := next_sibling entry\<rparr>) t)
               else (case unlink_walk t index (next_sibling entry) (first_child pentry) of
                 None \<Rightarrow> (Diverge, t)
               | Some r \<Rightarrow> r))))))"

section \<open>Operations\<close>

definition insert_root ::
  "Capability \<Rightarrow> CapabilityTable \<Rightarrow> (CapError, CapHandle) result run \<times> CapabilityTable" where
  "insert_root c t = and_then (ok_or_run CapsExhausted (pop_free t)) (\<lambda>index t.
     (Ret (Ok \<lparr>ch_index = index, ch_generation = cs_generation (ct_slots t ! unat index)\<rparr>),
      set_entry index (Some \<lparr>capability = c, parent = None, first_child = None,
        next_sibling = None, depth = 0\<rparr>) t))"

definition cap_copy ::
  "CapHandle \<Rightarrow> CapRights \<Rightarrow> CapabilityTable \<Rightarrow>
   (CapError, CapHandle) result run \<times> CapabilityTable" where
  "cap_copy src new_rights t = and_then (entry_of t src, t) (\<lambda>entry t.
     let rights = cap_rights (capability entry); obj = cap_object (capability entry);
         par = parent entry; dep = depth entry
     in if \<not> rights_contains rights DUPLICATE then (Ret (Err InsufficientRights), t)
     else if \<not> rights_contains rights new_rights then (Ret (Err WidenedRights), t)
     else and_then (ok_or_run CapsExhausted (pop_free t)) (\<lambda>new_index t.
       let handle = \<lparr>ch_index = new_index,
             ch_generation = cs_generation (ct_slots t ! unat new_index)\<rparr>;
           install = (\<lambda>former. set_entry new_index (Some \<lparr>capability = capability_new new_rights obj,
             parent = par, first_child = None, next_sibling = former, depth = dep\<rparr>) t)
       in case par of
         None \<Rightarrow> (Ret (Ok handle), install None)
       | Some parent_idx \<Rightarrow> (case arr_get (ct_slots t) (unat parent_idx) of
           None \<Rightarrow> (Panic, t)
         | Some pslot \<Rightarrow> (case cs_entry pslot of
             None \<Rightarrow> (Ret (Err CapInvalidHandle), t)
           | Some pentry \<Rightarrow> (Ret (Ok handle),
               modify_entry parent_idx (\<lambda>e. e\<lparr>first_child := Some new_index\<rparr>)
                 (install (first_child pentry)))))))"

definition cap_derive ::
  "CapHandle \<Rightarrow> CapRights \<Rightarrow> CapObject \<Rightarrow> CapabilityTable \<Rightarrow>
   (CapError, CapHandle) result run \<times> CapabilityTable" where
  "cap_derive src new_rights new_object t = and_then (entry_of t src, t) (\<lambda>entry t.
     let rights = cap_rights (capability entry); parent_index = ch_index src;
         new_depth = unat (depth entry) + 1
     in if \<not> rights_contains rights DERIVE then (Ret (Err InsufficientRights), t)
     else if \<not> rights_contains rights new_rights then (Ret (Err WidenedRights), t)
     else if new_depth > MAX_DERIVATION_DEPTH then (Ret (Err DerivationTooDeep), t)
     else and_then (ok_or_run CapsExhausted (pop_free t)) (\<lambda>new_index t.
       case arr_get (ct_slots t) (unat parent_index) of
         None \<Rightarrow> (Panic, t)
       | Some pslot \<Rightarrow> (case cs_entry pslot of
           None \<Rightarrow> (Ret (Err CapInvalidHandle), t)
         | Some pentry \<Rightarrow>
             (Ret (Ok \<lparr>ch_index = new_index,
                ch_generation = cs_generation (ct_slots t ! unat new_index)\<rparr>),
              modify_entry parent_index (\<lambda>e. e\<lparr>first_child := Some new_index\<rparr>)
                (set_entry new_index (Some \<lparr>capability = capability_new new_rights new_object,
                   parent = Some parent_index, first_child = None,
                   next_sibling = first_child pentry, depth = of_nat new_depth\<rparr>) t)))))"

text \<open>
  \<open>cap_revoke\<close> collects descendants in an array of 64 indices; the model keeps its filled
  prefix. \<open>push_siblings\<close> is the loop that appends one sibling chain (it occurs twice in the
  code, for the children of \<open>src\<close> and for those of each collected slot), \<open>expand\<close> the scan.
\<close>

function push_siblings :: "bool \<Rightarrow> CapabilityTable \<Rightarrow> u16 option \<Rightarrow> u16 list \<Rightarrow> u16 list run" where
  "push_siblings dbg t child ds = (case child of
     None \<Rightarrow> Ret ds
   | Some c \<Rightarrow>
       if length ds \<ge> CAP_TABLE_CAPACITY then (if dbg then Panic else Ret ds)
       else (case arr_get (ct_slots t) (unat c) of
         None \<Rightarrow> Panic
       | Some slot \<Rightarrow>
           push_siblings dbg t (sibling_of slot) (ds @ [c])))"
  by pat_completeness auto
termination
  by (relation "measure (\<lambda>(dbg, t, child, ds). CAP_TABLE_CAPACITY - length ds)") auto

declare push_siblings.simps [simp del]

lemma push_siblings_length:
  "push_siblings dbg t child ds = Ret ds' \<Longrightarrow> length ds' \<le> max CAP_TABLE_CAPACITY (length ds)"
proof (induction dbg t child ds rule: push_siblings.induct)
  case (1 dbg t child ds)
  then show ?case
    by (subst (asm) (2) push_siblings.simps) (fastforce split: option.splits if_splits)
qed

function expand :: "bool \<Rightarrow> CapabilityTable \<Rightarrow> nat \<Rightarrow> u16 list \<Rightarrow> u16 list run" where
  "expand dbg t scan ds =
     (if scan < length ds then
        (case arr_get (ct_slots t) (unat (ds ! scan)) of
           None \<Rightarrow> Panic
         | Some slot \<Rightarrow>
             (case push_siblings dbg t (first_child_of slot) ds of
                Ret ds' \<Rightarrow> expand dbg t (scan + 1) ds'
              | Panic \<Rightarrow> Panic
              | Diverge \<Rightarrow> Diverge))
      else Ret ds)"
  by pat_completeness auto
termination
  by (relation "measure (\<lambda>(dbg, t, scan, ds). max CAP_TABLE_CAPACITY (length ds) - scan)")
    (auto dest!: push_siblings_length)

declare expand.simps [simp del]

definition cap_revoke ::
  "bool \<Rightarrow> CapHandle \<Rightarrow> CapabilityTable \<Rightarrow> (CapError, unit) result run \<times> CapabilityTable" where
  "cap_revoke dbg src t = and_then (Ret (resolve_handle t src), t) (\<lambda>src_index t.
     case arr_get (ct_slots t) (unat src_index) of
       None \<Rightarrow> (Panic, t)
     | Some slot \<Rightarrow> (case cs_entry slot of
         None \<Rightarrow> (Ret (Err CapInvalidHandle), t)
       | Some entry \<Rightarrow>
           if \<not> rights_contains (cap_rights (capability entry)) REVOKE
           then (Ret (Err InsufficientRights), t)
           else (case push_siblings dbg t (first_child entry) [] of
               Ret children \<Rightarrow> (case expand dbg t 0 children of
                 Ret descendants \<Rightarrow> (Ret (Ok ()),
                   modify_entry src_index (\<lambda>e. e\<lparr>first_child := None\<rparr>)
                     (fold free_slot descendants t))
               | Panic \<Rightarrow> (Panic, t)
               | Diverge \<Rightarrow> (Diverge, t))
             | Panic \<Rightarrow> (Panic, t)
             | Diverge \<Rightarrow> (Diverge, t))))"

definition cap_drop :: "CapHandle \<Rightarrow> CapabilityTable \<Rightarrow> (CapError, unit) result run \<times> CapabilityTable" where
  "cap_drop h t = and_then (Ret (resolve_handle t h), t) (\<lambda>index t.
     case arr_get (ct_slots t) (unat index) of
       None \<Rightarrow> (Panic, t)
     | Some slot \<Rightarrow> (case cs_entry slot of
         None \<Rightarrow> (Ret (Err CapInvalidHandle), t)
       | Some entry \<Rightarrow>
           if first_child entry \<noteq> None then (Ret (Err HasChildren), t)
           else and_then (unlink_from_siblings index t) (\<lambda>_ t. (Ret (Ok ()), free_slot index t))))"

definition cap_take ::
  "CapHandle \<Rightarrow> CapabilityTable \<Rightarrow> (CapError, Capability) result run \<times> CapabilityTable" where
  "cap_take h t = and_then (Ret (resolve_handle t h), t) (\<lambda>index t.
     case arr_get (ct_slots t) (unat index) of
       None \<Rightarrow> (Panic, t)
     | Some slot \<Rightarrow> (case cs_entry slot of
         None \<Rightarrow> (Ret (Err CapInvalidHandle), t)
       | Some entry \<Rightarrow>
           if first_child entry \<noteq> None then (Ret (Err HasChildren), t)
           else and_then (unlink_from_siblings index t) (\<lambda>_ t.
             case cs_entry (ct_slots t ! unat index) of
               None \<Rightarrow> (Ret (Err CapInvalidHandle), set_entry index None t)
             | Some entry \<Rightarrow> (Ret (Ok (capability entry)), free_slot index (set_entry index None t)))))"

definition is_full :: "CapabilityTable \<Rightarrow> bool" where
  "is_full t \<longleftrightarrow> ct_free_head t = None"

definition lookup :: "CapabilityTable \<Rightarrow> CapHandle \<Rightarrow> (CapError, Capability) result run" where
  "lookup t h = (case entry_of t h of
     Ret (Ok e) \<Rightarrow> Ret (Ok (capability e))
   | Ret (Err e) \<Rightarrow> Ret (Err e)
   | Panic \<Rightarrow> Panic
   | Diverge \<Rightarrow> Diverge)"

definition references_object :: "CapabilityTable \<Rightarrow> CapObject \<Rightarrow> bool" where
  "references_object t target \<longleftrightarrow>
     list_ex (\<lambda>s. case cs_entry s of None \<Rightarrow> False
       | Some e \<Rightarrow> cap_object (capability e) = target) (ct_slots t)"

end
