(* ===== verification/Forest.thy ===== *)
theory Forest
  imports Cap_Table
begin

text \<open>
  The derivation forest as a mathematical object: a partial map from slot indices to entries
  whose \<open>parent\<close>, \<open>first_child\<close>, \<open>next_sibling\<close> and \<open>depth\<close> fields agree. Every live parent's
  child list is a finite chain that visits exactly the entries naming it as parent, and depth
  grows by one along each edge, so the structure has no cycle. The lemmas say what the three
  kinds of update (add a node, take out a leaf, cut a subtree) do to it.
\<close>

type_synonym emap = "u16 \<Rightarrow> SlotEntry option"

definition kids :: "emap \<Rightarrow> u16 \<Rightarrow> u16 set" where
  "kids E i = {j. \<exists>e. E j = Some e \<and> parent e = Some i}"

definition sib :: "emap \<Rightarrow> u16 \<Rightarrow> u16 option" where
  "sib E j = (case E j of None \<Rightarrow> None | Some e \<Rightarrow> next_sibling e)"

definition parent_ok :: "emap \<Rightarrow> SlotEntry \<Rightarrow> bool" where
  "parent_ok E e \<longleftrightarrow> unat (depth e) \<le> MAX_DERIVATION_DEPTH \<and>
     (case parent e of
        None \<Rightarrow> depth e = 0
      | Some p \<Rightarrow> \<exists>pe. E p = Some pe \<and> unat (depth e) = unat (depth pe) + 1)"

definition forest_node :: "emap \<Rightarrow> u16 \<Rightarrow> SlotEntry \<Rightarrow> bool" where
  "forest_node E i e \<longleftrightarrow>
     parent_ok E e \<and> (\<exists>cs. chain (sib E) (first_child e) cs \<and> set cs = kids E i)"

definition forest :: "emap \<Rightarrow> bool" where
  "forest E \<longleftrightarrow> (\<forall>i e. E i = Some e \<longrightarrow> forest_node E i e)"

lemma forest_nodeI:
  "parent_ok E e \<Longrightarrow> chain (sib E) (first_child e) cs \<Longrightarrow> set cs = kids E i \<Longrightarrow> forest_node E i e"
  by (auto simp: forest_node_def)

lemma forest_nodeD: "forest_node E i e \<Longrightarrow> parent_ok E e"
  by (simp add: forest_node_def)

lemma parent_ok_transfer:
  assumes "parent_ok E e" and "depth e' = depth e" and "parent e' = parent e"
    and "\<And>p pe. parent e = Some p \<Longrightarrow> E p = Some pe \<Longrightarrow> \<exists>pe'. E' p = Some pe' \<and> depth pe' = depth pe"
  shows "parent_ok E' e'"
proof (cases "parent e")
  case None
  with assms(1-3) show ?thesis by (simp add: parent_ok_def)
next
  case (Some p)
  with assms(1) obtain pe where pe: "E p = Some pe" "unat (depth e) = unat (depth pe) + 1"
    by (auto simp: parent_ok_def)
  from assms(4) [OF Some pe(1)] obtain pe' where "E' p = Some pe'" "depth pe' = depth pe" by blast
  with assms(1-3) Some pe show ?thesis by (simp add: parent_ok_def)
qed

lemma forestI: "(\<And>i e. E i = Some e \<Longrightarrow> forest_node E i e) \<Longrightarrow> forest E"
  by (simp add: forest_def)

lemma forestD: "forest E \<Longrightarrow> E i = Some e \<Longrightarrow> forest_node E i e"
  by (simp add: forest_def)

lemma kidsI: "E j = Some e \<Longrightarrow> parent e = Some i \<Longrightarrow> j \<in> kids E i"
  by (auto simp: kids_def)

lemma kids_disjoint: "j \<in> kids E a \<Longrightarrow> j \<in> kids E b \<Longrightarrow> a = b"
  by (auto simp: kids_def)

lemma forest_parent:
  assumes "forest E" and "E i = Some e" and "parent e = Some p"
  obtains pe where "E p = Some pe" "unat (depth e) = unat (depth pe) + 1"
  using forestD [OF assms(1,2)] assms(3) by (auto simp: forest_node_def parent_ok_def)

lemma forest_depth: "forest E \<Longrightarrow> E i = Some e \<Longrightarrow> unat (depth e) \<le> MAX_DERIVATION_DEPTH"
  using forestD by (auto simp: forest_node_def parent_ok_def)

lemma forest_children:
  assumes "forest E" and "E i = Some e"
  obtains cs where "chain (sib E) (first_child e) cs" "set cs = kids E i" "distinct cs"
  using forestD [OF assms] chain_distinct by (auto simp: forest_node_def)

lemma forest_kids_live: "forest E \<Longrightarrow> E i = None \<Longrightarrow> kids E i = {}"
  by (auto simp: kids_def elim: forest_parent)

lemma forest_leaf: "forest E \<Longrightarrow> E i = Some e \<Longrightarrow> first_child e = None \<Longrightarrow> kids E i = {}"
  by (erule (1) forest_children) auto

lemma forest_not_own_parent: "forest E \<Longrightarrow> E i = Some e \<Longrightarrow> parent e \<noteq> Some i"
  by (auto elim!: forest_parent)

text \<open>A node keeps its good standing when nothing it looks at changes: its own entry, its
  parent's depth, its children and their sibling links.\<close>

lemma forest_node_transfer:
  assumes "forest_node E i e"
    and "depth e' = depth e" and "parent e' = parent e" and "first_child e' = first_child e"
    and "\<And>p pe. parent e = Some p \<Longrightarrow> E p = Some pe \<Longrightarrow> \<exists>pe'. E' p = Some pe' \<and> depth pe' = depth pe"
    and "kids E' i = kids E i" and "\<And>j. j \<in> kids E i \<Longrightarrow> sib E' j = sib E j"
  shows "forest_node E' i e'"
proof -
  from assms(1) obtain cs where cs: "chain (sib E) (first_child e) cs" "set cs = kids E i"
    by (auto simp: forest_node_def)
  then have "chain (sib E') (first_child e') cs"
    unfolding assms(4) by (elim chain_transfer) (use assms(7) cs in simp)
  moreover have "parent_ok E' e'"
    by (rule parent_ok_transfer [OF forest_nodeD [OF assms(1)] assms(2,3)]) (rule assms(5))
  ultimately show ?thesis using cs(2) assms(6) by (auto intro: forest_nodeI)
qed

section \<open>Adding a node\<close>

lemma forest_add_root:
  assumes "forest E" and "E n = None"
    and "parent e = None" "first_child e = None" "next_sibling e = None" "depth e = 0"
  shows "forest (E(n \<mapsto> e))"
proof (rule forestI)
  let ?E = "E(n \<mapsto> e)"
  have kids: "kids ?E i = kids E i" for i
    using assms(2,3) by (auto simp: kids_def)
  fix i x assume x: "?E i = Some x"
  show "forest_node ?E i x"
  proof (cases "i = n")
    case True
    then show ?thesis using x assms kids forest_kids_live [OF assms(1,2)]
      by (auto simp: forest_node_def parent_ok_def)
  next
    case False
    with x have "E i = Some x" by simp
    then show ?thesis
      by (intro forest_node_transfer [OF forestD [OF assms(1)]])
        (use assms(2) kids in \<open>auto simp: sib_def kids_def\<close>)
  qed
qed

lemma forest_add_child:
  assumes "forest E" and "E n = None" and "E p = Some pe"
    and "parent e = Some p" "first_child e = None" "next_sibling e = first_child pe"
    and "unat (depth e) = unat (depth pe) + 1" "unat (depth e) \<le> MAX_DERIVATION_DEPTH"
  shows "forest (E(n \<mapsto> e, p \<mapsto> pe\<lparr>first_child := Some n\<rparr>))"
proof (rule forestI)
  let ?E = "E(n \<mapsto> e, p \<mapsto> pe\<lparr>first_child := Some n\<rparr>)"
  from assms(2,3) have np: "n \<noteq> p" by auto
  have kids: "kids ?E i = (if i = p then insert n (kids E i) else kids E i)" for i
    using assms(2-4) np by (auto simp: kids_def)
  have sib: "sib ?E j = sib E j" if "j \<noteq> n" for j
    using that assms(3) by (auto simp: sib_def)
  fix i x assume x: "?E i = Some x"
  consider (p) "i = p" "x = pe\<lparr>first_child := Some n\<rparr>" | (n) "i = n" "x = e"
    | (old) "i \<noteq> p" "i \<noteq> n" "E i = Some x"
    using x np by (auto split: if_splits)
  then show "forest_node ?E i x"
  proof cases
    case p
    obtain cs where cs: "chain (sib E) (first_child pe) cs" "set cs = kids E p"
      by (rule forest_children [OF assms(1,3)])
    have "n \<notin> set cs" using cs(2) assms(2) by (auto simp: kids_def)
    then have "chain (sib ?E) (first_child pe) cs"
      using cs(1) by (elim chain_transfer) (metis sib)
    then have "chain (sib ?E) (Some n) (n # cs)"
      using np assms(6) by (simp add: sib_def)
    moreover have "set (n # cs) = kids ?E p" using cs(2) kids by simp
    moreover have "first_child x = Some n" using p by simp
    moreover have "parent_ok ?E x"
      by (rule parent_ok_transfer [OF forest_nodeD [OF forestD [OF assms(1,3)]]])
        (use p assms(2,3) in auto)
    ultimately show ?thesis unfolding p(1) by (intro forest_nodeI [of _ _ "n # cs"]) (simp_all only:)
  next
    case n
    have "kids E n = {}" using forest_kids_live [OF assms(1,2)] .
    then show ?thesis using n assms(4,5,7,8) np kids by (auto simp: forest_node_def parent_ok_def)
  next
    case old
    have "j \<noteq> n" if "j \<in> kids E i" for j using that assms(2) by (auto simp: kids_def)
    then show ?thesis
      by (intro forest_node_transfer [OF forestD [OF assms(1) old(3)]])
        (use assms(2,3) kids sib old in auto)
  qed
qed

section \<open>Taking out a leaf\<close>

text \<open>The child list of the leaf's parent, cut at the leaf.\<close>

lemma forest_remove_root:
  assumes "forest E" and "E i = Some e" and "first_child e = None" and "parent e = None"
  shows "forest (E(i := None))"
proof (rule forestI)
  let ?E = "E(i := None)"
  have kids: "kids ?E k = kids E k" for k
    using assms(2,4) by (auto simp: kids_def)
  fix k x assume "?E k = Some x"
  then have k: "k \<noteq> i" "E k = Some x" by (auto split: if_splits)
  have "parent x \<noteq> Some i"
    using k forest_leaf [OF assms(1-3)] by (auto simp: kids_def)
  then show "forest_node ?E k x"
    by (intro forest_node_transfer [OF forestD [OF assms(1) k(2)]])
      (use assms(2,4) kids in \<open>auto simp: kids_def sib_def\<close>)
qed

lemma forest_remove_leaf:
  assumes "forest E" and "E i = Some e" and "first_child e = None"
    and "parent e = Some p" and "E p = Some pe" and "chain (sib E) (first_child pe) (xs @ i # ys)"
    and "set (xs @ i # ys) = kids E p"
    and E': "\<And>k. k \<noteq> i \<Longrightarrow> k \<noteq> p \<Longrightarrow> k \<notin> kids E p \<Longrightarrow> E' k = E k"
    and "E' i = None"
    and "E' p = Some pe'" "depth pe' = depth pe" "parent pe' = parent pe"
      "next_sibling pe' = next_sibling pe"
    and sibs: "\<And>k x. k \<in> kids E p \<Longrightarrow> k \<noteq> i \<Longrightarrow> E k = Some x \<Longrightarrow>
      \<exists>x'. E' k = Some x' \<and> depth x' = depth x \<and> parent x' = parent x \<and> first_child x' = first_child x"
    and "chain (sib E') (first_child pe') (xs @ ys)"
  shows "forest E'"
proof (rule forestI)
  have ip: "i \<noteq> p" and pp: "p \<notin> kids E p" and kidi: "i \<in> kids E p"
    using forest_not_own_parent [OF assms(1)] assms(2,4,5) by (auto simp: kids_def)
  have nokids: "kids E i = {}" by (rule forest_leaf [OF assms(1-3)])
  have live: "\<exists>x'. E' k = Some x' \<and> depth x' = depth x \<and> parent x' = parent x"
    if "E k = Some x" "k \<noteq> i" for k x
    using that E' sibs assms(5,10-12) by (cases "k = p"; cases "k \<in> kids E p") fastforce+
  have dead: "E k \<noteq> None \<and> k \<noteq> i" if "E' k = Some x'" for k x'
  proof -
    have "k \<noteq> i" using that assms(9) by auto
    moreover have "E k \<noteq> None"
    proof
      assume none: "E k = None"
      then have "k \<noteq> p" and "k \<notin> kids E p" using assms(5) by (auto simp: kids_def)
      with E' \<open>k \<noteq> i\<close> none that show False by simp
    qed
    ultimately show ?thesis by simp
  qed
  have kids: "kids E' k = kids E k - {i}" for k
    using live dead by (fastforce simp: kids_def)
  fix k x' assume x': "E' k = Some x'"
  then obtain x where k: "k \<noteq> i" and x: "E k = Some x" using dead by blast
  have parent_ok: "\<exists>qe'. E' q = Some qe' \<and> depth qe' = depth qe"
    if "parent x = Some q" "E q = Some qe" for q qe
    using live [of q qe] that x nokids kidsI [of E k x] by (cases "q = i") auto
  have same: "depth x' = depth x" "parent x' = parent x" using live [OF x k] x' by auto
  show "forest_node E' k x'"
  proof (cases "k = p")
    case True
    have "distinct (xs @ i # ys)" using assms(6) by (rule chain_distinct)
    then have "set (xs @ ys) = kids E' p" unfolding kids assms(7) [symmetric] by auto
    moreover have "parent_ok E' x'"
      by (rule parent_ok_transfer [OF forest_nodeD [OF forestD [OF assms(1) x]] same])
        (rule parent_ok)
    ultimately show ?thesis using True assms(15) x' assms(10) by (auto intro: forest_nodeI)
  next
    case False
    have "first_child x' = first_child x"
      using False k x x' E' [of k] sibs [of k x] by (cases "k \<in> kids E p") auto
    moreover have "kids E' k = kids E k"
      unfolding kids using False kidi kids_disjoint by blast
    moreover have "sib E' j = sib E j" if "j \<in> kids E k" for j
    proof -
      have "j \<notin> kids E p" using that False kids_disjoint by blast
      moreover have "j \<noteq> i" using kidi that False kids_disjoint by blast
      ultimately show ?thesis
        using E' [of j] assms(5,10,13) that by (cases "j = p") (auto simp: sib_def)
    qed
    ultimately show ?thesis
      by (intro forest_node_transfer [OF forestD [OF assms(1) x] same]) (use parent_ok in auto)
  qed
qed

section \<open>Descendants and cutting a subtree\<close>

inductive descends :: "emap \<Rightarrow> u16 \<Rightarrow> u16 \<Rightarrow> bool" for E i where
  child: "j \<in> kids E i \<Longrightarrow> descends E i j"
| step: "descends E i k \<Longrightarrow> j \<in> kids E k \<Longrightarrow> descends E i j"

definition descendants :: "emap \<Rightarrow> u16 \<Rightarrow> u16 set" where
  "descendants E i = {j. descends E i j}"

lemma descends_live: "descends E i j \<Longrightarrow> \<exists>e p. E j = Some e \<and> parent e = Some p"
  by (induction rule: descends.induct) (auto simp: kids_def)

lemma descends_deeper:
  assumes "descends E i j" and "forest E" and "E i = Some e" and "E j = Some x"
  shows "unat (depth e) < unat (depth x)"
  using assms
proof (induction arbitrary: x rule: descends.induct)
  case (child j)
  then have "parent x = Some i" by (auto simp: kids_def)
  with child show ?case by (auto elim: forest_parent [of E j x i])
next
  case (step k j)
  then have "parent x = Some k" by (auto simp: kids_def)
  with step.prems obtain ke where ke: "E k = Some ke" "unat (depth x) = unat (depth ke) + 1"
    by (auto elim: forest_parent [of E j x k])
  with step.IH step.prems show ?case by fastforce
qed

lemma descends_irrefl: "forest E \<Longrightarrow> E i = Some e \<Longrightarrow> \<not> descends E i i"
  using descends_deeper [of E i i e e] by auto

lemma descends_parent: "descends E i j \<Longrightarrow> E j = Some e \<Longrightarrow> parent e = Some p \<Longrightarrow> p = i \<or> descends E i p"
  by (erule descends.cases) (auto simp: kids_def)

text \<open>A set that holds the children of \<open>i\<close> and is closed under children holds all descendants.\<close>

lemma descendants_least:
  assumes "kids E i \<subseteq> D" and "\<And>k. k \<in> D \<Longrightarrow> kids E k \<subseteq> D"
  shows "descendants E i \<subseteq> D"
proof
  fix j assume "j \<in> descendants E i"
  then have "descends E i j" by (simp add: descendants_def)
  then show "j \<in> D" by induction (use assms in auto)
qed

lemma forest_cut:
  assumes "forest E" and "E i = Some e"
  shows "forest (\<lambda>j. if descends E i j then None
      else if j = i then Some (e\<lparr>first_child := None\<rparr>) else E j)" (is "forest ?E")
proof (rule forestI)
  have irr: "\<not> descends E i i" by (rule descends_irrefl [OF assms])
  have kids: "kids ?E k = (if k = i then {} else kids E k)" if "\<not> descends E i k" for k
  proof (cases "k = i")
    case True
    then show ?thesis
      using assms(2) forest_not_own_parent [OF assms] by (auto simp: kids_def intro: descends.child)
  next
    case False
    have "\<not> descends E i j" if "E j = Some x" "parent x = Some k" for j x
      using that False \<open>\<not> descends E i k\<close> descends_parent by blast
    with False show ?thesis using assms(2) by (auto simp: kids_def)
  qed
  fix k x assume x: "?E k = Some x"
  then have k: "\<not> descends E i k" by (auto split: if_splits)
  obtain x0 where x0: "E k = Some x0" "depth x = depth x0" "parent x = parent x0"
    "k \<noteq> i \<Longrightarrow> x = x0" "k = i \<Longrightarrow> first_child x = None"
    using x assms(2) by (cases "k = i") (auto split: if_splits)
  have par: "\<exists>pe'. ?E p = Some pe' \<and> depth pe' = depth pe"
    if "parent x0 = Some p" "E p = Some pe" for p pe
  proof -
    have "\<not> descends E i p"
      using k that(1) x0(1) by (auto intro: descends.step kidsI)
    with that assms(2) show ?thesis by auto
  qed
  show "forest_node ?E k x"
  proof (cases "k = i")
    case True
    have "parent_ok ?E x"
      by (rule parent_ok_transfer [OF forest_nodeD [OF forestD [OF assms(1) x0(1)]] x0(2,3)])
        (rule par)
    then show ?thesis using True x0(5) kids [OF k] by (auto intro: forest_nodeI [of _ _ "[]"])
  next
    case False
    have "sib ?E j = sib E j" if "j \<in> kids E k" for j
    proof -
      have "\<not> descends E i j" using that False k descends_parent by (fastforce simp: kids_def)
      with assms(2) show ?thesis by (auto simp: sib_def)
    qed
    with False x0 par kids [OF k] show ?thesis
      by (intro forest_node_transfer [OF forestD [OF assms(1) x0(1)]]) auto
  qed
qed

end
