(* ===== verification/Cap_Forest.thy ===== *)
theory Cap_Forest
  imports Forest
begin

text \<open>
  The capability table's invariant and its operations' effect. The abstract content of a table
  is the map \<open>view\<close> from slot index to (capability, parent, depth), together with each slot's
  generation; the list pointers are implementation. Each operation is shown to act on that
  content as its documentation says, to keep the invariant, and never to panic or loop.
\<close>

section \<open>Reading a table\<close>

definition ent :: "CapabilityTable \<Rightarrow> emap" where
  "ent t i = (if unat i < length (ct_slots t) then cs_entry (ct_slots t ! unat i) else None)"

definition gen_at :: "CapabilityTable \<Rightarrow> u16 \<Rightarrow> u32" where
  "gen_at t i = cs_generation (ct_slots t ! unat i)"

definition nfree :: "CapabilityTable \<Rightarrow> u16 \<Rightarrow> u16 option" where
  "nfree t i = cs_next_free (ct_slots t ! unat i)"

definition view :: "CapabilityTable \<Rightarrow> u16 \<Rightarrow> (Capability \<times> u16 option \<times> u8) option" where
  "view t i = map_option (\<lambda>e. (capability e, parent e, depth e)) (ent t i)"

definition live_entry :: "CapabilityTable \<Rightarrow> CapHandle \<Rightarrow> SlotEntry option" where
  "live_entry t h = (if gen_at t (ch_index h) = ch_generation h then ent t (ch_index h) else None)"

definition mk_handle :: "CapabilityTable \<Rightarrow> u16 \<Rightarrow> CapHandle" where
  "mk_handle t i = \<lparr>ch_index = i, ch_generation = gen_at t i\<rparr>"

definition cap_wf :: "CapabilityTable \<Rightarrow> bool" where
  "cap_wf t \<longleftrightarrow> length (ct_slots t) = CAP_TABLE_CAPACITY \<and>
     free_list CAP_TABLE_CAPACITY (\<lambda>i. ent t i \<noteq> None) (nfree t) (ct_free_head t) \<and>
     forest (ent t)"

lemma cap_wf_length: "cap_wf t \<Longrightarrow> length (ct_slots t) = CAP_TABLE_CAPACITY"
  and cap_wf_forest: "cap_wf t \<Longrightarrow> forest (ent t)"
  by (simp_all add: cap_wf_def)

lemma ent_Some_range: "ent t i = Some e \<Longrightarrow> unat i < length (ct_slots t)"
  by (simp add: ent_def split: if_splits)

lemma ent_Some_slot: "ent t i = Some e \<Longrightarrow> cs_entry (ct_slots t ! unat i) = Some e"
  by (simp add: ent_def split: if_splits)

lemma sibling_of_slot: "unat i < length (ct_slots t) \<Longrightarrow> sibling_of (ct_slots t ! unat i) = sib (ent t) i"
  by (simp add: sibling_of_def sib_def ent_def)

lemma resolve_handle_eq:
  "resolve_handle t h = (if live_entry t h = None then Err CapInvalidHandle else Ok (ch_index h))"
  by (auto simp: resolve_handle_def live_entry_def gen_at_def ent_def arr_get_def)

lemma entry_of_eq: "entry_of t h = Ret (ok_or (live_entry t h) CapInvalidHandle)"
  by (cases "live_entry t h")
    (auto simp: entry_of_def resolve_handle_eq live_entry_def ent_def arr_get_def split: if_splits)

lemma lookup_eq: "lookup t h = Ret (ok_or (map_option capability (live_entry t h)) CapInvalidHandle)"
  by (cases "live_entry t h") (simp_all add: lookup_def entry_of_eq)

lemma live_entry_ent: "live_entry t h = Some e \<Longrightarrow> ent t (ch_index h) = Some e"
  by (simp add: live_entry_def split: if_splits)

section \<open>Writing a table\<close>

lemma table_writes [simp]:
  "length (ct_slots (set_entry i e t)) = length (ct_slots t)"
  "ct_free_head (set_entry i e t) = ct_free_head t"
  "length (ct_slots (modify_entry i f t)) = length (ct_slots t)"
  "ct_free_head (modify_entry i f t) = ct_free_head t"
  "length (ct_slots (free_slot i t)) = length (ct_slots t)"
  "ct_free_head (free_slot i t) = Some i"
  by (simp_all add: set_entry_def modify_entry_def free_slot_def split: option.splits)

lemma gen_at_set_entry [simp]: "gen_at (set_entry i e t) = gen_at t"
  by (auto simp: gen_at_def set_entry_def fun_eq_iff nth_upd)

lemma nfree_set_entry [simp]: "nfree (set_entry i e t) = nfree t"
  by (auto simp: nfree_def set_entry_def fun_eq_iff nth_upd)

lemma gen_at_modify_entry [simp]: "gen_at (modify_entry i f t) = gen_at t"
  and nfree_modify_entry [simp]: "nfree (modify_entry i f t) = nfree t"
  by (simp_all add: modify_entry_def)

lemma ent_set_entry:
  "unat i < length (ct_slots t) \<Longrightarrow> ent (set_entry i e t) = (ent t)(i := e)"
  by (auto simp: ent_def set_entry_def fun_eq_iff nth_list_update)

lemma ent_modify_entry:
  "ent t i = Some e \<Longrightarrow> ent (modify_entry i f t) = (ent t)(i \<mapsto> f e)"
  using ent_set_entry [OF ent_Some_range] by (simp add: modify_entry_def ent_Some_slot)

lemma ent_free_slot:
  "unat i < length (ct_slots t) \<Longrightarrow> ent (free_slot i t) = (ent t)(i := None)"
  by (auto simp: ent_def free_slot_def fun_eq_iff nth_list_update)

lemma gen_at_free_slot:
  "unat i < length (ct_slots t) \<Longrightarrow> gen_at (free_slot i t) = (gen_at t)(i := gen_at t i + 1)"
  by (auto simp: gen_at_def free_slot_def fun_eq_iff nth_upd)

lemma nfree_free_slot:
  "unat i < length (ct_slots t) \<Longrightarrow> nfree (free_slot i t) = (nfree t)(i := ct_free_head t)"
  by (auto simp: nfree_def free_slot_def fun_eq_iff nth_upd)

text \<open>Freeing an occupied slot keeps the free list right.\<close>

definition free_ok :: "CapabilityTable \<Rightarrow> bool" where
  "free_ok t \<longleftrightarrow> length (ct_slots t) = CAP_TABLE_CAPACITY \<and>
     free_list CAP_TABLE_CAPACITY (\<lambda>i. ent t i \<noteq> None) (nfree t) (ct_free_head t)"

lemma cap_wf_iff: "cap_wf t \<longleftrightarrow> free_ok t \<and> forest (ent t)"
  by (auto simp: cap_wf_def free_ok_def)

lemma free_ok_same_dom:
  assumes "free_ok t" and "length (ct_slots t') = length (ct_slots t)"
    and "nfree t' = nfree t" and "ct_free_head t' = ct_free_head t" and "dom (ent t') = dom (ent t)"
  shows "free_ok t'"
proof -
  have "(\<lambda>i. ent t' i \<noteq> None) = (\<lambda>i. ent t i \<noteq> None)" using assms(5) by (auto simp: dom_def set_eq_iff fun_eq_iff)
  with assms show ?thesis by (simp add: free_ok_def)
qed

lemma free_ok_free_slot:
  assumes "free_ok t" and "ent t i = Some e"
  shows "free_ok (free_slot i t)"
proof -
  have i: "unat i < CAP_TABLE_CAPACITY" using assms(1) ent_Some_range [OF assms(2)] by (simp add: free_ok_def)
  have "free_list CAP_TABLE_CAPACITY (\<lambda>j. ent (free_slot i t) j \<noteq> None)
      (nfree (free_slot i t)) (Some i)"
    by (rule free_list_push [of _ "\<lambda>j. ent t j \<noteq> None" "nfree t" "ct_free_head t"])
      (use assms i in \<open>auto simp: free_ok_def ent_free_slot nfree_free_slot\<close>)
  with assms show ?thesis by (simp add: free_ok_def)
qed

section \<open>Allocation\<close>

lemma pop_free_cases:
  assumes "cap_wf t"
  obtains (full) "ct_free_head t = None" "pop_free t = (Ret None, t)"
  | (ok) n t1 where "ct_free_head t = Some n" "pop_free t = (Ret (Some n), t1)"
      "unat n < length (ct_slots t)" "length (ct_slots t1) = length (ct_slots t)" "ent t n = None"
      "ent t1 = ent t" "gen_at t1 = gen_at t"
      "free_list CAP_TABLE_CAPACITY (\<lambda>i. ent t i \<noteq> None \<or> i = n) (nfree t1) (ct_free_head t1)"
proof (cases "ct_free_head t")
  case None
  then show ?thesis by (intro full) (simp_all add: pop_free_def)
next
  case (Some n)
  from assms Some have fl: "free_list CAP_TABLE_CAPACITY (\<lambda>i. ent t i \<noteq> None) (nfree t) (Some n)"
    by (simp add: cap_wf_def)
  then have n: "unat n < length (ct_slots t)" "ent t n = None"
    using free_list_head [OF fl] assms by (auto simp: cap_wf_def)
  define t1 where "t1 = \<lparr>ct_slots = (ct_slots t)[unat n := (ct_slots t ! unat n)\<lparr>cs_next_free := None\<rparr>],
      ct_free_head = cs_next_free (ct_slots t ! unat n)\<rparr>"
  have "free_list CAP_TABLE_CAPACITY (\<lambda>i. ent t i \<noteq> None \<or> i = n) (nfree t1) (nfree t n)"
    by (rule free_list_pop [OF fl]) (auto simp: t1_def nfree_def nth_upd)
  with Some n show ?thesis
    by (intro ok [of n t1])
      (auto simp: pop_free_def t1_def ent_def gen_at_def nfree_def fun_eq_iff nth_upd)
qed

text \<open>Installing an entry in the popped slot, and linking its parent, completes the insertion.\<close>

lemma cap_wf_install:
  assumes "free_list CAP_TABLE_CAPACITY (\<lambda>i. E i \<noteq> None \<or> i = n) (nfree t1) (ct_free_head t1)"
    and "length (ct_slots t2) = CAP_TABLE_CAPACITY" and "nfree t2 = nfree t1"
    and "ct_free_head t2 = ct_free_head t1" and "dom (ent t2) = insert n (dom E)" and "forest (ent t2)"
  shows "cap_wf t2"
proof -
  have "(\<lambda>i. ent t2 i \<noteq> None) = (\<lambda>i. E i \<noteq> None \<or> i = n)"
    using assms(5) by (auto simp: dom_def set_eq_iff fun_eq_iff)
  with assms show ?thesis by (simp add: cap_wf_def)
qed

definition root_entry :: "Capability \<Rightarrow> SlotEntry" where
  "root_entry c = \<lparr>capability = c, parent = None, first_child = None, next_sibling = None, depth = 0\<rparr>"

lemma insert_root_cases:
  assumes "cap_wf t"
  obtains (full) "ct_free_head t = None" "insert_root c t = (Ret (Err CapsExhausted), t)"
  | (ok) n t' where "insert_root c t = (Ret (Ok (mk_handle t n)), t')" "cap_wf t'"
      "unat n < CAP_TABLE_CAPACITY" "ent t n = None"
      "ent t' = (ent t)(n \<mapsto> root_entry c)" "gen_at t' = gen_at t"
  using assms
proof (cases rule: pop_free_cases)
  case full
  then show ?thesis using that(1) by (simp add: insert_root_def)
next
  case (ok n t1)
  let ?t' = "set_entry n (Some (root_entry c)) t1"
  have ent: "ent ?t' = (ent t)(n \<mapsto> root_entry c)"
    using ok by (simp add: ent_set_entry)
  have "cap_wf ?t'"
    by (rule cap_wf_install [OF ok(8)])
      (use ok ent assms in \<open>auto simp: cap_wf_def root_entry_def intro!: forest_add_root\<close>)
  moreover have "insert_root c t = (Ret (Ok (mk_handle t n)), ?t')"
    using ok by (simp add: insert_root_def mk_handle_def root_entry_def gen_at_def [symmetric])
  ultimately show ?thesis
    using that(2) ok ent assms by (simp add: cap_wf_def)
qed


text \<open>The checks of \<open>cap_derive\<close> and \<open>cap_copy\<close>, in the order the code makes them.\<close>

definition derive_check :: "CapabilityTable \<Rightarrow> CapHandle \<Rightarrow> CapRights \<Rightarrow> CapError option" where
  "derive_check t src r = (case live_entry t src of
     None \<Rightarrow> Some CapInvalidHandle
   | Some e \<Rightarrow>
       if \<not> rights_contains (cap_rights (capability e)) DERIVE then Some InsufficientRights
       else if \<not> rights_contains (cap_rights (capability e)) r then Some WidenedRights
       else if unat (depth e) \<ge> MAX_DERIVATION_DEPTH then Some DerivationTooDeep
       else if is_full t then Some CapsExhausted else None)"

definition copy_check :: "CapabilityTable \<Rightarrow> CapHandle \<Rightarrow> CapRights \<Rightarrow> CapError option" where
  "copy_check t src r = (case live_entry t src of
     None \<Rightarrow> Some CapInvalidHandle
   | Some e \<Rightarrow>
       if \<not> rights_contains (cap_rights (capability e)) DUPLICATE then Some InsufficientRights
       else if \<not> rights_contains (cap_rights (capability e)) r then Some WidenedRights
       else if is_full t then Some CapsExhausted else None)"

lemma pop_free_full: "is_full t \<Longrightarrow> pop_free t = (Ret None, t)"
  by (simp add: is_full_def pop_free_def)

lemma cap_derive_err:
  "derive_check t src r = Some err \<Longrightarrow> cap_derive src r obj t = (Ret (Err err), t)"
  by (auto simp: derive_check_def cap_derive_def entry_of_eq Let_def pop_free_full
      split: option.splits if_splits)

lemma cap_copy_err:
  "copy_check t src r = Some err \<Longrightarrow> cap_copy src r t = (Ret (Err err), t)"
  by (auto simp: copy_check_def cap_copy_def entry_of_eq Let_def pop_free_full
      split: option.splits if_splits)

text \<open>A new child in slot \<open>n\<close>, at the head of its parent's child list.\<close>

definition child_entry :: "Capability \<Rightarrow> u16 \<Rightarrow> SlotEntry \<Rightarrow> u8 \<Rightarrow> SlotEntry" where
  "child_entry c p pe d =
     \<lparr>capability = c, parent = Some p, first_child = None, next_sibling = first_child pe, depth = d\<rparr>"

lemma install_child:
  assumes "cap_wf t" and "ent t n = None" and "unat n < length (ct_slots t)"
    and "ent t1 = ent t" and "gen_at t1 = gen_at t" and "length (ct_slots t1) = length (ct_slots t)"
    and fl: "free_list CAP_TABLE_CAPACITY (\<lambda>i. ent t i \<noteq> None \<or> i = n) (nfree t1) (ct_free_head t1)"
    and pe: "ent t p = Some pe" and d: "unat d = unat (depth pe) + 1" "unat d \<le> MAX_DERIVATION_DEPTH"
    and t': "t' = modify_entry p (\<lambda>e. e\<lparr>first_child := Some n\<rparr>)
      (set_entry n (Some (child_entry c p pe d)) t1)"
  shows "cap_wf t' \<and> view t' = (view t)(n \<mapsto> (c, Some p, d)) \<and> gen_at t' = gen_at t"
proof -
  have np: "n \<noteq> p" using assms(2) pe by auto
  have "ent (set_entry n (Some (child_entry c p pe d)) t1) = (ent t)(n \<mapsto> child_entry c p pe d)"
    using assms by (simp add: ent_set_entry)
  then have ent: "ent t' = (ent t)(n \<mapsto> child_entry c p pe d, p \<mapsto> pe\<lparr>first_child := Some n\<rparr>)"
    unfolding t' using pe np by (subst ent_modify_entry [where e = pe]) auto
  have "forest (ent t')" unfolding ent
    by (rule forest_add_child [OF cap_wf_forest [OF assms(1)] assms(2) pe])
      (use d in \<open>simp_all add: child_entry_def\<close>)
  then have "cap_wf t'"
    by (rule cap_wf_install [OF fl, rotated -1])
      (use assms pe ent in \<open>auto simp: t' cap_wf_length\<close>)
  moreover have "view t' = (view t)(n \<mapsto> (c, Some p, d))"
    using np pe by (auto simp: view_def ent child_entry_def fun_eq_iff)
  ultimately show ?thesis using assms(5) by (simp add: t')
qed

lemma cap_derive_ok:
  assumes wf: "cap_wf t" and chk: "derive_check t src r = None"
  obtains n e t' where "live_entry t src = Some e"
    "cap_derive src r obj t = (Ret (Ok (mk_handle t n)), t')" "cap_wf t'"
    "unat n < CAP_TABLE_CAPACITY" "ent t n = None"
    "view t' = (view t)(n \<mapsto> (capability_new r obj, Some (ch_index src), depth e + 1))"
    "gen_at t' = gen_at t" "unat (depth e + 1) = unat (depth e) + 1"
    "rights_contains (cap_rights (capability e)) DERIVE" "rights_contains (cap_rights (capability e)) r"
  using wf
proof (cases rule: pop_free_cases)
  case full
  then show ?thesis using chk
    by (auto simp: derive_check_def is_full_def split: option.splits if_splits)
next
  case (ok n t1)
  from chk obtain e where e: "live_entry t src = Some e" "unat (depth e) < MAX_DERIVATION_DEPTH"
    "rights_contains (cap_rights (capability e)) DERIVE" "rights_contains (cap_rights (capability e)) r"
    by (auto simp: derive_check_def split: option.splits if_splits)
  let ?p = "ch_index src"
  have pe: "ent t ?p = Some e" by (rule live_entry_ent [OF e(1)])
  have d: "unat (depth e + 1) = unat (depth e) + 1"
    using e(2) by (simp add: MAX_DERIVATION_DEPTH_def unat_word_ariths)
  define t' where "t' = modify_entry ?p (\<lambda>e. e\<lparr>first_child := Some n\<rparr>)
    (set_entry n (Some (child_entry (capability_new r obj) ?p e (depth e + 1))) t1)"
  have slot: "unat ?p < length (ct_slots t1)" "cs_entry (ct_slots t1 ! unat ?p) = Some e"
    using pe ok ent_Some_range [of t1] ent_Some_slot [of t1] by auto
  have "cap_derive src r obj t = (Ret (Ok (mk_handle t n)), t')"
    using e ok slot by (simp add: cap_derive_def entry_of_eq Let_def t'_def child_entry_def
        mk_handle_def gen_at_def [symmetric] add.commute)
  moreover have "cap_wf t' \<and> view t' = (view t)(n \<mapsto> (capability_new r obj, Some ?p, depth e + 1))
      \<and> gen_at t' = gen_at t"
    by (rule install_child [OF wf _ _ _ _ _ ok(8) pe d _ t'_def]) (use ok d e(2) in auto)
  ultimately show ?thesis using that e ok d wf by (auto simp: cap_wf_length)
qed


lemma cap_copy_ok:
  assumes wf: "cap_wf t" and chk: "copy_check t src r = None"
  obtains n e t' where "live_entry t src = Some e"
    "cap_copy src r t = (Ret (Ok (mk_handle t n)), t')" "cap_wf t'"
    "unat n < CAP_TABLE_CAPACITY" "ent t n = None"
    "view t' = (view t)(n \<mapsto> (capability_new r (cap_object (capability e)), parent e, depth e))"
    "gen_at t' = gen_at t"
    "rights_contains (cap_rights (capability e)) DUPLICATE" "rights_contains (cap_rights (capability e)) r"
  using wf
proof (cases rule: pop_free_cases)
  case full
  then show ?thesis using chk
    by (auto simp: copy_check_def is_full_def split: option.splits if_splits)
next
  case (ok n t1)
  from chk obtain e where e: "live_entry t src = Some e"
    "rights_contains (cap_rights (capability e)) DUPLICATE" "rights_contains (cap_rights (capability e)) r"
    by (auto simp: copy_check_def split: option.splits if_splits)
  have se: "ent t (ch_index src) = Some e" by (rule live_entry_ent [OF e(1)])
  let ?c = "capability_new r (cap_object (capability e))"
  have node: "parent_ok (ent t) e"
    by (rule forest_nodeD [OF forestD [OF cap_wf_forest [OF wf] se]])
  show ?thesis
  proof (cases "parent e")
    case None
    then have d: "depth e = 0" using node by (simp add: parent_ok_def)
    let ?t' = "set_entry n (Some (root_entry ?c)) t1"
    have ent: "ent ?t' = (ent t)(n \<mapsto> root_entry ?c)" using ok by (simp add: ent_set_entry)
    have "cap_wf ?t'"
      by (rule cap_wf_install [OF ok(8)])
        (use ok ent wf in \<open>auto simp: cap_wf_def root_entry_def intro!: forest_add_root\<close>)
    moreover have "cap_copy src r t = (Ret (Ok (mk_handle t n)), ?t')"
      using e ok None d by (simp add: cap_copy_def entry_of_eq Let_def root_entry_def mk_handle_def
          gen_at_def [symmetric])
    moreover have "view ?t' = (view t)(n \<mapsto> (?c, parent e, depth e))"
      unfolding view_def ent using None d by (auto simp: root_entry_def fun_eq_iff)
    ultimately show ?thesis using that e ok wf by (simp add: cap_wf_length)
  next
    case (Some p)
    then obtain pe where pe: "ent t p = Some pe" "unat (depth e) = unat (depth pe) + 1"
      and d: "unat (depth e) \<le> MAX_DERIVATION_DEPTH"
      using node by (auto simp: parent_ok_def)
    define t' where "t' = modify_entry p (\<lambda>e. e\<lparr>first_child := Some n\<rparr>)
      (set_entry n (Some (child_entry ?c p pe (depth e))) t1)"
    have slot: "unat p < length (ct_slots t1)" "cs_entry (ct_slots t1 ! unat p) = Some pe"
      using pe ok ent_Some_range [of t1] ent_Some_slot [of t1] by auto
    have "cap_copy src r t = (Ret (Ok (mk_handle t n)), t')"
      using e ok slot Some by (simp add: cap_copy_def entry_of_eq Let_def t'_def child_entry_def
          mk_handle_def gen_at_def [symmetric])
    moreover have "cap_wf t' \<and> view t' = (view t)(n \<mapsto> (?c, Some p, depth e)) \<and> gen_at t' = gen_at t"
      by (rule install_child [OF wf _ _ _ _ _ ok(8) pe d t'_def]) (use ok in auto)
    ultimately show ?thesis using that e ok wf Some by (auto simp: cap_wf_length)
  qed
qed


section \<open>Removal of a leaf\<close>

lemma dom_view: "dom (view t) = dom (ent t)"
  by (auto simp: view_def dom_def)

lemma view_modify_entry:
  assumes "ent t k = Some x" and "capability (f x) = capability x" "parent (f x) = parent x"
    "depth (f x) = depth x"
  shows "view (modify_entry k f t) = view t"
  using assms by (auto simp: view_def ent_modify_entry [OF assms(1)] fun_eq_iff)

lemma free_ok_modify_entry:
  assumes "free_ok t" and "ent t k = Some x"
  shows "free_ok (modify_entry k f t)"
  by (rule free_ok_same_dom [OF assms(1)]) (use assms in \<open>auto simp: ent_modify_entry\<close>)

text \<open>The sibling walk ends, at the predecessor of the slot it looks for.\<close>

lemma unlink_walk_found:
  assumes "chain (sib (ent t)) h (xs @ q # i # ys)" and "\<forall>k \<in> set (xs @ [q]). ent t k \<noteq> None"
  shows "unlink_walk t i nxt h = Some (Ret (Ok ()), modify_entry q (\<lambda>e. e\<lparr>next_sibling := nxt\<rparr>) t)"
  using assms
proof (induction xs arbitrary: h)
  case Nil
  then have "sib (ent t) q = Some i" "h = Some q" "unat q < length (ct_slots t)"
    by (auto dest: ent_Some_range)
  then show ?case
    by (subst unlink_walk.simps) (simp add: sibling_of_slot)
next
  case (Cons x xs)
  have h: "h = Some x" and x: "unat x < length (ct_slots t)"
    using Cons.prems by (auto dest: ent_Some_range)
  have "sib (ent t) x \<noteq> Some i"
    using Cons.prems(1) chain_distinct [OF Cons.prems(1)] by (cases xs) auto
  moreover have "unlink_walk t i nxt (sib (ent t) x) =
      Some (Ret (Ok ()), modify_entry q (\<lambda>e. e\<lparr>next_sibling := nxt\<rparr>) t)"
    using Cons by simp
  ultimately show ?case using h x
    by (subst unlink_walk.simps) (simp add: sibling_of_slot)
qed

lemma sib_upd: "sib (E(k \<mapsto> x)) = (sib E)(k := next_sibling x)"
  by (auto simp: sib_def fun_eq_iff)

lemma sib_remove_chain:
  "i \<notin> set xs \<Longrightarrow> chain (sib (E(i := None))) h xs = chain (sib E) h xs"
  by (rule chain_cong) (auto simp: sib_def)

text \<open>Unlinking a child: either its parent's head pointer or its left sibling is redirected.\<close>

lemma unlink_child:
  assumes wf: "cap_wf t" and e: "ent t i = Some e" "first_child e = None" and p: "parent e = Some p"
  shows "\<exists>k x f. unlink_from_siblings i t = (Ret (Ok ()), modify_entry k f t) \<and>
    ent t k = Some x \<and> k \<noteq> i \<and> capability (f x) = capability x \<and> parent (f x) = parent x \<and>
    depth (f x) = depth x \<and> forest ((ent t)(k \<mapsto> f x, i := None))"
proof -
  let ?E = "ent t"
  note F = cap_wf_forest [OF wf]
  obtain pe where pe: "?E p = Some pe" by (rule forest_parent [OF F e(1) p])
  obtain cs where cs: "chain (sib ?E) (first_child pe) cs" "set cs = kids ?E p" "distinct cs"
    by (rule forest_children [OF F pe])
  have ip: "i \<noteq> p" and pp: "p \<notin> kids ?E p"
    using forest_not_own_parent [OF F e(1)] forest_not_own_parent [OF F pe] p pe
    by (auto simp: kids_def)
  have "i \<in> set cs" using cs(2) e(1) p by (simp add: kids_def)
  then obtain pre post where csi: "cs = pre @ i # post" by (auto dest: split_list)
  note ch = cs(1) [unfolded csi] and st = cs(2) [unfolded csi] and di = cs(3) [unfolded csi]
  have slots: "unat i < length (ct_slots t)" "unat p < length (ct_slots t)"
    "cs_entry (ct_slots t ! unat i) = Some e" "cs_entry (ct_slots t ! unat p) = Some pe"
    using e(1) pe by (auto dest: ent_Some_range ent_Some_slot)
  have sibi: "sib ?E i = next_sibling e" using e(1) by (simp add: sib_def)
  show ?thesis
  proof (cases pre rule: rev_cases)
    case Nil
    let ?f = "\<lambda>x. x\<lparr>first_child := next_sibling e\<rparr>"
    have run: "unlink_from_siblings i t = (Ret (Ok ()), modify_entry p ?f t)"
      using slots p ch Nil by (simp add: unlink_from_siblings_def)
    have post: "chain (sib ?E) (next_sibling e) post" using ch Nil sibi by simp
    have "forest (?E(p \<mapsto> ?f pe, i := None))"
    proof (rule forest_remove_leaf [OF F e(1,2) p pe ch st, where pe' = "?f pe"])
      have "p \<notin> set post" using pp st by auto
      with post di show "chain (sib (?E(p \<mapsto> ?f pe, i := None))) (first_child (?f pe)) (pre @ post)"
        by (subst sib_remove_chain) (auto simp: Nil sib_upd elim!: chain_transfer)
    qed (use ip pp in auto)
    with run pe ip show ?thesis by (intro exI [of _ p] exI [of _ pe] exI [of _ ?f]) simp
  next
    case (snoc xs q)
    let ?f = "\<lambda>x. x\<lparr>next_sibling := next_sibling e\<rparr>"
    have qk: "q \<in> kids ?E p" using st snoc by auto
    then obtain qe where qe: "?E q = Some qe" by (auto simp: kids_def)
    have qi: "q \<noteq> i" and qp: "q \<noteq> p" using di snoc qk pp by auto
    have live: "\<forall>k \<in> set (xs @ [q]). ?E k \<noteq> None" using st snoc by (auto simp: kids_def)
    have nothead: "first_child pe \<noteq> Some i" using ch di snoc by (cases xs) auto
    have run: "unlink_from_siblings i t = (Ret (Ok ()), modify_entry q ?f t)"
      using slots p nothead unlink_walk_found [of t "first_child pe" xs q i post] ch snoc live
      by (simp add: unlink_from_siblings_def)
    have "forest (?E(q \<mapsto> ?f qe, i := None))"
    proof (rule forest_remove_leaf [OF F e(1,2) p pe ch st, where pe' = pe])
      have "chain ((sib ?E)(q := next_sibling e)) (first_child pe) (xs @ q # post)"
        using chain_unlink [of "sib ?E" "first_child pe" xs q i post] ch snoc sibi by simp
      then show "chain (sib (?E(q \<mapsto> ?f qe, i := None))) (first_child pe) (pre @ post)"
        using di by (subst sib_remove_chain) (auto simp: snoc sib_upd)
    qed (use ip pe qp qk qe in auto)
    with run qe qi show ?thesis by (intro exI [of _ q] exI [of _ qe] exI [of _ ?f]) simp
  qed
qed


lemma remove_leaf:
  assumes wf: "cap_wf t" and e: "ent t i = Some e" "first_child e = None"
  obtains t1 where "unlink_from_siblings i t = (Ret (Ok ()), t1)" "ent t1 i = Some e"
    "cap_wf (free_slot i t1)" "view (free_slot i t1) = (view t)(i := None)"
    "gen_at (free_slot i t1) = (gen_at t)(i := gen_at t i + 1)"
    "length (ct_slots t1) = length (ct_slots t)"
proof -
  note goal = that
  have main: thesis
    if t1: "unlink_from_siblings i t = (Ret (Ok ()), t1)" "ent t1 i = Some e" "free_ok t1"
      "view t1 = view t" "gen_at t1 = gen_at t" "forest ((ent t1)(i := None))"
      "length (ct_slots t1) = length (ct_slots t)" for t1
  proof (rule goal [of t1])
    have i: "unat i < length (ct_slots t1)" by (rule ent_Some_range [OF t1(2)])
    have "view (free_slot i t1) = (view t1)(i := None)"
      by (auto simp: view_def ent_free_slot [OF i] fun_eq_iff)
    then show "view (free_slot i t1) = (view t)(i := None)" using t1(4) by simp
    show "cap_wf (free_slot i t1)"
      using free_ok_free_slot [OF t1(3,2)] t1(6) by (simp add: cap_wf_iff ent_free_slot [OF i])
    show "gen_at (free_slot i t1) = (gen_at t)(i := gen_at t i + 1)"
      using gen_at_free_slot [OF i] t1(5) by simp
  qed (use t1 in simp_all)
  from wf have fo: "free_ok t" and F: "forest (ent t)" by (auto simp: cap_wf_iff)
  have i: "unat i < length (ct_slots t)" by (rule ent_Some_range [OF e(1)])
  show thesis
  proof (cases "parent e")
    case None
    then show thesis
      using e fo forest_remove_root [OF F e None] i
      by (intro main [of t]) (simp_all add: unlink_from_siblings_def ent_Some_slot)
  next
    case (Some p)
    from unlink_child [OF wf e Some] obtain k x f where k:
      "unlink_from_siblings i t = (Ret (Ok ()), modify_entry k f t)" "ent t k = Some x" "k \<noteq> i"
      "capability (f x) = capability x" "parent (f x) = parent x" "depth (f x) = depth x"
      "forest ((ent t)(k \<mapsto> f x, i := None))" by blast
    then show thesis
      using e fo by (intro main [of "modify_entry k f t"])
        (simp_all add: ent_modify_entry free_ok_modify_entry view_modify_entry)
  qed
qed

definition take_check :: "CapabilityTable \<Rightarrow> CapHandle \<Rightarrow> CapError option" where
  "take_check t h = (case live_entry t h of
     None \<Rightarrow> Some CapInvalidHandle
   | Some e \<Rightarrow> if first_child e \<noteq> None then Some HasChildren else None)"

lemma resolve_live:
  assumes "live_entry t h = Some e"
  shows "resolve_handle t h = Ok (ch_index h)" "unat (ch_index h) < length (ct_slots t)"
    "cs_entry (ct_slots t ! unat (ch_index h)) = Some e" "gen_at t (ch_index h) = ch_generation h"
  using assms live_entry_ent [OF assms] ent_Some_range ent_Some_slot
  by (auto simp: resolve_handle_eq live_entry_def split: if_splits)

lemma resolve_dead: "live_entry t h = None \<Longrightarrow> resolve_handle t h = Err CapInvalidHandle"
  by (simp add: resolve_handle_eq)

lemma cap_take_err: "take_check t h = Some err \<Longrightarrow> cap_take h t = (Ret (Err err), t)"
  and cap_drop_err: "take_check t h = Some err \<Longrightarrow> cap_drop h t = (Ret (Err err), t)"
  by (auto simp: take_check_def cap_take_def cap_drop_def resolve_live resolve_dead
      split: option.splits if_splits)

lemma free_slot_set_entry [simp]: "free_slot i (set_entry i None t) = free_slot i t"
  by (cases "unat i < length (ct_slots t)") (simp_all add: free_slot_def set_entry_def list_update_beyond)

lemma cap_take_ok:
  assumes wf: "cap_wf t" and chk: "take_check t h = None"
  obtains e t' where "live_entry t h = Some e" "first_child e = None"
    "cap_take h t = (Ret (Ok (capability e)), t')" "cap_drop h t = (Ret (Ok ()), t')" "cap_wf t'"
    "view t' = (view t)(ch_index h := None)"
    "gen_at t' = (gen_at t)(ch_index h := ch_generation h + 1)"
proof -
  from chk obtain e where e: "live_entry t h = Some e" "first_child e = None"
    by (auto simp: take_check_def split: option.splits if_splits)
  obtain t1 where t1: "unlink_from_siblings (ch_index h) t = (Ret (Ok ()), t1)"
    "ent t1 (ch_index h) = Some e" "cap_wf (free_slot (ch_index h) t1)"
    "view (free_slot (ch_index h) t1) = (view t)(ch_index h := None)"
    "gen_at (free_slot (ch_index h) t1) = (gen_at t)(ch_index h := gen_at t (ch_index h) + 1)"
    by (rule remove_leaf [OF wf live_entry_ent [OF e(1)] e(2)])
  have slot: "cs_entry (ct_slots t1 ! unat (ch_index h)) = Some e" by (rule ent_Some_slot [OF t1(2)])
  show thesis
    by (rule that [OF e, of "free_slot (ch_index h) t1"])
      (use e t1 slot in \<open>simp_all add: cap_take_def cap_drop_def resolve_live [OF e(1)]\<close>)
qed


section \<open>Revocation\<close>

lemma push_siblings_chain:
  assumes "chain (sib (ent t)) h cs" and "\<forall>c \<in> set cs. ent t c \<noteq> None"
    and "length (ds @ cs) \<le> CAP_TABLE_CAPACITY"
  shows "push_siblings dbg t h ds = Ret (ds @ cs)"
  using assms
proof (induction cs arbitrary: h ds)
  case Nil
  then show ?case by (simp add: push_siblings.simps)
next
  case (Cons c cs)
  have c: "h = Some c" "unat c < length (ct_slots t)"
    using Cons.prems by (auto dest: ent_Some_range)
  have "push_siblings dbg t (sib (ent t) c) (ds @ [c]) = Ret ((ds @ [c]) @ cs)"
    by (rule Cons.IH) (use Cons.prems in auto)
  with c Cons.prems(3) show ?case by (subst push_siblings.simps) (simp add: sibling_of_slot)
qed

text \<open>The breadth-first scan: everything collected descends from \<open>i\<close>, nothing twice; the
  children of \<open>i\<close> and of every scanned slot are in, and only those.\<close>

definition bfs_inv :: "emap \<Rightarrow> u16 \<Rightarrow> nat \<Rightarrow> u16 list \<Rightarrow> bool" where
  "bfs_inv E i scan ds \<longleftrightarrow> distinct ds \<and> set ds \<subseteq> descendants E i \<and>
     kids E i \<subseteq> set ds \<and> (\<forall>k \<in> set (take scan ds). kids E k \<subseteq> set ds) \<and>
     (\<forall>j \<in> set ds. \<exists>p \<in> insert i (set (take scan ds)). j \<in> kids E p)"

lemma bfs_inv_done:
  assumes "bfs_inv E i scan ds" and "length ds \<le> scan"
  shows "set ds = descendants E i"
  using assms descendants_least [of E i "set ds"] by (auto simp: bfs_inv_def)

lemma bfs_inv_step:
  assumes F: "forest E" "E i = Some e" and inv: "bfs_inv E i scan ds" and scan: "scan < length ds"
    and cs: "set cs = kids E (ds ! scan)" "distinct cs"
  shows "bfs_inv E i (Suc scan) (ds @ cs)"
proof -
  let ?x = "ds ! scan"
  have x: "descends E i ?x" using inv nth_mem [OF scan] by (auto simp: bfs_inv_def descendants_def)
  have new: "?x \<notin> insert i (set (take scan ds))"
  proof -
    have "?x \<noteq> i" using x descends_irrefl [OF F] by auto
    moreover have "?x \<notin> set (take scan ds)"
      using inv scan by (auto simp: bfs_inv_def in_set_conv_nth nth_eq_iff_index_eq)
    ultimately show ?thesis by simp
  qed
  have tk: "take (Suc scan) (ds @ cs) = take scan ds @ [?x]"
    using scan by (simp add: take_Suc_conv_app_nth)
  have "set ds \<inter> set cs = {}"
  proof (rule Int_emptyI)
    fix j assume j: "j \<in> set ds" "j \<in> set cs"
    then obtain p where "p \<in> insert i (set (take scan ds))" "j \<in> kids E p"
      using inv unfolding bfs_inv_def by blast
    with j(2) cs(1) new show False using kids_disjoint [of j E p ?x] by auto
  qed
  moreover have "set cs \<subseteq> descendants E i"
    using cs(1) x by (auto simp: descendants_def intro: descends.step)
  ultimately show ?thesis
    using inv cs unfolding bfs_inv_def tk by auto
qed

lemma descendants_range: "j \<in> descendants (ent t) i \<Longrightarrow> \<exists>e. ent t j = Some e \<and> unat j < length (ct_slots t)"
  using descends_live [of "ent t" i j] by (auto simp: descendants_def dest: ent_Some_range)

lemma bfs_inv_length:
  assumes "cap_wf t" and "bfs_inv (ent t) i scan ds"
  shows "length ds \<le> CAP_TABLE_CAPACITY"
  by (rule distinct_idx_length [of ds])
    (use assms descendants_range [of _ t i] in
      \<open>auto simp: bfs_inv_def cap_wf_length CAP_TABLE_CAPACITY_def subset_iff\<close>)

lemma expand_ok:
  assumes wf: "cap_wf t" and e: "ent t i = Some e" and inv: "bfs_inv (ent t) i scan ds"
  shows "\<exists>ds'. expand dbg t scan ds = Ret ds' \<and> distinct ds' \<and> set ds' = descendants (ent t) i"
  using inv
proof (induction "CAP_TABLE_CAPACITY - scan" arbitrary: scan ds)
  case 0
  then have "length ds \<le> scan" using bfs_inv_length [OF wf] by force
  then show ?case
    using bfs_inv_done [OF 0(2)] 0 by (subst expand.simps) (auto simp: bfs_inv_def)
next
  case (Suc n)
  show ?case
  proof (cases "scan < length ds")
    case False
    then show ?thesis
      using bfs_inv_done [OF Suc(3)] Suc.prems by (subst expand.simps) (auto simp: bfs_inv_def)
  next
    case True
    let ?x = "ds ! scan"
    from True Suc.prems have "?x \<in> descendants (ent t) i" by (auto simp: bfs_inv_def)
    then obtain xe where x: "ent t ?x = Some xe" "unat ?x < length (ct_slots t)"
      using descendants_range by blast
    obtain cs where cs: "chain (sib (ent t)) (first_child xe) cs" "set cs = kids (ent t) ?x" "distinct cs"
      by (rule forest_children [OF cap_wf_forest [OF wf] x(1)])
    have inv': "bfs_inv (ent t) i (Suc scan) (ds @ cs)"
      by (rule bfs_inv_step [OF cap_wf_forest [OF wf] e Suc.prems True cs(2,3)])
    have "push_siblings dbg t (first_child xe) ds = Ret (ds @ cs)"
      by (rule push_siblings_chain [OF cs(1) _ bfs_inv_length [OF wf inv']])
        (auto simp: cs(2) kids_def)
    moreover have "\<exists>ds'. expand dbg t (Suc scan) (ds @ cs) = Ret ds' \<and> distinct ds' \<and>
        set ds' = descendants (ent t) i"
      by (rule Suc.hyps(1) [OF _ inv']) (use Suc.hyps(2) in simp)
    ultimately show ?thesis
      using True x by (subst expand.simps) (simp add: first_child_of_def ent_Some_slot)
  qed
qed

text \<open>Freeing a duplicate-free list of live slots.\<close>

lemma free_slots:
  assumes "free_ok t" and "distinct ds" and "\<forall>d \<in> set ds. ent t d \<noteq> None"
  shows "free_ok (fold free_slot ds t) \<and>
    ent (fold free_slot ds t) = (\<lambda>j. if j \<in> set ds then None else ent t j) \<and>
    gen_at (fold free_slot ds t) = (\<lambda>j. if j \<in> set ds then gen_at t j + 1 else gen_at t j)"
  using assms
proof (induction ds arbitrary: t)
  case Nil
  then show ?case by simp
next
  case (Cons d ds)
  obtain e where e: "ent t d = Some e" using Cons.prems(3) by auto
  note d = ent_Some_range [OF e]
  have "free_ok (free_slot d t)" by (rule free_ok_free_slot [OF Cons.prems(1) e])
  moreover have "\<forall>k \<in> set ds. ent (free_slot d t) k \<noteq> None"
    using Cons.prems(2,3) by (auto simp: ent_free_slot [OF d])
  ultimately have IH: "free_ok (fold free_slot ds (free_slot d t)) \<and>
    ent (fold free_slot ds (free_slot d t)) = (\<lambda>j. if j \<in> set ds then None else ent (free_slot d t) j) \<and>
    gen_at (fold free_slot ds (free_slot d t)) =
      (\<lambda>j. if j \<in> set ds then gen_at (free_slot d t) j + 1 else gen_at (free_slot d t) j)"
    by (intro Cons.IH) (use Cons.prems(2) in simp_all)
  then show ?case
    using Cons.prems(2) by (auto simp: ent_free_slot [OF d] gen_at_free_slot [OF d] fun_eq_iff)
qed


definition revoke_check :: "CapabilityTable \<Rightarrow> CapHandle \<Rightarrow> CapError option" where
  "revoke_check t src = (case live_entry t src of
     None \<Rightarrow> Some CapInvalidHandle
   | Some e \<Rightarrow>
       if \<not> rights_contains (cap_rights (capability e)) REVOKE then Some InsufficientRights else None)"

lemma cap_revoke_err: "revoke_check t src = Some err \<Longrightarrow> cap_revoke dbg src t = (Ret (Err err), t)"
  by (auto simp: revoke_check_def cap_revoke_def resolve_live resolve_dead
      split: option.splits if_splits)

lemma cap_revoke_ok:
  assumes wf: "cap_wf t" and chk: "revoke_check t src = None"
  obtains t' where "cap_revoke dbg src t = (Ret (Ok ()), t')" "cap_wf t'"
    "view t' = (\<lambda>j. if j \<in> descendants (ent t) (ch_index src) then None else view t j)"
    "gen_at t' = (\<lambda>j. if j \<in> descendants (ent t) (ch_index src) then gen_at t j + 1 else gen_at t j)"
proof -
  let ?i = "ch_index src" and ?E = "ent t"
  from chk obtain e where le: "live_entry t src = Some e"
    and rv: "rights_contains (cap_rights (capability e)) REVOKE"
    by (auto simp: revoke_check_def split: option.splits if_splits)
  note F = cap_wf_forest [OF wf] and e = live_entry_ent [OF le]
  obtain cs where cs: "chain (sib ?E) (first_child e) cs" "set cs = kids ?E ?i" "distinct cs"
    by (rule forest_children [OF F e])
  have inv: "bfs_inv ?E ?i 0 cs"
    using cs by (auto simp: bfs_inv_def descendants_def intro: descends.child)
  have push: "push_siblings dbg t (first_child e) [] = Ret cs"
    using push_siblings_chain [OF cs(1), of "[]" dbg] bfs_inv_length [OF wf inv] cs(2)
    by (auto simp: kids_def)
  obtain ds where ds: "expand dbg t 0 cs = Ret ds" "distinct ds" "set ds = descendants ?E ?i"
    using expand_ok [OF wf e inv] by blast
  define u where "u = fold free_slot ds t"
  define t' where "t' = modify_entry ?i (\<lambda>e. e\<lparr>first_child := None\<rparr>) u"
  have live: "\<forall>d \<in> set ds. ?E d \<noteq> None" using ds(3) descendants_range [of _ t ?i] by auto
  have fo: "free_ok t" using wf by (simp add: cap_wf_iff)
  have uf: "free_ok u" and ue: "ent u = (\<lambda>j. if j \<in> set ds then None else ?E j)"
    and ug: "gen_at u = (\<lambda>j. if j \<in> set ds then gen_at t j + 1 else gen_at t j)"
    unfolding u_def using free_slots [OF fo ds(2) live] by blast+
  have "?i \<notin> set ds" using ds(3) descends_irrefl [OF F e] by (simp add: descendants_def)
  then have ui: "ent u ?i = Some e" using e by (simp add: ue)
  have "ent t' = (\<lambda>j. if descends ?E ?i j then None
      else if j = ?i then Some (e\<lparr>first_child := None\<rparr>) else ?E j)"
    unfolding t'_def ent_modify_entry [OF ui] using \<open>?i \<notin> set ds\<close> ds(3)
    by (auto simp: ue descendants_def fun_eq_iff)
  then have "cap_wf t'"
    using forest_cut [OF F e] free_ok_modify_entry [OF uf ui] by (simp add: cap_wf_iff t'_def)
  moreover have "view t' = (\<lambda>j. if j \<in> descendants ?E ?i then None else view t j)"
    unfolding t'_def using view_modify_entry [OF ui] ds(3) by (auto simp: view_def ue fun_eq_iff)
  moreover have "cap_revoke dbg src t = (Ret (Ok ()), t')"
    using rv push ds by (simp add: cap_revoke_def resolve_live [OF le] t'_def u_def)
  ultimately show thesis using that ug ds(3) by (simp add: t'_def)
qed

section \<open>The table as a handle store\<close>

text \<open>A handle names a capability while its slot is occupied and the generations agree.\<close>

definition table_peek :: "CapabilityTable \<Rightarrow> CapHandle \<Rightarrow> Capability option" where
  "table_peek t h = map_option capability (live_entry t h)"

lemma table_peek_view:
  "table_peek t h = (if gen_at t (ch_index h) = ch_generation h
     then map_option fst (view t (ch_index h)) else None)"
  by (auto simp: table_peek_def live_entry_def view_def option.map_comp comp_def)

lemma lookup_peek: "lookup t h = Ret (ok_or (table_peek t h) CapInvalidHandle)"
  by (simp add: lookup_eq table_peek_def)

lemma mk_handle_eq: "mk_handle t n = h \<longleftrightarrow> ch_index h = n \<and> ch_generation h = gen_at t n"
  by (auto simp: mk_handle_def)

lemma table_peek_add:
  assumes "view t' = (view t)(n \<mapsto> (c, p, d))" and "gen_at t' = gen_at t"
  shows "table_peek t' = (table_peek t)(mk_handle t n \<mapsto> c)"
  using assms by (auto simp: fun_eq_iff table_peek_view mk_handle_def)

lemma table_peek_del:
  assumes "view t' = (view t)(ch_index h := None)"
    and "gen_at t' = (gen_at t)(ch_index h := gen_at t (ch_index h) + 1)"
    and "gen_at t (ch_index h) = ch_generation h"
  shows "table_peek t' = (table_peek t)(h := None)"
  using assms by (auto simp: fun_eq_iff table_peek_view)

definition table_put :: "Capability \<Rightarrow> CapabilityTable \<Rightarrow> (CapHandle \<times> CapabilityTable) option" where
  "table_put c t = (case insert_root c t of (Ret (Ok h), t') \<Rightarrow> Some (h, t') | _ \<Rightarrow> None)"

definition table_rem :: "CapHandle \<Rightarrow> CapabilityTable \<Rightarrow> (Capability \<times> CapabilityTable) option" where
  "table_rem h t = (case cap_take h t of (Ret (Ok c), t') \<Rightarrow> Some (c, t') | _ \<Rightarrow> None)"

lemma table_put_Some:
  assumes "cap_wf t" and "table_put c t = Some (h, t')"
  shows "insert_root c t = (Ret (Ok h), t') \<and> cap_wf t' \<and> table_peek t h = None \<and>
    table_peek t' = (table_peek t)(h \<mapsto> c)"
  using assms(1)
proof (cases rule: insert_root_cases [of t c])
  case full
  with assms(2) show ?thesis by (simp add: table_put_def)
next
  case (ok n t'')
  have "view t'' = (view t)(n \<mapsto> (c, None, 0))"
    using ok(5) by (auto simp: view_def root_entry_def fun_eq_iff)
  from table_peek_add [OF this ok(6)] show ?thesis
    using ok assms(2) by (auto simp: table_put_def table_peek_def live_entry_def mk_handle_def)
qed

lemma table_rem_Some:
  assumes "cap_wf t" and "table_rem h t = Some (c, t')"
  shows "cap_take h t = (Ret (Ok c), t') \<and> cap_wf t' \<and> table_peek t h = Some c \<and>
    table_peek t' = (table_peek t)(h := None)"
proof (cases "take_check t h")
  case None
  from assms(1) None obtain e t'' where ok: "live_entry t h = Some e"
    "cap_take h t = (Ret (Ok (capability e)), t'')" "cap_wf t''"
    "view t'' = (view t)(ch_index h := None)"
    "gen_at t'' = (gen_at t)(ch_index h := ch_generation h + 1)"
    by (rule cap_take_ok)
  then have "table_peek t'' = (table_peek t)(h := None)"
    by (intro table_peek_del) (simp_all add: resolve_live)
  then show ?thesis using ok assms(2) by (auto simp: table_rem_def table_peek_def)
next
  case (Some err)
  with assms(2) show ?thesis by (simp add: table_rem_def cap_take_err)
qed

lemma finite_CapHandle: "finite (A :: CapHandle set)"
proof (rule finite_subset)
  show "A \<subseteq> range (\<lambda>(i, g). \<lparr>ch_index = i, ch_generation = g\<rparr>)"
    by (auto simp: image_iff) (metis CapHandle.surjective old.unit.exhaust)
qed simp

interpretation cap_store: handle_store cap_wf table_peek table_put table_rem
  by unfold_locales (use table_put_Some table_rem_Some finite_CapHandle in blast)+

end
