(* ===== verification/Cap_Properties.thy ===== *)
theory Cap_Properties
  imports Cap_Forest
begin

text \<open>
  What the capability table guarantees to the rest of the kernel: it never panics or loops, each
  operation does what its documentation says on every branch, rights only shrink along the
  derivation tree, and revocation removes exactly the tree below a capability.
\<close>

section \<open>Sequences of operations\<close>

lemma table_new_wf: "cap_wf table_new"
proof -
  have none: "ent table_new i = None" for i
    by (auto simp: ent_def table_new_def Let_def)
  have nf: "nfree table_new i = (if unat i + 1 < CAP_TABLE_CAPACITY then Some (of_nat (unat i + 1)) else None)"
    if "unat i < CAP_TABLE_CAPACITY" for i
    using that by (simp add: nfree_def table_new_def Let_def CAP_TABLE_CAPACITY_def)
  have "free_list CAP_TABLE_CAPACITY (\<lambda>i. ent table_new i \<noteq> None) (nfree table_new) (ct_free_head table_new)"
    by (rule free_list_init)
      (simp_all add: none nf, simp_all add: CAP_TABLE_CAPACITY_def table_new_def)
  then show ?thesis
    by (auto simp: cap_wf_def none forest_def) (simp add: table_new_def)
qed

datatype cap_op =
    InsertRoot Capability
  | Copy CapHandle CapRights
  | Derive CapHandle CapRights CapObject
  | Revoke CapHandle
  | Drop CapHandle
  | Take CapHandle

definition ok_unit :: "('e, 'a) result run \<times> 's \<Rightarrow> ('e, unit) result run \<times> 's" where
  "ok_unit p = and_then p (\<lambda>_ s. (Ret (Ok ()), s))"

lemma ok_unit_simps [simp]:
  "ok_unit (Ret (Ok x), s) = (Ret (Ok ()), s)" "ok_unit (Ret (Err e), s) = (Ret (Err e), s)"
  by (simp_all add: ok_unit_def)

fun table_step :: "bool \<Rightarrow> cap_op \<Rightarrow> CapabilityTable \<Rightarrow> (CapError, unit) result run \<times> CapabilityTable" where
  "table_step dbg (InsertRoot c) t = ok_unit (insert_root c t)"
| "table_step dbg (Copy h r) t = ok_unit (cap_copy h r t)"
| "table_step dbg (Derive h r ob) t = ok_unit (cap_derive h r ob t)"
| "table_step dbg (Revoke h) t = cap_revoke dbg h t"
| "table_step dbg (Drop h) t = cap_drop h t"
| "table_step dbg (Take h) t = ok_unit (cap_take h t)"

definition table_run :: "bool \<Rightarrow> cap_op list \<Rightarrow> CapabilityTable \<Rightarrow> CapabilityTable" where
  "table_run dbg ops t = fold (\<lambda>op t. snd (table_step dbg op t)) ops t"

lemma table_run_simps [simp]:
  "table_run dbg [] t = t"
  "table_run dbg (op # ops) t = table_run dbg ops (snd (table_step dbg op t))"
  "table_run dbg (xs @ ys) t = table_run dbg ys (table_run dbg xs t)"
  by (simp_all add: table_run_def)

text \<open>Each operation either fails and leaves the table as it was, or adds one slot, or removes
  one leaf, or cuts a subtree. One case rule serves every invariant below.\<close>

lemma table_step_cases:
  assumes wf: "cap_wf t"
  obtains (err) e where "table_step dbg op t = (Ret (Err e), t)"
  | (root) c n t' where "op = InsertRoot c" "table_step dbg op t = (Ret (Ok ()), t')" "cap_wf t'"
      "ent t n = None" "view t' = (view t)(n \<mapsto> (c, None, 0))" "gen_at t' = gen_at t"
  | (copy) h r e n t' where "op = Copy h r" "table_step dbg op t = (Ret (Ok ()), t')" "cap_wf t'"
      "live_entry t h = Some e" "ent t n = None" "gen_at t' = gen_at t"
      "view t' = (view t)(n \<mapsto> (capability_new r (cap_object (capability e)), parent e, depth e))"
      "rights_contains (cap_rights (capability e)) DUPLICATE" "rights_contains (cap_rights (capability e)) r"
  | (derive) h r ob e n t' where "op = Derive h r ob" "table_step dbg op t = (Ret (Ok ()), t')" "cap_wf t'"
      "live_entry t h = Some e" "ent t n = None" "gen_at t' = gen_at t"
      "view t' = (view t)(n \<mapsto> (capability_new r ob, Some (ch_index h), depth e + 1))"
      "rights_contains (cap_rights (capability e)) DERIVE" "rights_contains (cap_rights (capability e)) r"
  | (remove) h e t' where "op = Drop h \<or> op = Take h" "table_step dbg op t = (Ret (Ok ()), t')" "cap_wf t'"
      "live_entry t h = Some e" "first_child e = None" "view t' = (view t)(ch_index h := None)"
      "gen_at t' = (gen_at t)(ch_index h := gen_at t (ch_index h) + 1)"
  | (revoke) h t' where "op = Revoke h" "table_step dbg op t = (Ret (Ok ()), t')" "cap_wf t'"
      "view t' = (\<lambda>j. if j \<in> descendants (ent t) (ch_index h) then None else view t j)"
      "gen_at t' = (\<lambda>j. if j \<in> descendants (ent t) (ch_index h) then gen_at t j + 1 else gen_at t j)"
proof (cases op)
  case (InsertRoot c)
  show thesis
    using wf
  proof (cases rule: insert_root_cases [of t c])
    case full
    with InsertRoot show thesis by (intro err) simp
  next
    case (ok n t')
    then have "view t' = (view t)(n \<mapsto> (c, None, 0))"
      by (auto simp: view_def root_entry_def fun_eq_iff)
    with ok InsertRoot show thesis by (intro root [of c t' n]) simp_all
  qed
next
  case (Copy h r)
  show thesis
  proof (cases "copy_check t h r")
    case None
    from wf None show thesis
      by (rule cap_copy_ok) (rule copy [OF Copy], simp_all add: Copy)
  next
    case (Some e)
    with Copy show thesis by (intro err) (simp add: cap_copy_err)
  qed
next
  case (Derive h r ob)
  show thesis
  proof (cases "derive_check t h r")
    case None
    from wf None show thesis
      by (rule cap_derive_ok [of t h r ob]) (rule derive [OF Derive], simp_all add: Derive)
  next
    case (Some e)
    with Derive show thesis by (intro err) (simp add: cap_derive_err)
  qed
next
  case (Revoke h)
  show thesis
  proof (cases "revoke_check t h")
    case None
    from wf None show thesis
      by (rule cap_revoke_ok [of t h dbg]) (rule revoke [OF Revoke], simp_all add: Revoke)
  next
    case (Some e)
    with Revoke show thesis by (intro err) (simp add: cap_revoke_err)
  qed
next
  case (Drop h)
  show thesis
  proof (cases "take_check t h")
    case None
    from wf None show thesis
      by (rule cap_take_ok) (rule remove [of h], simp_all add: Drop resolve_live)
  next
    case (Some e)
    with Drop show thesis by (intro err) (simp add: cap_drop_err)
  qed
next
  case (Take h)
  show thesis
  proof (cases "take_check t h")
    case None
    from wf None show thesis
      by (rule cap_take_ok) (rule remove [of h], simp_all add: Take resolve_live)
  next
    case (Some e)
    with Take show thesis by (intro err) (simp add: cap_take_err)
  qed
qed

lemma table_step_wf: "cap_wf t \<Longrightarrow> cap_wf (snd (table_step dbg op t))"
  by (rule table_step_cases [where t = t and dbg = dbg and op = op]) simp_all

lemma table_step_returns: "cap_wf t \<Longrightarrow> \<exists>r. fst (table_step dbg op t) = Ret r"
  by (erule table_step_cases [where dbg = dbg and op = op]) simp_all

lemma table_run_wf: "cap_wf t \<Longrightarrow> cap_wf (table_run dbg ops t)"
  by (induction ops arbitrary: t) (simp_all add: table_step_wf)


section \<open>Safety\<close>

text \<open>C1. No sequence of capability operations, with whatever handles, rights and objects, makes
  the table panic or loop, in a debug or a release build: after any sequence from the empty table
  every further operation returns a value, and the table is well formed (the free list links
  exactly the empty slots, and the child lists and depths form a forest).\<close>

theorem table_never_panics:
  "cap_wf (table_run dbg ops table_new) \<and>
   (\<exists>r. fst (table_step dbg op (table_run dbg ops table_new)) = Ret r)"
  using table_run_wf [OF table_new_wf] table_step_returns by blast

section \<open>Attenuation\<close>

text \<open>Along every edge of the derivation tree rights only shrink, and whoever has children held
  the right to derive.\<close>

definition attenuated :: "(u16 \<Rightarrow> (Capability \<times> u16 option \<times> u8) option) \<Rightarrow> bool" where
  "attenuated V \<longleftrightarrow> (\<forall>j c p d. V j = Some (c, Some p, d) \<longrightarrow>
     (\<exists>pc q pd. V p = Some (pc, q, pd) \<and> rights_contains (cap_rights pc) (cap_rights c) \<and>
       rights_contains (cap_rights pc) DERIVE))"

lemma attenuatedD:
  assumes "attenuated V" and "V j = Some (c, Some p, d)"
  obtains pc q pd where "V p = Some (pc, q, pd)" "rights_contains (cap_rights pc) (cap_rights c)"
    "rights_contains (cap_rights pc) DERIVE"
  using assms unfolding attenuated_def by blast

lemma attenuated_add:
  assumes "attenuated V" and "V n = None"
    and "\<And>q. p = Some q \<Longrightarrow> \<exists>pc r pd. V q = Some (pc, r, pd) \<and>
      rights_contains (cap_rights pc) (cap_rights c) \<and> rights_contains (cap_rights pc) DERIVE"
  shows "attenuated (V(n \<mapsto> (c, p, d)))"
  unfolding attenuated_def
proof (intro allI impI)
  fix j c' q d' assume j: "(V(n \<mapsto> (c, p, d))) j = Some (c', Some q, d')"
  have "\<exists>pc r pd. V q = Some (pc, r, pd) \<and> rights_contains (cap_rights pc) (cap_rights c') \<and>
      rights_contains (cap_rights pc) DERIVE"
  proof (cases "j = n")
    case True
    with j assms(3) show ?thesis by simp
  next
    case False
    with j have "V j = Some (c', Some q, d')" by simp
    with assms(1) show ?thesis by (auto elim: attenuatedD)
  qed
  moreover have "q \<noteq> n" using calculation assms(2) by auto
  ultimately show "\<exists>pc r pd. (V(n \<mapsto> (c, p, d))) q = Some (pc, r, pd) \<and>
      rights_contains (cap_rights pc) (cap_rights c') \<and> rights_contains (cap_rights pc) DERIVE" by auto
qed

lemma attenuated_del:
  assumes "attenuated V" and "\<And>j c p d. V j = Some (c, Some p, d) \<Longrightarrow> p \<in> D \<Longrightarrow> j \<in> D"
  shows "attenuated (\<lambda>j. if j \<in> D then None else V j)"
  unfolding attenuated_def
proof (intro allI impI)
  fix j c p d assume "(if j \<in> D then None else V j) = Some (c, Some p, d)"
  then have j: "j \<notin> D" "V j = Some (c, Some p, d)" by (auto split: if_splits)
  from assms(1) j(2) obtain pc q pd where "V p = Some (pc, q, pd)"
    "rights_contains (cap_rights pc) (cap_rights c)" "rights_contains (cap_rights pc) DERIVE"
    by (elim attenuatedD)
  moreover have "p \<notin> D" using assms(2) j by blast
  ultimately show "\<exists>pc q pd. (if p \<in> D then None else V p) = Some (pc, q, pd) \<and>
      rights_contains (cap_rights pc) (cap_rights c) \<and> rights_contains (cap_rights pc) DERIVE" by simp
qed

lemma view_entry: "ent t i = Some e \<Longrightarrow> view t i = Some (capability e, parent e, depth e)"
  by (simp add: view_def)

lemma view_kids: "view t j = Some (c, Some p, d) \<Longrightarrow> j \<in> kids (ent t) p"
  by (auto simp: view_def kids_def)

lemma capability_new_rights [simp]: "cap_rights (capability_new r ob) = r"
  by (simp add: capability_new_def)

lemma table_step_attenuated:
  assumes wf: "cap_wf t" and att: "attenuated (view t)"
  shows "attenuated (view (snd (table_step dbg op t)))"
  using wf
proof (cases rule: table_step_cases [where dbg = dbg and op = op])
  case (err e)
  with att show ?thesis by simp
next
  case (root c n t')
  then have "attenuated (view t')" using att by (auto simp: view_def intro!: attenuated_add)
  with root show ?thesis by simp
next
  case (copy h r e n t')
  have "view t (ch_index h) = Some (capability e, parent e, depth e)"
    by (rule view_entry [OF live_entry_ent [OF copy(4)]])
  then have "attenuated (view t')" unfolding copy(7)
    using copy(5,9) att
    by (intro attenuated_add) (auto simp: view_def rights_contains_iff elim!: attenuatedD)
  with copy show ?thesis by simp
next
  case (derive h r ob e n t')
  have "view t (ch_index h) = Some (capability e, parent e, depth e)"
    by (rule view_entry [OF live_entry_ent [OF derive(4)]])
  then have "attenuated (view t')" unfolding derive(7)
    using derive att by (intro attenuated_add) (auto simp: view_def)
  with derive show ?thesis by simp
next
  case (remove h e t')
  have "kids (ent t) (ch_index h) = {}"
    by (rule forest_leaf [OF cap_wf_forest [OF wf] live_entry_ent [OF remove(4)] remove(5)])
  then have "attenuated (\<lambda>j. if j \<in> {ch_index h} then None else view t j)"
    by (intro attenuated_del [OF att]) (auto dest: view_kids)
  moreover have "view t' = (\<lambda>j. if j \<in> {ch_index h} then None else view t j)"
    using remove by auto
  ultimately show ?thesis using remove by simp
next
  case (revoke h t')
  have "attenuated (view t')" unfolding revoke(4)
    by (rule attenuated_del [OF att])
      (auto simp: descendants_def dest: view_kids intro: descends.step)
  with revoke show ?thesis by simp
qed

lemma attenuated_empty: "attenuated (view table_new)"
  by (auto simp: attenuated_def view_def ent_def table_new_def Let_def)

lemma table_run_attenuated:
  "cap_wf t \<Longrightarrow> attenuated (view t) \<Longrightarrow> attenuated (view (table_run dbg ops t))"
  by (induction ops arbitrary: t) (simp_all add: table_step_wf table_step_attenuated)

lemma descends_attenuated:
  assumes "descends (ent t) i j" and "attenuated (view t)" and "ent t i = Some a" and "ent t j = Some b"
  shows "rights_contains (cap_rights (capability a)) (cap_rights (capability b))"
  using assms
proof (induction arbitrary: b rule: descends.induct)
  case (child j)
  then have "view t j = Some (capability b, Some i, depth b)" by (auto simp: kids_def view_def)
  with child.prems show ?case by (auto simp: view_def elim: attenuatedD)
next
  case (step k j)
  then have "view t j = Some (capability b, Some k, depth b)" by (auto simp: kids_def view_def)
  with step.prems obtain pe where "ent t k = Some pe"
    "rights_contains (cap_rights (capability pe)) (cap_rights (capability b))"
    by (auto simp: view_def elim: attenuatedD)
  with step show ?case by (blast intro: rights_contains_trans)
qed

text \<open>C2. Rights only shrink: after any sequence of operations from the empty table, a capability
  that descends from another (through any chain of derivations and copies) has no right that the
  ancestor lacks, at most 16 steps below it.\<close>

theorem rights_never_widen:
  assumes "t = table_run dbg ops table_new"
    and "descends (ent t) i j" and "ent t i = Some a" and "ent t j = Some b"
  shows "rights_set (cap_rights (capability b)) \<subseteq> rights_set (cap_rights (capability a)) \<and>
    unat (depth a) < unat (depth b) \<and> unat (depth b) \<le> MAX_DERIVATION_DEPTH"
proof -
  have wf: "cap_wf t" and att: "attenuated (view t)"
    unfolding assms(1) using table_run_wf table_run_attenuated table_new_wf attenuated_empty by blast+
  show ?thesis
    using descends_attenuated [OF assms(2) att assms(3,4)]
      descends_deeper [OF assms(2) cap_wf_forest [OF wf] assms(3,4)]
      forest_depth [OF cap_wf_forest [OF wf] assms(4)]
    by (simp add: rights_contains_iff)
qed


text \<open>A small concrete table, for the instances of the theorems: a root capability with every
  right in slot 0 and a derived one with \<open>SEND\<close> in slot 1.\<close>

lemmas table_eval = insert_root_def cap_derive_def cap_copy_def entry_of_def resolve_handle_def
  pop_free_def set_entry_def modify_entry_def table_new_def Let_def arr_get_def
  CAP_TABLE_CAPACITY_def MAX_DERIVATION_DEPTH_def ent_def gen_at_def usize_wrapping_add_def
  capability_new_def rights_contains_def KNOWN_BITS_def DUPLICATE_def DERIVE_def REVOKE_def
  TRANSFER_def SEND_def RECV_def NOTIFY_def

definition sample_cap :: Capability where
  "sample_cap = capability_new KNOWN_BITS
     (ObjNotification (NotificationHandle \<lparr>sid_index = 0, sid_generation = 0\<rparr>))"

definition sample_root :: CapHandle where
  "sample_root = \<lparr>ch_index = 0, ch_generation = 0\<rparr>"

definition sample_child :: CapHandle where
  "sample_child = \<lparr>ch_index = 1, ch_generation = 0\<rparr>"

definition sample_ops :: "cap_op list" where
  "sample_ops = [InsertRoot sample_cap, Derive sample_root SEND (cap_object sample_cap)]"

definition sample_table :: CapabilityTable where
  "sample_table = table_run True sample_ops table_new"

lemma sample_wf: "cap_wf sample_table"
  by (simp only: sample_table_def table_run_wf table_new_wf)

lemma sample_ent:
  "ent sample_table 0 = Some \<lparr>capability = sample_cap, parent = None, first_child = Some 1,
     next_sibling = None, depth = 0\<rparr>"
  "ent sample_table 1 = Some \<lparr>capability = capability_new SEND (cap_object sample_cap),
     parent = Some 0, first_child = None, next_sibling = None, depth = 1\<rparr>"
  by (simp_all add: table_eval sample_table_def sample_ops_def sample_root_def sample_cap_def)

lemma sample_gen: "gen_at sample_table 0 = 0" "gen_at sample_table 1 = 0"
  by (simp_all add: table_eval sample_table_def sample_ops_def sample_root_def sample_cap_def)

lemma sample_live:
  "live_entry sample_table sample_root = ent sample_table 0"
  "live_entry sample_table sample_child = ent sample_table 1"
  by (simp_all add: live_entry_def sample_root_def sample_child_def sample_gen)

lemma sample_descends: "descends (ent sample_table) 0 1"
  by (rule descends.child) (simp add: kids_def sample_ent)

theorem rights_never_widen_witness:
  "rights_set SEND \<subseteq> rights_set (cap_rights sample_cap)"
  using rights_never_widen [OF sample_table_def sample_descends sample_ent]
  by simp

section \<open>The operations, branch by branch\<close>

lemma lookup_Ok: "lookup t h = Ret (Ok c) \<longleftrightarrow> table_peek t h = Some c"
  by (cases "table_peek t h") (simp_all add: lookup_peek)

lemma lookup_fun_upd:
  assumes "table_peek t' = (table_peek t)(h \<mapsto> c)"
  shows "lookup t' = (lookup t)(h := Ret (Ok c))"
  by (auto simp: fun_eq_iff lookup_peek assms)

text \<open>C23. \<open>cap_derive\<close> attenuates: when it succeeds the source handle was live and held \<open>DERIVE\<close>
  and every requested right, the returned handle named nothing before and now names exactly the
  requested capability, every other handle resolves as before, and the new slot is a child of
  the source.\<close>

theorem derive_attenuates:
  assumes "cap_wf t" and "cap_derive src r ob t = (Ret (Ok h), t')"
  shows "cap_wf t' \<and> lookup t h = Ret (Err CapInvalidHandle) \<and>
    lookup t' = (lookup t)(h := Ret (Ok (capability_new r ob))) \<and>
    descends (ent t') (ch_index src) (ch_index h) \<and>
    (\<exists>c. lookup t src = Ret (Ok c) \<and> rights_set DERIVE \<union> rights_set r \<subseteq> rights_set (cap_rights c))"
proof -
  have none: "derive_check t src r = None"
    using assms(2) cap_derive_err [of t src r _ ob] by (cases "derive_check t src r") auto
  from assms(1) none obtain n e t'' where ok: "live_entry t src = Some e"
    "cap_derive src r ob t = (Ret (Ok (mk_handle t n)), t'')" "cap_wf t''" "ent t n = None"
    "view t'' = (view t)(n \<mapsto> (capability_new r ob, Some (ch_index src), depth e + 1))"
    "gen_at t'' = gen_at t"
    "rights_contains (cap_rights (capability e)) DERIVE" "rights_contains (cap_rights (capability e)) r"
    by (rule cap_derive_ok [of t src r ob])
  then have eq: "t'' = t'" "h = mk_handle t n" using assms(2) by auto
  have "descends (ent t') (ch_index src) n"
    using view_kids [of t' n "capability_new r ob" "ch_index src" "depth e + 1"] ok(5) eq
    by (intro descends.child) simp
  moreover have "lookup t h = Ret (Err CapInvalidHandle)"
    using ok(4) eq by (simp add: lookup_eq live_entry_def mk_handle_def)
  moreover have "lookup t' = (lookup t)(h := Ret (Ok (capability_new r ob)))"
    using table_peek_add [OF ok(5,6)] eq by (intro lookup_fun_upd) simp
  ultimately show ?thesis
    using ok eq by (simp add: lookup_eq mk_handle_def rights_contains_iff)
qed


lemma sample_lookup:
  "lookup sample_table sample_root = Ret (Ok sample_cap)"
  "lookup sample_table sample_child = Ret (Ok (capability_new SEND (cap_object sample_cap)))"
  by (simp_all add: lookup_eq sample_live sample_ent)

lemma sample_rights: "cap_rights sample_cap = KNOWN_BITS"
  by (simp add: sample_cap_def)

lemma known_contains:
  "rights_contains KNOWN_BITS DUPLICATE" "rights_contains KNOWN_BITS DERIVE"
  "rights_contains KNOWN_BITS REVOKE" "rights_contains KNOWN_BITS SEND"
  by (simp_all add: rights_contains_def KNOWN_BITS_def rights_consts)

lemma sample_not_full: "\<not> is_full sample_table"
  by (simp add: is_full_def table_eval sample_table_def sample_ops_def sample_root_def sample_cap_def)

theorem derive_attenuates_witness:
  "\<exists>h t'. cap_derive sample_root SEND (cap_object sample_cap) sample_table = (Ret (Ok h), t') \<and>
     lookup t' h = Ret (Ok (capability_new SEND (cap_object sample_cap))) \<and>
     rights_set SEND \<subseteq> rights_set (cap_rights sample_cap)"
proof -
  have "derive_check sample_table sample_root SEND = None"
    by (simp add: derive_check_def sample_live sample_ent sample_rights known_contains
        sample_not_full MAX_DERIVATION_DEPTH_def)
  from sample_wf this obtain n t' where
    *: "cap_derive sample_root SEND (cap_object sample_cap) sample_table = (Ret (Ok (mk_handle sample_table n)), t')"
    by (rule cap_derive_ok [where obj = "cap_object sample_cap"])
  from derive_attenuates [OF sample_wf *] * show ?thesis
    by (auto simp: sample_lookup)
qed

text \<open>C39. \<open>cap_copy\<close> makes a peer: the new capability names the same object with at most the
  source's rights, hangs below the same parent at the same depth, and needs \<open>DUPLICATE\<close>.\<close>

theorem copy_makes_peer:
  assumes "cap_wf t" and "cap_copy src r t = (Ret (Ok h), t')"
  shows "cap_wf t' \<and> lookup t h = Ret (Err CapInvalidHandle) \<and>
    (\<exists>c p d. view t (ch_index src) = Some (c, p, d) \<and> lookup t src = Ret (Ok c) \<and>
      rights_set DUPLICATE \<union> rights_set r \<subseteq> rights_set (cap_rights c) \<and>
      view t' = (view t)(ch_index h \<mapsto> (capability_new r (cap_object c), p, d)) \<and>
      lookup t' = (lookup t)(h := Ret (Ok (capability_new r (cap_object c)))))"
proof -
  have none: "copy_check t src r = None"
    using assms(2) cap_copy_err [of t src r] by (cases "copy_check t src r") auto
  from assms(1) none obtain n e t'' where ok: "live_entry t src = Some e"
    "cap_copy src r t = (Ret (Ok (mk_handle t n)), t'')" "cap_wf t''" "ent t n = None"
    "view t'' = (view t)(n \<mapsto> (capability_new r (cap_object (capability e)), parent e, depth e))"
    "gen_at t'' = gen_at t"
    "rights_contains (cap_rights (capability e)) DUPLICATE" "rights_contains (cap_rights (capability e)) r"
    by (rule cap_copy_ok)
  then have eq: "t'' = t'" "h = mk_handle t n" using assms(2) by auto
  have "lookup t h = Ret (Err CapInvalidHandle)"
    using ok(4) eq by (simp add: lookup_eq live_entry_def mk_handle_def)
  moreover have "lookup t' = (lookup t)(h := Ret (Ok (capability_new r (cap_object (capability e)))))"
    using table_peek_add [OF ok(5,6)] eq by (intro lookup_fun_upd) simp
  moreover note view_entry [OF live_entry_ent [OF ok(1)]]
  ultimately show ?thesis
    using ok eq by (auto simp: lookup_eq mk_handle_def rights_contains_iff)
qed

theorem copy_makes_peer_witness:
  "\<exists>h t'. cap_copy sample_root SEND sample_table = (Ret (Ok h), t') \<and>
     lookup t' h = Ret (Ok (capability_new SEND (cap_object sample_cap)))"
proof -
  have "copy_check sample_table sample_root SEND = None"
    by (simp add: copy_check_def sample_live sample_ent sample_rights known_contains sample_not_full)
  from sample_wf this obtain n t' where
    *: "cap_copy sample_root SEND sample_table = (Ret (Ok (mk_handle sample_table n)), t')"
    by (rule cap_copy_ok)
  from copy_makes_peer [OF sample_wf *] * show ?thesis
    by (auto simp: sample_lookup)
qed

text \<open>C3. Revocation is exact: \<open>cap_revoke src\<close> succeeds for a holder of \<open>REVOKE\<close> only, and then
  every handle to a descendant of \<open>src\<close>, however deep and of whatever generation, is dead, while
  every other handle, \<open>src\<close> itself included, resolves as before.\<close>

theorem revoke_exact:
  assumes "cap_wf t" and "cap_revoke dbg src t = (Ret (Ok ()), t')"
  shows "cap_wf t' \<and>
    (\<exists>c. lookup t src = Ret (Ok c) \<and> rights_set REVOKE \<subseteq> rights_set (cap_rights c)) \<and>
    (\<forall>h. lookup t' h = (if descends (ent t) (ch_index src) (ch_index h)
       then Ret (Err CapInvalidHandle) else lookup t h)) \<and>
    lookup t' src = lookup t src \<and> descendants (ent t') (ch_index src) = {}"
proof -
  have none: "revoke_check t src = None"
    using assms(2) cap_revoke_err [of t src _ dbg] by (cases "revoke_check t src") auto
  then obtain e where e: "live_entry t src = Some e" "rights_contains (cap_rights (capability e)) REVOKE"
    by (auto simp: revoke_check_def split: option.splits if_splits)
  from assms(1) none obtain t'' where "cap_revoke dbg src t = (Ret (Ok ()), t'')" "cap_wf t''"
    "view t'' = (\<lambda>j. if j \<in> descendants (ent t) (ch_index src) then None else view t j)"
    "gen_at t'' = (\<lambda>j. if j \<in> descendants (ent t) (ch_index src) then gen_at t j + 1 else gen_at t j)"
    by (rule cap_revoke_ok)
  with assms(2) have t': "cap_wf t'"
    "view t' = (\<lambda>j. if j \<in> descendants (ent t) (ch_index src) then None else view t j)"
    "gen_at t' = (\<lambda>j. if j \<in> descendants (ent t) (ch_index src) then gen_at t j + 1 else gen_at t j)"
    by auto
  have each: "lookup t' h = (if descends (ent t) (ch_index src) (ch_index h)
       then Ret (Err CapInvalidHandle) else lookup t h)" for h
    by (simp add: lookup_peek table_peek_view t'(2,3) descendants_def)
  have irr: "\<not> descends (ent t) (ch_index src) (ch_index src)"
    by (rule descends_irrefl [OF cap_wf_forest [OF assms(1)] live_entry_ent [OF e(1)]])
  have "kids (ent t') (ch_index src) = {}"
  proof (rule ccontr)
    assume "kids (ent t') (ch_index src) \<noteq> {}"
    then obtain j x where "ent t' j = Some x" "parent x = Some (ch_index src)" by (auto simp: kids_def)
    then have "view t' j = Some (capability x, Some (ch_index src), depth x)" by (simp add: view_def)
    then have "j \<notin> descendants (ent t) (ch_index src)" "j \<in> kids (ent t) (ch_index src)"
      unfolding t'(2) by (auto split: if_splits dest: view_kids)
    then show False by (auto simp: descendants_def intro: descends.child)
  qed
  then have "descendants (ent t') (ch_index src) = {}"
    using descendants_least [of "ent t'" "ch_index src" "{}"] by simp
  with t'(1) e each [of src] irr each show ?thesis
    by (simp add: lookup_eq rights_contains_iff)
qed

theorem revoke_exact_witness:
  "\<exists>t'. cap_revoke True sample_root sample_table = (Ret (Ok ()), t') \<and>
     lookup sample_table sample_child = Ret (Ok (capability_new SEND (cap_object sample_cap))) \<and>
     lookup t' sample_child = Ret (Err CapInvalidHandle) \<and>
     lookup t' sample_root = Ret (Ok sample_cap)"
proof -
  have "revoke_check sample_table sample_root = None"
    by (simp add: revoke_check_def sample_live sample_ent sample_rights known_contains)
  from sample_wf this obtain t' where
    *: "cap_revoke True sample_root sample_table = (Ret (Ok ()), t')"
    by (rule cap_revoke_ok)
  have "descends (ent sample_table) (ch_index sample_root) (ch_index sample_child)"
    using sample_descends by (simp add: sample_root_def sample_child_def)
  moreover have "\<not> descends (ent sample_table) (ch_index sample_root) (ch_index sample_root)"
    using descends_irrefl [OF cap_wf_forest [OF sample_wf] sample_ent(1)] by (simp add: sample_root_def)
  ultimately show ?thesis
    using revoke_exact [OF sample_wf *] * by (simp add: sample_lookup)
qed


lemma first_child_kids:
  "cap_wf t \<Longrightarrow> ent t i = Some e \<Longrightarrow> first_child e = None \<longleftrightarrow> kids (ent t) i = {}"
  using forest_children [OF cap_wf_forest, of t i e] by (metis chain.simps(1) chain_from_None set_empty)

text \<open>C24. Leaving the table: \<open>cap_take\<close> and \<open>cap_drop\<close> succeed exactly on a live handle whose
  capability has no derived children; then that handle and only that handle dies, \<open>cap_take\<close>
  returning the capability it named. With children they fail with \<open>HasChildren\<close>, on a dead handle
  with \<open>InvalidHandle\<close>, and the table is untouched.\<close>

theorem take_and_drop:
  assumes "cap_wf t"
  shows "case lookup t h of
      Ret (Ok c) \<Rightarrow>
        if kids (ent t) (ch_index h) = {}
        then (\<exists>t'. cap_take h t = (Ret (Ok c), t') \<and> cap_drop h t = (Ret (Ok ()), t') \<and> cap_wf t' \<and>
          lookup t' = (lookup t)(h := Ret (Err CapInvalidHandle)))
        else cap_take h t = (Ret (Err HasChildren), t) \<and> cap_drop h t = (Ret (Err HasChildren), t)
    | Ret (Err x) \<Rightarrow> x = CapInvalidHandle \<and>
        cap_take h t = (Ret (Err CapInvalidHandle), t) \<and> cap_drop h t = (Ret (Err CapInvalidHandle), t)
    | _ \<Rightarrow> False"
proof (cases "take_check t h")
  case None
  from assms None obtain e t' where ok: "live_entry t h = Some e" "first_child e = None"
    "cap_take h t = (Ret (Ok (capability e)), t')" "cap_drop h t = (Ret (Ok ()), t')" "cap_wf t'"
    "view t' = (view t)(ch_index h := None)"
    "gen_at t' = (gen_at t)(ch_index h := ch_generation h + 1)"
    by (rule cap_take_ok)
  have "table_peek t' = (table_peek t)(h := None)"
    by (rule table_peek_del) (use ok resolve_live [OF ok(1)] in simp_all)
  then have "lookup t' = (lookup t)(h := Ret (Err CapInvalidHandle))"
    by (auto simp: fun_eq_iff lookup_peek)
  moreover have "kids (ent t) (ch_index h) = {}"
    using first_child_kids [OF assms live_entry_ent [OF ok(1)]] ok(2) by simp
  ultimately show ?thesis using ok by (simp add: lookup_eq)
next
  case (Some err)
  then show ?thesis
    using cap_take_err [OF Some] cap_drop_err [OF Some] first_child_kids [OF assms live_entry_ent]
    by (auto simp: take_check_def lookup_eq split: option.splits if_splits)
qed

theorem take_and_drop_witness:
  "cap_take sample_root sample_table = (Ret (Err HasChildren), sample_table)"
proof -
  have "kids (ent sample_table) (ch_index sample_root) \<noteq> {}"
  proof -
    have "1 \<in> kids (ent sample_table) 0" by (simp add: kids_def sample_ent)
    then show ?thesis by (auto simp: sample_root_def)
  qed
  with take_and_drop [OF sample_wf, of sample_root] show ?thesis by (simp add: sample_lookup)
qed

text \<open>C25. A failing operation changes nothing and reports the first check that fails, in the order
  the code makes them: handle, right, widening, depth, capacity. Conversely an operation whose checks
  pass succeeds.\<close>

theorem cap_errors_exact:
  assumes "cap_wf t"
  shows "(fst (cap_derive src r ob t) = Ret (Err e) \<longleftrightarrow> derive_check t src r = Some e) \<and>
    (fst (cap_copy src r t) = Ret (Err e) \<longleftrightarrow> copy_check t src r = Some e) \<and>
    (fst (cap_revoke dbg src t) = Ret (Err e) \<longleftrightarrow> revoke_check t src = Some e) \<and>
    (fst (insert_root c t) = Ret (Err e) \<longleftrightarrow> e = CapsExhausted \<and> is_full t) \<and>
    (fst (table_step dbg op t) = Ret (Err e) \<longrightarrow> snd (table_step dbg op t) = t)"
proof (intro conjI)
  show "fst (cap_derive src r ob t) = Ret (Err e) \<longleftrightarrow> derive_check t src r = Some e"
    by (cases "derive_check t src r")
      (auto elim: cap_derive_ok [OF assms, of src r ob] simp: cap_derive_err)
  show "fst (cap_copy src r t) = Ret (Err e) \<longleftrightarrow> copy_check t src r = Some e"
    by (cases "copy_check t src r")
      (auto elim: cap_copy_ok [OF assms, of src r] simp: cap_copy_err)
  show "fst (cap_revoke dbg src t) = Ret (Err e) \<longleftrightarrow> revoke_check t src = Some e"
    by (cases "revoke_check t src")
      (auto elim: cap_revoke_ok [OF assms, of src dbg] simp: cap_revoke_err)
  show "fst (insert_root c t) = Ret (Err e) \<longleftrightarrow> e = CapsExhausted \<and> is_full t"
    using assms by (cases rule: insert_root_cases [where t = t and c = c])
      (auto simp: is_full_def insert_root_def pop_free_def split: option.splits)
  show "fst (table_step dbg op t) = Ret (Err e) \<longrightarrow> snd (table_step dbg op t) = t"
    by (rule table_step_cases [OF assms, where dbg = dbg and op = op]) simp_all
qed

theorem cap_errors_exact_witness:
  "fst (cap_derive sample_child SEND (cap_object sample_cap) sample_table) = Ret (Err InsufficientRights)"
proof -
  have "derive_check sample_table sample_child SEND = Some InsufficientRights"
    by (simp add: derive_check_def sample_live sample_ent rights_contains_def rights_consts)
  then show ?thesis
    using cap_errors_exact [OF sample_wf, where e = InsufficientRights and src = sample_child and r = SEND]
    by blast
qed


section \<open>Stale handles and capacity\<close>

text \<open>How often a run of operations empties slot \<open>i\<close>; each time the slot's generation grows by one.\<close>

fun slot_frees :: "bool \<Rightarrow> u16 \<Rightarrow> cap_op list \<Rightarrow> CapabilityTable \<Rightarrow> nat" where
  "slot_frees dbg i [] t = 0"
| "slot_frees dbg i (op # ops) t =
     (let t' = snd (table_step dbg op t)
      in (if ent t i \<noteq> None \<and> ent t' i = None then 1 else 0) + slot_frees dbg i ops t')"

lemma view_None: "view t i = None \<longleftrightarrow> ent t i = None"
  by (simp add: view_def)

lemma table_step_gen:
  assumes "cap_wf t"
  shows "gen_at (snd (table_step dbg op t)) i =
    gen_at t i + (if ent t i \<noteq> None \<and> ent (snd (table_step dbg op t)) i = None then 1 else 0)"
  using assms
proof (cases rule: table_step_cases [where dbg = dbg and op = op])
  case (remove h e t')
  then show ?thesis
    using view_entry [OF live_entry_ent [OF remove(4)]]
    by (cases "i = ch_index h") (auto simp: remove(2) simp flip: view_None)
next
  case (revoke h t')
  then show ?thesis
    using descendants_range [of i t "ch_index h"] by (auto simp: revoke(2) simp flip: view_None dest: view_entry)
next
  case (root c n t')
  then show ?thesis by (auto simp: root(2) simp flip: view_None)
next
  case (copy h r e n t')
  then show ?thesis by (auto simp: copy(2) simp flip: view_None)
next
  case (derive h r ob e n t')
  then show ?thesis by (auto simp: derive(2) simp flip: view_None)
qed auto

lemma table_run_gen:
  "cap_wf t \<Longrightarrow> gen_at (table_run dbg ops t) i = gen_at t i + of_nat (slot_frees dbg i ops t)"
proof (induction ops arbitrary: t)
  case (Cons op ops)
  then have "gen_at (table_run dbg (op # ops) t) i =
      gen_at (snd (table_step dbg op t)) i + of_nat (slot_frees dbg i ops (snd (table_step dbg op t)))"
    by (simp add: table_step_wf)
  then show ?case using table_step_gen [OF Cons.prems, of dbg op i] by (simp add: Let_def)
qed simp

text \<open>C27. A handle whose slot has been emptied is dead for good: from the first time its slot is
  emptied until the generation counter comes round (\<open>2 ^ 32\<close> times), whatever is stored in the slot
  meanwhile, the handle resolves to nothing.\<close>

theorem stale_handle_dead:
  assumes "cap_wf t" and "lookup t h = Ret (Ok c)"
    and "0 < slot_frees dbg (ch_index h) ops t" "slot_frees dbg (ch_index h) ops t < 2 ^ 32"
  shows "lookup (table_run dbg ops t) h = Ret (Err CapInvalidHandle)"
proof -
  let ?n = "slot_frees dbg (ch_index h) ops t"
  have g: "gen_at t (ch_index h) = ch_generation h"
    using assms(2) by (auto simp: lookup_Ok table_peek_def resolve_live)
  have "unat (of_nat ?n :: u32) = ?n" using assms(4) by (simp add: unat_of_nat)
  then have "(of_nat ?n :: u32) \<noteq> 0" using assms(3) by (metis less_irrefl unat_0)
  then show ?thesis
    using table_run_gen [OF assms(1), of dbg ops "ch_index h"] g
    by (simp add: lookup_peek table_peek_view)
qed

text \<open>After the child is dropped its slot is reused, and the old handle does not reach the newcomer.\<close>

lemma sample_drop:
  "slot_frees True 1 [Drop sample_child, InsertRoot sample_cap] sample_table = 1"
proof -
  have "take_check sample_table sample_child = None"
    by (simp add: take_check_def sample_live sample_ent)
  from sample_wf this obtain t' where t': "cap_drop sample_child sample_table = (Ret (Ok ()), t')"
    "view t' = (view sample_table)(ch_index sample_child := None)"
    by (rule cap_take_ok)
  then have none: "ent t' 1 = None" by (simp add: sample_child_def flip: view_None)
  then show ?thesis using t'(1) sample_ent(2) by (simp add: Let_def)
qed

theorem stale_handle_dead_witness:
  "lookup (table_run True [Drop sample_child, InsertRoot sample_cap] sample_table) sample_child
    = Ret (Err CapInvalidHandle)"
proof -
  have i: "ch_index sample_child = 1" by (simp add: sample_child_def)
  show ?thesis
    by (rule stale_handle_dead [OF sample_wf sample_lookup(2)]) (simp_all only: i sample_drop, simp_all)
qed

lemma dom_ent_range: "cap_wf t \<Longrightarrow> dom (ent t) \<subseteq> {i. unat i < CAP_TABLE_CAPACITY}"
  using ent_Some_range [of t] by (auto simp: cap_wf_length)

text \<open>The table neither loses slots nor overflows: after any run it holds at most 64
  capabilities, and \<open>is_full\<close>, the condition under which insertions fail, is exactly that it holds
  64.\<close>

theorem table_full_iff:
  fixes ops :: "cap_op list"
  shows "card (dom (ent (table_run dbg ops table_new))) \<le> CAP_TABLE_CAPACITY \<and>
    (is_full (table_run dbg ops table_new) \<longleftrightarrow>
      card (dom (ent (table_run dbg ops table_new))) = CAP_TABLE_CAPACITY)"
proof -
  define t where "t = table_run dbg ops table_new"
  have wf: "cap_wf t" unfolding t_def by (rule table_run_wf [OF table_new_wf])
  let ?all = "{i :: u16. unat i < CAP_TABLE_CAPACITY}"
  have card: "card ?all = CAP_TABLE_CAPACITY" by (rule card_idx_below) (simp add: CAP_TABLE_CAPACITY_def)
  note sub = dom_ent_range [OF wf]
  have "is_full t \<longleftrightarrow> dom (ent t) = ?all"
  proof
    assume "is_full t"
    with wf have "free_list CAP_TABLE_CAPACITY (\<lambda>i. ent t i \<noteq> None) (nfree t) None"
      by (simp add: is_full_def cap_wf_def)
    from free_list_None [OF this] sub show "dom (ent t) = ?all" by (auto simp: dom_def)
  next
    assume all: "dom (ent t) = ?all"
    show "is_full t"
    proof (rule ccontr)
      assume "\<not> is_full t"
      then obtain i where "ct_free_head t = Some i" by (auto simp: is_full_def)
      with wf have "unat i < CAP_TABLE_CAPACITY \<and> ent t i = None"
        using free_list_head [of CAP_TABLE_CAPACITY "\<lambda>i. ent t i \<noteq> None" "nfree t" i] by (simp add: cap_wf_def)
      then have "i \<in> ?all" "i \<notin> dom (ent t)" by (auto simp: dom_def)
      with all show False by simp
    qed
  qed
  moreover have "card (dom (ent t)) \<le> CAP_TABLE_CAPACITY"
    using card_mono [OF _ sub] card by simp
  moreover have "dom (ent t) = ?all \<longleftrightarrow> card (dom (ent t)) = CAP_TABLE_CAPACITY"
    using card_subset_eq [OF _ sub] card by auto
  ultimately show ?thesis unfolding t_def by blast
qed

text \<open>\<open>references_object\<close>, the check a destroy operation must make, is complete: it is true
  exactly when some handle still resolves to a capability naming the object.\<close>

theorem references_object_iff:
  assumes "cap_wf t"
  shows "references_object t ob \<longleftrightarrow> (\<exists>h c. lookup t h = Ret (Ok c) \<and> cap_object c = ob)"
proof
  assume "references_object t ob"
  then obtain s e where "s \<in> set (ct_slots t)" "cs_entry s = Some e" "cap_object (capability e) = ob"
    by (auto simp: references_object_def list_ex_iff split: option.splits)
  then obtain k where k: "k < length (ct_slots t)" "cs_entry (ct_slots t ! k) = Some e"
    "cap_object (capability e) = ob" by (auto simp: in_set_conv_nth)
  with assms have "unat (of_nat k :: u16) = k"
    by (intro of_nat_u16_unat) (simp add: cap_wf_length CAP_TABLE_CAPACITY_def)
  then have "live_entry t (mk_handle t (of_nat k)) = Some e"
    using k by (simp add: live_entry_def mk_handle_def ent_def)
  then have "lookup t (mk_handle t (of_nat k)) = Ret (Ok (capability e))" by (simp add: lookup_eq)
  with k(3) show "\<exists>h c. lookup t h = Ret (Ok c) \<and> cap_object c = ob" by blast
next
  assume "\<exists>h c. lookup t h = Ret (Ok c) \<and> cap_object c = ob"
  then obtain h e where e: "live_entry t h = Some e" "cap_object (capability e) = ob"
    by (auto simp: lookup_Ok table_peek_def)
  have "ct_slots t ! unat (ch_index h) \<in> set (ct_slots t)" by (simp add: resolve_live [OF e(1)])
  moreover have "cs_entry (ct_slots t ! unat (ch_index h)) = Some e" by (rule resolve_live [OF e(1)])
  ultimately show "references_object t ob"
    using e(2) unfolding references_object_def list_ex_iff by force
qed

theorem references_object_iff_witness: "references_object sample_table (cap_object sample_cap)"
  using references_object_iff [OF sample_wf] sample_lookup(1) by blast

end
