(* ===== verification/Ipc.thy ===== *)
theory Ipc
  imports Cap_Properties
begin

text \<open>
  Inter-process communication, \<open>kernel/src/ipc/mod.rs\<close>: per endpoint a waiter queue of depth
  one, a state machine with the four states of \<open>EndpointState\<close>. A message may carry a
  capability, which leaves the sender's table when the message is sent and enters the receiver's
  when it is received; in between it lives in the endpoint's state.
\<close>

section \<open>Data\<close>

record Message =
  msg_label :: u64
  msg_params :: "u64 \<times> u64 \<times> u64"

datatype IpcError =
    InvalidCapability
  | QueueFull
  | InvalidTransferCap
  | ReceiverTableFull
  | PendingAfterResume

datatype SendOutcome = Delivered | Enqueued

datatype RecvOutcome = Received Message "CapHandle option" | Pending

datatype EndpointState =
    Idle
  | SendPending Message "Capability option"
  | RecvWaiting
  | RecvComplete Message "Capability option"

record IpcQueues =
  iq_states :: "EndpointState list"
  iq_generations :: "u32 list"

definition queues_new :: IpcQueues where
  "queues_new = \<lparr>iq_states = replicate ENDPOINT_ARENA_CAPACITY Idle,
     iq_generations = replicate ENDPOINT_ARENA_CAPACITY 0\<rparr>"

section \<open>Queue internals\<close>

text \<open>The \<open>matches!\<close> patterns of the code.\<close>

fun carries_cap :: "EndpointState \<Rightarrow> bool" where
  "carries_cap (SendPending _ (Some _)) = True"
| "carries_cap (RecvComplete _ (Some _)) = True"
| "carries_cap _ = False"

fun holds_message :: "EndpointState \<Rightarrow> bool" where
  "holds_message (SendPending _ _) = True"
| "holds_message (RecvComplete _ _) = True"
| "holds_message _ = False"

definition set_state :: "nat \<Rightarrow> EndpointState \<Rightarrow> IpcQueues \<Rightarrow> IpcQueues" where
  "set_state idx st q = q\<lparr>iq_states := (iq_states q)[idx := st]\<rparr>"

definition reset_if_stale_generation ::
  "bool \<Rightarrow> EndpointHandle \<Rightarrow> IpcQueues \<Rightarrow> nat run \<times> IpcQueues" where
  "reset_if_stale_generation dbg h q =
     (let idx = unat (sid_index (endpoint_slot h)); gen = sid_generation (endpoint_slot h)
      in case (arr_get (iq_generations q) idx, arr_get (iq_states q) idx) of
        (Some g, Some st) \<Rightarrow>
          if g \<noteq> gen then
            if dbg \<and> carries_cap st then (Panic, q)
            else (Ret idx, \<lparr>iq_states = (iq_states q)[idx := Idle],
                            iq_generations = (iq_generations q)[idx := gen]\<rparr>)
          else (Ret idx, q)
      | _ \<Rightarrow> (Panic, q))"

text \<open>\<open>state_of\<close> hands out a mutable reference into the array: the model returns its index.\<close>

definition state_of :: "bool \<Rightarrow> EndpointHandle \<Rightarrow> IpcQueues \<Rightarrow> nat run \<times> IpcQueues" where
  "state_of dbg h q = reset_if_stale_generation dbg h q"

definition peek_state :: "bool \<Rightarrow> EndpointHandle \<Rightarrow> IpcQueues \<Rightarrow> EndpointState run \<times> IpcQueues" where
  "peek_state dbg h q = (case reset_if_stale_generation dbg h q of
     (Ret idx, q') \<Rightarrow> (Ret (iq_states q' ! idx), q')
   | (Panic, q') \<Rightarrow> (Panic, q')
   | (Diverge, q') \<Rightarrow> (Diverge, q'))"

section \<open>Helpers\<close>

definition validate_ep_cap ::
  "CapabilityTable \<Rightarrow> CapHandle \<Rightarrow> CapRights \<Rightarrow> (IpcError, EndpointHandle) result run" where
  "validate_ep_cap t ep_cap required =
     fst (and_then (map_err_run (\<lambda>_. InvalidCapability) (lookup t ep_cap, ())) (\<lambda>c s.
       if \<not> rights_contains (cap_rights c) required then (Ret (Err InvalidCapability), s)
       else (case cap_object c of
         ObjEndpoint h \<Rightarrow> (Ret (Ok h), s)
       | _ \<Rightarrow> (Ret (Err InvalidCapability), s))))"

definition validate_notif_cap ::
  "CapabilityTable \<Rightarrow> CapHandle \<Rightarrow> (IpcError, NotificationHandle) result run" where
  "validate_notif_cap t notif_cap =
     fst (and_then (map_err_run (\<lambda>_. InvalidCapability) (lookup t notif_cap, ())) (\<lambda>c s.
       if \<not> rights_contains (cap_rights c) NOTIFY then (Ret (Err InvalidCapability), s)
       else (case cap_object c of
         ObjNotification h \<Rightarrow> (Ret (Ok h), s)
       | _ \<Rightarrow> (Ret (Err InvalidCapability), s))))"

definition take_cap_if_some ::
  "CapHandle option \<Rightarrow> CapabilityTable \<Rightarrow>
   (IpcError, Capability option) result run \<times> CapabilityTable" where
  "take_cap_if_some handle t = (case handle of
     Some h \<Rightarrow> and_then (map_err_run (\<lambda>_. InvalidTransferCap) (cap_take h t))
       (\<lambda>c t. (Ret (Ok (Some c)), t))
   | None \<Rightarrow> (Ret (Ok None), t))"

definition install_cap_if_some ::
  "Capability option \<Rightarrow> CapabilityTable \<Rightarrow>
   (IpcError, CapHandle option) result run \<times> CapabilityTable" where
  "install_cap_if_some cap t = (case cap of
     Some c \<Rightarrow> and_then (map_err_run (\<lambda>_. ReceiverTableFull) (insert_root c t))
       (\<lambda>h t. (Ret (Ok (Some h)), t))
   | None \<Rightarrow> (Ret (Ok None), t))"

section \<open>Operations\<close>

text \<open>The state is the waiter queues and the caller's capability table; the endpoint arena is
  only read.\<close>

type_synonym ipc_state = "IpcQueues \<times> CapabilityTable"

definition check_transfer ::
  "CapHandle option \<Rightarrow> ipc_state \<Rightarrow> (IpcError, unit) result run \<times> ipc_state" where
  "check_transfer transfer s = (case transfer of
     None \<Rightarrow> (Ret (Ok ()), s)
   | Some xfer \<Rightarrow>
       and_then (map_err_run (\<lambda>_. InvalidTransferCap) (lookup (snd s) xfer, s)) (\<lambda>xfer_cap s.
         if \<not> rights_contains (cap_rights xfer_cap) TRANSFER
         then (Ret (Err InvalidTransferCap), s) else (Ret (Ok ()), s)))"

definition ipc_send ::
  "bool \<Rightarrow> EndpointArena \<Rightarrow> CapHandle \<Rightarrow> Message \<Rightarrow> CapHandle option \<Rightarrow> ipc_state \<Rightarrow>
   (IpcError, SendOutcome) result run \<times> ipc_state" where
  "ipc_send dbg ep_arena ep_cap msg transfer s =
     and_then (validate_ep_cap (snd s) ep_cap SEND, s) (\<lambda>ep_handle s.
     and_then (check_transfer transfer s) (\<lambda>_ s.
     and_then (Ret (ok_or (get ep_arena (endpoint_slot ep_handle)) InvalidCapability), s) (\<lambda>_ s.
     and_then (plain (on_fst (peek_state dbg ep_handle) s)) (\<lambda>st s.
       if holds_message st then (Ret (Err QueueFull), s)
       else
     and_then (on_snd (take_cap_if_some transfer) s) (\<lambda>owned s.
     and_then (plain (on_fst (state_of dbg ep_handle) s)) (\<lambda>idx s.
       case s of (q, t) \<Rightarrow> (case iq_states q ! idx of
         RecvWaiting \<Rightarrow> (Ret (Ok Delivered), (set_state idx (RecvComplete msg owned) q, t))
       | Idle \<Rightarrow> (Ret (Ok Enqueued), (set_state idx (SendPending msg owned) q, t))
       | SendPending _ _ \<Rightarrow> (Panic, (set_state idx Idle q, t))
       | RecvComplete _ _ \<Rightarrow> (Panic, (set_state idx Idle q, t)))))))))"

definition ipc_recv ::
  "bool \<Rightarrow> EndpointArena \<Rightarrow> CapHandle \<Rightarrow> ipc_state \<Rightarrow>
   (IpcError, RecvOutcome) result run \<times> ipc_state" where
  "ipc_recv dbg ep_arena ep_cap s =
     and_then (validate_ep_cap (snd s) ep_cap RECV, s) (\<lambda>ep_handle s.
     and_then (Ret (ok_or (get ep_arena (endpoint_slot ep_handle)) InvalidCapability), s) (\<lambda>_ s.
     and_then (plain (on_fst (peek_state dbg ep_handle) s)) (\<lambda>st s.
       if carries_cap st \<and> is_full (snd s) then (Ret (Err ReceiverTableFull), s)
       else
     and_then (plain (on_fst (state_of dbg ep_handle) s)) (\<lambda>idx s.
       case s of (q, t) \<Rightarrow>
         let old = iq_states q ! idx; q = set_state idx Idle q
         in case old of
           SendPending msg cap \<Rightarrow>
             and_then (on_snd (install_cap_if_some cap) (q, t)) (\<lambda>xfer s.
               (Ret (Ok (Received msg xfer)), s))
         | RecvComplete msg cap \<Rightarrow>
             and_then (on_snd (install_cap_if_some cap) (q, t)) (\<lambda>xfer s.
               (Ret (Ok (Received msg xfer)), s))
         | Idle \<Rightarrow> (Ret (Ok Pending), (set_state idx RecvWaiting q, t))
         | RecvWaiting \<Rightarrow> (Ret (Err QueueFull), (set_state idx RecvWaiting q, t))))))"

definition ipc_notify ::
  "CapHandle \<Rightarrow> CapabilityTable \<Rightarrow> u64 \<Rightarrow> NotificationArena \<Rightarrow>
   (IpcError, unit) result run \<times> NotificationArena" where
  "ipc_notify notif_cap t bits notif_arena =
     and_then (validate_notif_cap t notif_cap, notif_arena) (\<lambda>notif_handle ar.
       case get_mut (notif_set bits) (notif_slot notif_handle) ar of
         None \<Rightarrow> (Ret (Err InvalidCapability), ar)
       | Some ar' \<Rightarrow> (Ret (Ok ()), ar'))"

end
