(* ===== verification/Scheduler.thy ===== *)
theory Scheduler
  imports Sched_Queue Ipc
begin

text \<open>
  The cooperative scheduler and its IPC bridge, \<open>kernel/src/sched/mod.rs\<close>. A bridge call that
  switches tasks does not return to its caller before the caller runs again; the model cuts such
  a call at the switch. The part before it ends in \<open>SwitchTo\<close> with the two context indices and
  the point at which the call resumes; \<open>guarded_switch\<close> (the interrupt guard and the switch) and
  \<open>ipc_recv_resume\<close> are the rest.
\<close>

section \<open>Data\<close>

datatype TaskState = TaskIdle | TaskReady | TaskBlocked EndpointHandle

datatype SchedError = NoCurrentTask | SchedQueueFull | IpcErr IpcError | Deadlock

record 'c Scheduler =
  sch_ready :: SchedQueue
  sch_states :: "TaskState list"
  sch_handles :: "TaskHandle option list"
  sch_current :: "TaskHandle option"
  sch_contexts :: "'c list"

text \<open>\<open>handle.slot().index() as usize\<close>\<close>

definition hidx :: "TaskHandle \<Rightarrow> nat" where
  "hidx h = unat (sid_index (task_slot h))"

definition scheduler_new :: "'c \<Rightarrow> 'c Scheduler" where
  "scheduler_new dflt = \<lparr>sch_ready = queue_new TASK_ARENA_CAPACITY,
     sch_states = replicate TASK_ARENA_CAPACITY TaskIdle,
     sch_handles = replicate TASK_ARENA_CAPACITY None, sch_current = None,
     sch_contexts = replicate TASK_ARENA_CAPACITY dflt\<rparr>"

text \<open>Where a suspended bridge call goes on when its task runs again.\<close>

datatype resume = ResumeYield | ResumeSend SendOutcome | ResumeRecv CapHandle

datatype 'r progress = Done 'r | SwitchTo nat nat resume

section \<open>Registration and helpers\<close>

text \<open>\<open>init_context\<close> is the board's; it fills the context in place from the entry point and the
  stack.\<close>

definition add_task ::
  "('c \<Rightarrow> 'e \<Rightarrow> 'p \<Rightarrow> 'c) \<Rightarrow> TaskHandle \<Rightarrow> 'e \<Rightarrow> 'p \<Rightarrow> 'c Scheduler \<Rightarrow>
   (SchedError, unit) result run \<times> 'c Scheduler" where
  "add_task init_context handle entry stack_top s =
     (let idx = hidx handle in
      case arr_get (sch_contexts s) idx of
        None \<Rightarrow> (Panic, s)
      | Some ctx \<Rightarrow>
          let s = s\<lparr>sch_contexts := (sch_contexts s)[idx := init_context ctx entry stack_top]\<rparr>
          in case enqueue handle (sch_ready s) of
            (Ret (Ok _), r) \<Rightarrow>
              let s = s\<lparr>sch_ready := r\<rparr> in
              if idx < length (sch_states s) \<and> idx < length (sch_handles s)
              then (Ret (Ok ()), s\<lparr>sch_states := (sch_states s)[idx := TaskReady],
                      sch_handles := (sch_handles s)[idx := Some handle]\<rparr>)
              else (Panic, s)
          | (Ret (Err _), r) \<Rightarrow> (Ret (Err SchedQueueFull), s)
          | (Panic, r) \<Rightarrow> (Panic, s)
          | (Diverge, r) \<Rightarrow> (Diverge, s))"

definition resolve_ep_cap ::
  "CapabilityTable \<Rightarrow> CapHandle \<Rightarrow> (SchedError, EndpointHandle) result run" where
  "resolve_ep_cap t ep_cap =
     fst (and_then (map_err_run (\<lambda>_. IpcErr InvalidCapability) (lookup t ep_cap, ())) (\<lambda>c s.
       case cap_object c of
         ObjEndpoint h \<Rightarrow> (Ret (Ok h), s)
       | _ \<Rightarrow> (Ret (Err (IpcErr InvalidCapability)), s)))"

fun unblock_scan :: "EndpointHandle \<Rightarrow> nat list \<Rightarrow> 'c Scheduler \<Rightarrow> unit run \<times> 'c Scheduler" where
  "unblock_scan ep [] s = (Ret (), s)"
| "unblock_scan ep (idx # rest) s = (case arr_get (sch_states s) idx of
     None \<Rightarrow> (Panic, s)
   | Some (TaskBlocked on) \<Rightarrow>
       if on = ep then (case arr_get (sch_handles s) idx of
         None \<Rightarrow> (Panic, s)
       | Some None \<Rightarrow> unblock_scan ep rest s
       | Some (Some handle) \<Rightarrow>
           let s = s\<lparr>sch_states := (sch_states s)[idx := TaskReady]\<rparr> in
           (case enqueue handle (sch_ready s) of
             (Ret (Ok _), r) \<Rightarrow> (Ret (), s\<lparr>sch_ready := r\<rparr>)
           | (Ret (Err _), r) \<Rightarrow> (Panic, s)
           | (Panic, r) \<Rightarrow> (Panic, s)
           | (Diverge, r) \<Rightarrow> (Diverge, s)))
       else unblock_scan ep rest s
   | Some _ \<Rightarrow> unblock_scan ep rest s)"

definition unblock_receiver_on :: "EndpointHandle \<Rightarrow> 'c Scheduler \<Rightarrow> unit run \<times> 'c Scheduler" where
  "unblock_receiver_on ep s = unblock_scan ep [0..<TASK_ARENA_CAPACITY] s"

text \<open>Make the dequeued task the running one: the common tail of \<open>start_prelude\<close>, \<open>yield_now\<close>
  and \<open>ipc_recv_and_yield\<close>.\<close>

definition dispatch :: "TaskHandle \<Rightarrow> 'c Scheduler \<Rightarrow> nat run \<times> 'c Scheduler" where
  "dispatch next_handle s =
     (let next_idx = hidx next_handle in
      if next_idx < length (sch_states s)
      then (Ret next_idx, s\<lparr>sch_states := (sch_states s)[next_idx := TaskReady],
              sch_current := Some next_handle\<rparr>)
      else (Panic, s))"

section \<open>Starting and yielding\<close>

definition start_prelude :: "'c Scheduler \<Rightarrow> nat run \<times> 'c Scheduler" where
  "start_prelude s = (case dequeue (sch_ready s) of
     (Ret (Some next_handle), r) \<Rightarrow> dispatch next_handle (s\<lparr>sch_ready := r\<rparr>)
   | (Ret None, r) \<Rightarrow> (Panic, s\<lparr>sch_ready := r\<rparr>)
   | (Panic, r) \<Rightarrow> (Panic, s\<lparr>sch_ready := r\<rparr>)
   | (Diverge, r) \<Rightarrow> (Diverge, s\<lparr>sch_ready := r\<rparr>))"

text \<open>The switch itself, on the machine's registers: \<open>save\<close> reads what a context holds out of the
  machine, \<open>load\<close> puts a context into it. Both are the board's.\<close>

definition context_switch ::
  "('m \<Rightarrow> 'c) \<Rightarrow> ('c \<Rightarrow> 'm \<Rightarrow> 'm) \<Rightarrow> nat \<Rightarrow> nat \<Rightarrow> 'c Scheduler \<times> 'm \<Rightarrow> 'c Scheduler \<times> 'm" where
  "context_switch save load cur nxt sm = (case sm of (s, m) \<Rightarrow>
     (s\<lparr>sch_contexts := (sch_contexts s)[cur := save m]\<rparr>, load (sch_contexts s ! nxt) m))"

text \<open>\<open>start\<close> takes its \<open>IrqGuard\<close> (\<open>disable\<close> is the CPU's \<open>disable_irqs\<close>) and switches away from a
  context that is dropped; the guard is on the frame that is never resumed, so it is not dropped.\<close>

definition start ::
  "('m \<Rightarrow> 'i \<times> 'm) \<Rightarrow> ('c \<Rightarrow> 'm \<Rightarrow> 'm) \<Rightarrow> 'c Scheduler \<times> 'm \<Rightarrow> unit run \<times> 'c Scheduler \<times> 'm" where
  "start disable load sm = (case sm of (s, m) \<Rightarrow>
     (case start_prelude s of
        (Ret next_idx, s') \<Rightarrow>
          (case disable m of (prev, m) \<Rightarrow> (Ret (), (s', load (sch_contexts s' ! next_idx) m)))
      | (Panic, s') \<Rightarrow> (Panic, (s', m))
      | (Diverge, s') \<Rightarrow> (Diverge, (s', m))))"

text \<open>The switch window of \<open>yield_now\<close> and \<open>ipc_recv_and_yield\<close>: an \<open>IrqGuard\<close>, then the switch. The
  guard's \<open>prev\<close> stays on the stack of the task that is switched out; it is dropped, that is, handed
  to \<open>restore_irq_state\<close>, when that task runs again.\<close>

definition guarded_switch ::
  "('m \<Rightarrow> 'i \<times> 'm) \<Rightarrow> ('m \<Rightarrow> 'c) \<Rightarrow> ('c \<Rightarrow> 'm \<Rightarrow> 'm) \<Rightarrow> nat \<Rightarrow> nat \<Rightarrow> 'c Scheduler \<times> 'm \<Rightarrow>
   'i \<times> 'c Scheduler \<times> 'm" where
  "guarded_switch disable save load cur nxt sm = (case sm of (s, m) \<Rightarrow>
     (case disable m of (prev, m) \<Rightarrow> (prev, context_switch save load cur nxt (s, m))))"

text \<open>\<open>debug_assert_ne!(current_idx, next_idx)\<close> before each switch.\<close>

definition switch_window ::
  "bool \<Rightarrow> nat \<Rightarrow> nat \<Rightarrow> resume \<Rightarrow> 'c Scheduler \<Rightarrow>
   (SchedError, 'r progress) result run \<times> 'c Scheduler" where
  "switch_window dbg current_idx next_idx k s =
     (if dbg \<and> current_idx = next_idx then (Panic, s)
      else (Ret (Ok (SwitchTo current_idx next_idx k)), s))"

definition yield_now ::
  "bool \<Rightarrow> 'c Scheduler \<Rightarrow> (SchedError, unit progress) result run \<times> 'c Scheduler" where
  "yield_now dbg s =
     and_then (Ret (ok_or (sch_current s) NoCurrentTask), s) (\<lambda>current_handle s.
       let current_idx = hidx current_handle in
       if \<not> current_idx < length (sch_states s) then (Panic, s)
       else
         let s = s\<lparr>sch_states := (sch_states s)[current_idx := TaskReady]\<rparr> in
         case enqueue current_handle (sch_ready s) of
           (Ret (Ok _), r) \<Rightarrow>
             (case dequeue r of
                (Ret (Some next_handle), r') \<Rightarrow>
                  let s = s\<lparr>sch_ready := r'\<rparr> in
                  if next_handle \<noteq> current_handle
                  then and_then (plain (dispatch next_handle s)) (\<lambda>next_idx s.
                    switch_window dbg current_idx next_idx ResumeYield s)
                  else (Ret (Ok (Done ())), s)
              | (Ret None, r') \<Rightarrow> (Ret (Ok (Done ())), s\<lparr>sch_ready := r'\<rparr>)
              | (Panic, r') \<Rightarrow> (Panic, s\<lparr>sch_ready := r'\<rparr>)
              | (Diverge, r') \<Rightarrow> (Diverge, s\<lparr>sch_ready := r'\<rparr>))
         | (Ret (Err _), r) \<Rightarrow> (Panic, s)
         | (Panic, r) \<Rightarrow> (Panic, s)
         | (Diverge, r) \<Rightarrow> (Diverge, s))"

section \<open>The IPC bridge\<close>

type_synonym 'c kernel = "'c Scheduler \<times> ipc_state"

definition ipc_send_and_yield ::
  "bool \<Rightarrow> EndpointArena \<Rightarrow> CapHandle \<Rightarrow> Message \<Rightarrow> CapHandle option \<Rightarrow> 'c kernel \<Rightarrow>
   (SchedError, SendOutcome progress) result run \<times> 'c kernel" where
  "ipc_send_and_yield dbg ep_arena ep_cap msg transfer k =
     and_then (resolve_ep_cap (snd (snd k)) ep_cap, k) (\<lambda>ep_handle k.
     and_then (map_err_run IpcErr (on_snd (ipc_send dbg ep_arena ep_cap msg transfer) k)) (\<lambda>outcome k.
       if outcome = Delivered
       then and_then (plain (on_fst (unblock_receiver_on ep_handle) k)) (\<lambda>_ k.
         and_then (on_fst (yield_now dbg) k) (\<lambda>p k.
           (Ret (Ok (case p of
              Done _ \<Rightarrow> Done outcome
            | SwitchTo cur nxt _ \<Rightarrow> SwitchTo cur nxt (ResumeSend outcome))), k)))
       else (Ret (Ok (Done outcome)), k)))"

text \<open>Phase 2 of \<open>ipc_recv_and_yield\<close>: block the running task and pick the next one, or restore
  the scheduler and report the deadlock.\<close>

definition block_current ::
  "bool \<Rightarrow> EndpointHandle \<Rightarrow> CapHandle \<Rightarrow> 'c Scheduler \<Rightarrow>
   (SchedError, 'r progress) result run \<times> 'c Scheduler" where
  "block_current dbg ep_handle ep_cap s =
     and_then (Ret (ok_or (sch_current s) NoCurrentTask), s) (\<lambda>current_handle s.
       let current_idx = hidx current_handle in
       case arr_get (sch_states s) current_idx of
         None \<Rightarrow> (Panic, s)
       | Some prior_state \<Rightarrow>
           if dbg \<and> prior_state \<noteq> TaskReady then (Panic, s)
           else
             let s = s\<lparr>sch_states := (sch_states s)[current_idx := TaskBlocked ep_handle], sch_current := None\<rparr>
             in case dequeue (sch_ready s) of
               (Ret (Some next_handle), r) \<Rightarrow>
                 and_then (plain (dispatch next_handle (s\<lparr>sch_ready := r\<rparr>))) (\<lambda>next_idx s.
                   switch_window dbg current_idx next_idx (ResumeRecv ep_cap) s)
             | (Ret None, r) \<Rightarrow> (Ret (Err Deadlock),
                 s\<lparr>sch_ready := r, sch_states := (sch_states s)[current_idx := prior_state],
                   sch_current := Some current_handle\<rparr>)
             | (Panic, r) \<Rightarrow> (Panic, s\<lparr>sch_ready := r\<rparr>)
             | (Diverge, r) \<Rightarrow> (Diverge, s\<lparr>sch_ready := r\<rparr>))"

definition ipc_recv_and_yield ::
  "bool \<Rightarrow> EndpointArena \<Rightarrow> CapHandle \<Rightarrow> 'c kernel \<Rightarrow>
   (SchedError, RecvOutcome progress) result run \<times> 'c kernel" where
  "ipc_recv_and_yield dbg ep_arena ep_cap k =
     and_then (resolve_ep_cap (snd (snd k)) ep_cap, k) (\<lambda>ep_handle k.
     and_then (map_err_run IpcErr (on_snd (ipc_recv dbg ep_arena ep_cap) k)) (\<lambda>outcome k.
       if outcome \<noteq> Pending then (Ret (Ok (Done outcome)), k)
       else on_fst (block_current dbg ep_handle ep_cap) k))"

text \<open>Phase 3, when the task runs again.\<close>

definition ipc_recv_resume ::
  "bool \<Rightarrow> EndpointArena \<Rightarrow> CapHandle \<Rightarrow> ipc_state \<Rightarrow>
   (SchedError, RecvOutcome) result run \<times> ipc_state" where
  "ipc_recv_resume dbg ep_arena ep_cap qt =
     and_then (map_err_run IpcErr (ipc_recv dbg ep_arena ep_cap qt)) (\<lambda>outcome qt.
       if outcome = Pending then (Ret (Err (IpcErr PendingAfterResume)), qt)
       else (Ret (Ok outcome), qt))"

end
