(* ===== verification/Ipc_Properties.thy ===== *)
theory Ipc_Properties
  imports Ipc
begin

text \<open>
  What IPC guarantees. The queues are read through \<open>endpoints\<close>, the map from live endpoint
  handles to states: slots left behind by destroyed endpoints do not show in it. \<open>ipc_send\<close> and
  \<open>ipc_recv\<close> are shown to be the transitions of the four-state machine on that map, to move
  capabilities without loss or duplication, and not to panic.
\<close>

section \<open>The abstract state\<close>

definition ep_idx :: "EndpointHandle \<Rightarrow> nat" where
  "ep_idx h = unat (sid_index (endpoint_slot h))"

definition ep_gen :: "EndpointHandle \<Rightarrow> u32" where
  "ep_gen h = sid_generation (endpoint_slot h)"

definition live_ep :: "EndpointArena \<Rightarrow> EndpointHandle \<Rightarrow> bool" where
  "live_ep ar h \<longleftrightarrow> get ar (endpoint_slot h) \<noteq> None"

definition eff :: "IpcQueues \<Rightarrow> EndpointHandle \<Rightarrow> EndpointState" where
  "eff q h = (if iq_generations q ! ep_idx h = ep_gen h then iq_states q ! ep_idx h else Idle)"

definition endpoints :: "EndpointArena \<Rightarrow> IpcQueues \<Rightarrow> EndpointHandle \<rightharpoonup> EndpointState" where
  "endpoints ar q h = (if live_ep ar h then Some (eff q h) else None)"

definition queues_wf :: "EndpointArena \<Rightarrow> IpcQueues \<Rightarrow> bool" where
  "queues_wf ar q \<longleftrightarrow> length (arena_slots ar) = ENDPOINT_ARENA_CAPACITY \<and>
     length (iq_states q) = ENDPOINT_ARENA_CAPACITY \<and>
     length (iq_generations q) = ENDPOINT_ARENA_CAPACITY"

text \<open>The drain-before-destroy discipline the code asks of future destroy paths: a live endpoint
  whose slot still shows an older generation finds no capability there.\<close>

definition drained :: "EndpointArena \<Rightarrow> IpcQueues \<Rightarrow> bool" where
  "drained ar q \<longleftrightarrow> (\<forall>h. live_ep ar h \<longrightarrow> iq_generations q ! ep_idx h \<noteq> ep_gen h \<longrightarrow>
     \<not> carries_cap (iq_states q ! ep_idx h))"

lemma live_ep_range: "live_ep ar h \<Longrightarrow> ep_idx h < length (arena_slots ar)"
  by (auto simp: live_ep_def get_def ep_idx_def arr_get_def split: if_splits)

lemma live_ep_unique: "live_ep ar h \<Longrightarrow> live_ep ar k \<Longrightarrow> ep_idx h = ep_idx k \<Longrightarrow> h = k"
  by (cases h; cases k)
    (auto simp: live_ep_def get_def ep_idx_def arr_get_def SlotId_eq_iff split: if_splits)

text \<open>What looking at an endpoint does to the queues.\<close>

definition settle :: "EndpointHandle \<Rightarrow> IpcQueues \<Rightarrow> IpcQueues" where
  "settle h q = (if iq_generations q ! ep_idx h = ep_gen h then q
     else \<lparr>iq_states = (iq_states q)[ep_idx h := Idle],
           iq_generations = (iq_generations q)[ep_idx h := ep_gen h]\<rparr>)"

lemma settle_lengths [simp]:
  "length (iq_states (settle h q)) = length (iq_states q)"
  "length (iq_generations (settle h q)) = length (iq_generations q)"
  by (simp_all add: settle_def)

lemma set_state_simps [simp]:
  "length (iq_states (set_state k st q)) = length (iq_states q)"
  "iq_generations (set_state k st q) = iq_generations q"
  "set_state k st (set_state k st' q) = set_state k st q"
  by (simp_all add: set_state_def)

lemma queues_wf_settle [simp]: "queues_wf ar (settle h q) = queues_wf ar q"
  by (simp add: queues_wf_def)

lemma queues_wf_set_state [simp]: "queues_wf ar (set_state k st q) = queues_wf ar q"
  by (simp add: queues_wf_def)

lemma queues_wf_range:
  "queues_wf ar q \<Longrightarrow> live_ep ar h \<Longrightarrow> ep_idx h < length (iq_states q) \<and> ep_idx h < length (iq_generations q)"
  using live_ep_range [of ar h] by (simp add: queues_wf_def)

lemma settle_state:
  assumes "queues_wf ar q" and "live_ep ar h"
  shows "iq_states (settle h q) ! ep_idx h = eff q h" "iq_generations (settle h q) ! ep_idx h = ep_gen h"
  using queues_wf_range [OF assms] by (auto simp: settle_def eff_def)

lemma settle_settle [simp]:
  assumes "queues_wf ar q" and "live_ep ar h"
  shows "settle h (settle h q) = settle h q"
  using settle_state(2) [OF assms] by (subst settle_def) simp

lemma eff_settle:
  assumes "queues_wf ar q" and "live_ep ar h" and "live_ep ar k"
  shows "eff (settle h q) k = eff q k"
proof (cases "k = h")
  case True
  then show ?thesis using settle_state [OF assms(1,2)] by (simp add: eff_def)
next
  case False
  then have "ep_idx k \<noteq> ep_idx h" using live_ep_unique assms by blast
  then show ?thesis by (simp add: eff_def settle_def)
qed

lemma endpoints_settle:
  "queues_wf ar q \<Longrightarrow> live_ep ar h \<Longrightarrow> endpoints ar (settle h q) = endpoints ar q"
  by (auto simp: endpoints_def eff_settle)

lemma endpoints_set_state:
  assumes "queues_wf ar q" and "live_ep ar h"
  shows "endpoints ar (set_state (ep_idx h) st (settle h q)) = (endpoints ar q)(h \<mapsto> st)"
proof
  fix k
  have len: "ep_idx h < length (iq_states (settle h q))" using queues_wf_range [OF assms] by simp
  show "endpoints ar (set_state (ep_idx h) st (settle h q)) k = ((endpoints ar q)(h \<mapsto> st)) k"
  proof (cases "live_ep ar k \<and> k \<noteq> h")
    case True
    then have "ep_idx k \<noteq> ep_idx h" using live_ep_unique assms(2) by blast
    then have "eff (set_state (ep_idx h) st (settle h q)) k = eff (settle h q) k"
      by (simp add: eff_def set_state_def)
    with True show ?thesis using eff_settle [OF assms, of k] by (simp add: endpoints_def)
  next
    case False
    then show ?thesis
      using settle_state(2) [OF assms] assms(2) len
      by (cases "k = h") (auto simp: endpoints_def eff_def set_state_def)
  qed
qed

lemma drained_settle:
  assumes "queues_wf ar q" and "live_ep ar h" and "drained ar q"
  shows "drained ar (settle h q)"
  unfolding drained_def
proof (intro allI impI)
  fix k assume k: "live_ep ar k" "iq_generations (settle h q) ! ep_idx k \<noteq> ep_gen k"
  then have "k \<noteq> h" using settle_state(2) [OF assms(1,2)] by auto
  then have "ep_idx k \<noteq> ep_idx h" using live_ep_unique assms(2) k(1) by blast
  then have "iq_states (settle h q) ! ep_idx k = iq_states q ! ep_idx k"
    "iq_generations (settle h q) ! ep_idx k = iq_generations q ! ep_idx k"
    by (simp_all add: settle_def)
  with k assms(3) show "\<not> carries_cap (iq_states (settle h q) ! ep_idx k)"
    by (simp add: drained_def)
qed

lemma drained_set_state:
  assumes "queues_wf ar q" and "live_ep ar h" and "drained ar q"
  shows "drained ar (set_state (ep_idx h) st (settle h q))"
  unfolding drained_def
proof (intro allI impI)
  fix k assume k: "live_ep ar k" "iq_generations (set_state (ep_idx h) st (settle h q)) ! ep_idx k \<noteq> ep_gen k"
  then have "k \<noteq> h" using settle_state(2) [OF assms(1,2)] by auto
  then have "ep_idx k \<noteq> ep_idx h" using live_ep_unique assms(2) k(1) by blast
  then have "iq_states (set_state (ep_idx h) st (settle h q)) ! ep_idx k = iq_states (settle h q) ! ep_idx k"
    by (simp add: set_state_def)
  with k drained_settle [OF assms] show "\<not> carries_cap (iq_states (set_state (ep_idx h) st (settle h q)) ! ep_idx k)"
    by (simp add: drained_def)
qed

section \<open>The helpers\<close>

lemma reset_eq:
  assumes "queues_wf ar q" and "live_ep ar h" and "dbg \<longrightarrow> drained ar q"
  shows "reset_if_stale_generation dbg h q = (Ret (ep_idx h), settle h q)"
  using queues_wf_range [OF assms(1,2)] assms(2,3)
  by (auto simp: reset_if_stale_generation_def Let_def settle_def drained_def ep_idx_def ep_gen_def)

lemma peek_eq:
  assumes "queues_wf ar q" and "live_ep ar h" and "dbg \<longrightarrow> drained ar q"
  shows "peek_state dbg h q = (Ret (eff q h), settle h q)"
  by (simp add: peek_state_def reset_eq [OF assms] settle_state [OF assms(1,2)])

lemma state_of_eq:
  assumes "queues_wf ar q" and "live_ep ar h" and "dbg \<longrightarrow> drained ar q"
  shows "state_of dbg h (settle h q) = (Ret (ep_idx h), settle h q)"
proof -
  have "state_of dbg h (settle h q) = (Ret (ep_idx h), settle h (settle h q))"
    unfolding state_of_def by (rule reset_eq) (use assms drained_settle in auto)
  then show ?thesis using assms by simp
qed

text \<open>The endpoint a handle gives access to, with a right.\<close>

definition ep_of :: "CapabilityTable \<Rightarrow> CapHandle \<Rightarrow> CapRights \<Rightarrow> EndpointHandle option" where
  "ep_of t h r = (case table_peek t h of
     None \<Rightarrow> None
   | Some c \<Rightarrow> if rights_contains (cap_rights c) r
       then (case cap_object c of ObjEndpoint ep \<Rightarrow> Some ep | _ \<Rightarrow> None) else None)"

lemma validate_ep_cap_eq: "validate_ep_cap t h r = Ret (ok_or (ep_of t h r) InvalidCapability)"
  by (auto simp: validate_ep_cap_def ep_of_def lookup_peek split: option.splits CapObject.splits)

definition may_transfer :: "CapabilityTable \<Rightarrow> CapHandle option \<Rightarrow> bool" where
  "may_transfer t transfer = (case transfer of
     None \<Rightarrow> True
   | Some x \<Rightarrow> (case table_peek t x of
       None \<Rightarrow> False | Some c \<Rightarrow> rights_contains (cap_rights c) TRANSFER))"

lemma check_transfer_eq:
  "check_transfer transfer (q, t) =
     (Ret (if may_transfer t transfer then Ok () else Err InvalidTransferCap), (q, t))"
  by (auto simp: check_transfer_def may_transfer_def lookup_peek split: option.splits)

definition can_take :: "CapabilityTable \<Rightarrow> CapHandle option \<Rightarrow> bool" where
  "can_take t transfer = (case transfer of None \<Rightarrow> True | Some x \<Rightarrow> take_check t x = None)"

lemma take_cap_err:
  "\<not> can_take t transfer \<Longrightarrow> take_cap_if_some transfer t = (Ret (Err InvalidTransferCap), t)"
  by (auto simp: can_take_def take_cap_if_some_def cap_take_err split: option.splits)

lemma take_cap_ok:
  assumes "cap_wf t" and "can_take t transfer"
  obtains (none) "transfer = None" "take_cap_if_some transfer t = (Ret (Ok None), t)"
  | (some) x c t' where "transfer = Some x" "take_cap_if_some transfer t = (Ret (Ok (Some c)), t')"
      "table_rem x t = Some (c, t')"
proof (cases transfer)
  case None
  then show ?thesis using none by (simp add: take_cap_if_some_def)
next
  case (Some x)
  with assms have "take_check t x = None" by (simp add: can_take_def)
  with assms(1) obtain c t' where "cap_take x t = (Ret (Ok c), t')"
    by (rule cap_take_ok)
  then show ?thesis using some Some by (simp add: take_cap_if_some_def table_rem_def)
qed

lemma install_cap_ok:
  assumes "cap_wf t" and "cap \<noteq> None \<longrightarrow> \<not> is_full t"
  obtains (none) "cap = None" "install_cap_if_some cap t = (Ret (Ok None), t)"
  | (some) c h t' where "cap = Some c" "install_cap_if_some cap t = (Ret (Ok (Some h)), t')"
      "table_put c t = Some (h, t')"
proof (cases cap)
  case None
  then show ?thesis using none by (simp add: install_cap_if_some_def)
next
  case (Some c)
  show ?thesis using assms(1)
  proof (cases rule: insert_root_cases [where t = t and c = c])
    case full
    with assms(2) Some show ?thesis by (simp add: is_full_def)
  next
    case (ok n t')
    then show ?thesis using some Some by (simp add: install_cap_if_some_def table_put_def)
  qed
qed


section \<open>The operations, branch by branch\<close>

definition send_verdict ::
  "EndpointArena \<Rightarrow> IpcQueues \<Rightarrow> CapabilityTable \<Rightarrow> CapHandle \<Rightarrow> CapHandle option \<Rightarrow>
   (IpcError, EndpointHandle) result" where
  "send_verdict ar q t ep_cap transfer = (case ep_of t ep_cap SEND of
     None \<Rightarrow> Err InvalidCapability
   | Some h \<Rightarrow>
       if \<not> may_transfer t transfer then Err InvalidTransferCap
       else if \<not> live_ep ar h then Err InvalidCapability
       else if holds_message (eff q h) then Err QueueFull
       else if \<not> can_take t transfer then Err InvalidTransferCap else Ok h)"

definition recv_verdict ::
  "EndpointArena \<Rightarrow> IpcQueues \<Rightarrow> CapabilityTable \<Rightarrow> CapHandle \<Rightarrow> (IpcError, EndpointHandle) result" where
  "recv_verdict ar q t ep_cap = (case ep_of t ep_cap RECV of
     None \<Rightarrow> Err InvalidCapability
   | Some h \<Rightarrow>
       if \<not> live_ep ar h then Err InvalidCapability
       else if carries_cap (eff q h) \<and> is_full t then Err ReceiverTableFull
       else if eff q h = RecvWaiting then Err QueueFull else Ok h)"

lemma get_live: "live_ep ar h \<Longrightarrow> \<exists>e. get ar (endpoint_slot h) = Some e"
  "\<not> live_ep ar h \<Longrightarrow> get ar (endpoint_slot h) = None"
  by (auto simp: live_ep_def)

text \<open>The prefix common to all paths of \<open>ipc_send\<close> that reach the queues.\<close>

lemma ipc_send_reach:
  assumes "queues_wf ar q" and "dbg \<longrightarrow> drained ar q"
    and "ep_of t ep_cap SEND = Some h" and "may_transfer t transfer" and "live_ep ar h"
  shows "ipc_send dbg ar ep_cap msg transfer (q, t) =
    (if holds_message (eff q h) then (Ret (Err QueueFull), (settle h q, t))
     else and_then (on_snd (take_cap_if_some transfer) (settle h q, t)) (\<lambda>owned s.
       and_then (plain (on_fst (state_of dbg h) s)) (\<lambda>idx s.
       case s of (q, t) \<Rightarrow> (case iq_states q ! idx of
         RecvWaiting \<Rightarrow> (Ret (Ok Delivered), (set_state idx (RecvComplete msg owned) q, t))
       | Idle \<Rightarrow> (Ret (Ok Enqueued), (set_state idx (SendPending msg owned) q, t))
       | SendPending _ _ \<Rightarrow> (Panic, (set_state idx Idle q, t))
       | RecvComplete _ _ \<Rightarrow> (Panic, (set_state idx Idle q, t))))))"
  using get_live(1) [OF assms(5)] peek_eq [OF assms(1,5,2)] assms(3,4)
  by (auto simp: ipc_send_def validate_ep_cap_eq check_transfer_eq)

lemma ipc_send_err:
  assumes "queues_wf ar q" and "dbg \<longrightarrow> drained ar q"
    and "send_verdict ar q t ep_cap transfer = Err e"
  shows "\<exists>q'. ipc_send dbg ar ep_cap msg transfer (q, t) = (Ret (Err e), (q', t)) \<and>
    (q' = q \<or> (\<exists>h. live_ep ar h \<and> q' = settle h q))"
proof (cases "ep_of t ep_cap SEND")
  case None
  with assms(3) show ?thesis by (auto simp: send_verdict_def ipc_send_def validate_ep_cap_eq)
next
  case (Some h)
  show ?thesis
  proof (cases "may_transfer t transfer \<and> live_ep ar h")
    case True
    then show ?thesis
      using assms(3) ipc_send_reach [OF assms(1,2) Some, of transfer msg] Some take_cap_err
      by (auto simp: send_verdict_def split: if_splits)
  next
    case False
    then show ?thesis
      using assms(3) Some get_live(2) [of ar h]
      by (auto simp: send_verdict_def ipc_send_def validate_ep_cap_eq check_transfer_eq split: if_splits)
  qed
qed

definition sent :: "Message \<Rightarrow> Capability option \<Rightarrow> EndpointState \<Rightarrow> EndpointState" where
  "sent msg cap st = (if st = RecvWaiting then RecvComplete msg cap else SendPending msg cap)"

definition send_outcome :: "EndpointState \<Rightarrow> SendOutcome" where
  "send_outcome st = (if st = RecvWaiting then Delivered else Enqueued)"

lemma ipc_send_ok:
  assumes "cap_wf t" and "queues_wf ar q" and "dbg \<longrightarrow> drained ar q"
    and "send_verdict ar q t ep_cap transfer = Ok h"
    and "take_cap_if_some transfer t = (Ret (Ok owned), t')"
  shows "ipc_send dbg ar ep_cap msg transfer (q, t) =
    (Ret (Ok (send_outcome (eff q h))),
     (set_state (ep_idx h) (sent msg owned (eff q h)) (settle h q), t'))"
proof -
  have h: "ep_of t ep_cap SEND = Some h" "may_transfer t transfer" "live_ep ar h"
    "\<not> holds_message (eff q h)"
    using assms(4) by (auto simp: send_verdict_def split: option.splits if_splits)
  have "eff q h = Idle \<or> eff q h = RecvWaiting" using h(4) by (cases "eff q h") auto
  then show ?thesis
    using ipc_send_reach [OF assms(2,3) h(1-3)] h(4) assms(5) state_of_eq [OF assms(2) h(3) assms(3)]
      settle_state(1) [OF assms(2) h(3)]
    by (auto simp: sent_def send_outcome_def)
qed

lemma send_verdict_Ok:
  assumes "send_verdict ar q t ep_cap transfer = Ok h"
  shows "ep_of t ep_cap SEND = Some h" "may_transfer t transfer" "live_ep ar h"
    "\<not> holds_message (eff q h)" "can_take t transfer"
  using assms by (auto simp: send_verdict_def split: option.splits if_splits)

lemma ipc_recv_reach:
  assumes "queues_wf ar q" and "dbg \<longrightarrow> drained ar q"
    and "ep_of t ep_cap RECV = Some h" and "live_ep ar h"
  shows "ipc_recv dbg ar ep_cap (q, t) =
    (if carries_cap (eff q h) \<and> is_full t then (Ret (Err ReceiverTableFull), (settle h q, t))
     else let q' = set_state (ep_idx h) Idle (settle h q) in
       case eff q h of
         SendPending msg cap \<Rightarrow> and_then (on_snd (install_cap_if_some cap) (q', t)) (\<lambda>xfer s.
               (Ret (Ok (Received msg xfer)), s))
       | RecvComplete msg cap \<Rightarrow> and_then (on_snd (install_cap_if_some cap) (q', t)) (\<lambda>xfer s.
               (Ret (Ok (Received msg xfer)), s))
       | Idle \<Rightarrow> (Ret (Ok Pending), (set_state (ep_idx h) RecvWaiting (settle h q), t))
       | RecvWaiting \<Rightarrow> (Ret (Err QueueFull), (set_state (ep_idx h) RecvWaiting (settle h q), t)))"
  using get_live(1) [OF assms(4)] peek_eq [OF assms(1,4,2)] state_of_eq [OF assms(1,4,2)]
    settle_state(1) [OF assms(1,4)] assms(3)
  by (auto simp: ipc_recv_def validate_ep_cap_eq Let_def split: EndpointState.splits)

lemma ipc_recv_err:
  assumes "queues_wf ar q" and "dbg \<longrightarrow> drained ar q" and "recv_verdict ar q t ep_cap = Err e"
  shows "\<exists>q'. ipc_recv dbg ar ep_cap (q, t) = (Ret (Err e), (q', t)) \<and>
    (q' = q \<or> (\<exists>h. live_ep ar h \<and> (q' = settle h q \<or>
      eff q h = RecvWaiting \<and> q' = set_state (ep_idx h) RecvWaiting (settle h q))))"
proof (cases "ep_of t ep_cap RECV")
  case None
  with assms(3) show ?thesis by (auto simp: recv_verdict_def ipc_recv_def validate_ep_cap_eq)
next
  case (Some h)
  show ?thesis
  proof (cases "live_ep ar h")
    case True
    then show ?thesis
      using assms(3) ipc_recv_reach [OF assms(1,2) Some True] Some
      by (auto simp: recv_verdict_def Let_def split: if_splits)
  next
    case False
    then show ?thesis
      using assms(3) Some get_live(2) [of ar h]
      by (auto simp: recv_verdict_def ipc_recv_def validate_ep_cap_eq split: if_splits)
  qed
qed

lemma recv_verdict_Ok:
  assumes "recv_verdict ar q t ep_cap = Ok h"
  shows "ep_of t ep_cap RECV = Some h" "live_ep ar h"
    "\<not> (carries_cap (eff q h) \<and> is_full t)" "eff q h \<noteq> RecvWaiting"
  using assms by (auto simp: recv_verdict_def split: option.splits if_splits)

text \<open>The message an endpoint holds.\<close>

fun mailbox :: "EndpointState \<Rightarrow> (Message \<times> Capability option) option" where
  "mailbox (SendPending m c) = Some (m, c)"
| "mailbox (RecvComplete m c) = Some (m, c)"
| "mailbox _ = None"

lemma carries_cap_mailbox: "carries_cap st \<longleftrightarrow> (\<exists>m c. mailbox st = Some (m, Some c))"
  by (cases st rule: carries_cap.cases) auto

lemma ipc_recv_pending:
  assumes "queues_wf ar q" and "dbg \<longrightarrow> drained ar q"
    and "recv_verdict ar q t ep_cap = Ok h" and "mailbox (eff q h) = None"
  shows "ipc_recv dbg ar ep_cap (q, t) =
    (Ret (Ok Pending), (set_state (ep_idx h) RecvWaiting (settle h q), t))"
proof -
  note h = recv_verdict_Ok [OF assms(3)]
  have "eff q h = Idle" using h(4) assms(4) by (cases "eff q h") auto
  then show ?thesis using ipc_recv_reach [OF assms(1,2) h(1,2)] by simp
qed

lemma ipc_recv_message:
  assumes "queues_wf ar q" and "dbg \<longrightarrow> drained ar q"
    and "recv_verdict ar q t ep_cap = Ok h" and "mailbox (eff q h) = Some (msg, cap)"
    and "install_cap_if_some cap t = (Ret (Ok xfer), t')"
  shows "ipc_recv dbg ar ep_cap (q, t) =
    (Ret (Ok (Received msg xfer)), (set_state (ep_idx h) Idle (settle h q), t'))"
proof -
  note h = recv_verdict_Ok [OF assms(3)]
  have "eff q h = SendPending msg cap \<or> eff q h = RecvComplete msg cap"
    using assms(4) by (cases "eff q h") auto
  then show ?thesis using ipc_recv_reach [OF assms(1,2) h(1,2)] h(3) assms(5) by (auto simp: Let_def)
qed


section \<open>Capabilities in flight\<close>

fun in_flight :: "EndpointState \<Rightarrow> Capability multiset" where
  "in_flight (SendPending _ (Some c)) = {#c#}"
| "in_flight (RecvComplete _ (Some c)) = {#c#}"
| "in_flight _ = {#}"

definition carried :: "IpcQueues \<Rightarrow> Capability multiset" where
  "carried q = sum_list (map in_flight (iq_states q))"

lemma sum_list_swap:
  "k < length xs \<Longrightarrow> sum_list (xs[k := x]) + xs ! k = sum_list xs + (x :: 'b :: comm_monoid_add)"
  by (induction xs arbitrary: k) (auto simp: ac_simps split: nat.splits)

lemma carried_set_state:
  "k < length (iq_states q) \<Longrightarrow>
   carried (set_state k st q) + in_flight (iq_states q ! k) = carried q + in_flight st"
  using sum_list_swap [of k "map in_flight (iq_states q)" "in_flight st"]
  by (simp add: carried_def set_state_def map_update)

lemma in_flight_empty: "\<not> carries_cap st \<Longrightarrow> in_flight st = {#}"
  by (cases st rule: carries_cap.cases) auto

lemma in_flight_mailbox:
  "in_flight st = (case mailbox st of Some (m, Some c) \<Rightarrow> {#c#} | _ \<Rightarrow> {#})"
  by (cases st rule: carries_cap.cases) auto

lemma carried_settle:
  assumes "queues_wf ar q" and "live_ep ar h" and "drained ar q"
  shows "carried (settle h q) = carried q"
proof (cases "iq_generations q ! ep_idx h = ep_gen h")
  case False
  then have "in_flight (iq_states q ! ep_idx h) = {#}"
    using assms(2,3) by (auto simp: drained_def intro: in_flight_empty)
  with carried_set_state [of "ep_idx h" q Idle] queues_wf_range [OF assms(1,2)] False show ?thesis
    by (simp add: settle_def carried_def set_state_def)
qed (simp add: settle_def)

lemma carried_transition:
  assumes "queues_wf ar q" and "live_ep ar h" and "drained ar q"
  shows "carried (set_state (ep_idx h) st (settle h q)) + in_flight (eff q h) = carried q + in_flight st"
  using carried_set_state [of "ep_idx h" "settle h q" st] queues_wf_range [OF assms(1,2)]
    settle_state(1) [OF assms(1,2)] carried_settle [OF assms]
  by simp

text \<open>Where a transferred capability comes from and where it goes.\<close>

definition left_table :: "CapHandle option \<Rightarrow> Capability option \<Rightarrow> CapabilityTable \<Rightarrow> CapabilityTable \<Rightarrow> bool" where
  "left_table transfer owned t t' = (case transfer of
     None \<Rightarrow> owned = None \<and> t' = t
   | Some x \<Rightarrow> \<exists>c. owned = Some c \<and> table_rem x t = Some (c, t'))"

definition entered_table :: "Capability option \<Rightarrow> CapHandle option \<Rightarrow> CapabilityTable \<Rightarrow> CapabilityTable \<Rightarrow> bool" where
  "entered_table cap xfer t t' = (case cap of
     None \<Rightarrow> xfer = None \<and> t' = t
   | Some c \<Rightarrow> \<exists>h. xfer = Some h \<and> table_put c t = Some (h, t'))"

definition cap_mset :: "Capability option \<Rightarrow> Capability multiset" where
  "cap_mset c = (case c of None \<Rightarrow> {#} | Some c \<Rightarrow> {#c#})"

lemma left_table_facts:
  assumes "cap_wf t" and "left_table transfer owned t t'"
  shows "cap_wf t'" "contents (table_peek t') + cap_mset owned = contents (table_peek t)"
  using assms cap_store.rem_invar cap_store.rem_contents
  by (force simp: left_table_def cap_mset_def split: option.splits)+


lemma entered_table_facts:
  assumes "cap_wf t" and "entered_table cap xfer t t'"
  shows "cap_wf t'" "contents (table_peek t') = contents (table_peek t) + cap_mset cap"
  using assms cap_store.put_invar cap_store.put_contents
  by (force simp: entered_table_def cap_mset_def split: option.splits)+

lemma in_flight_sent: "in_flight (sent msg owned st) = cap_mset owned"
  by (auto simp: sent_def cap_mset_def split: option.splits)

lemma in_flight_mail: "mailbox st = Some (m, c) \<Longrightarrow> in_flight st = cap_mset c"
  by (auto simp: in_flight_mailbox cap_mset_def split: option.splits)

lemma ipc_send_cases:
  assumes wf: "cap_wf t" "queues_wf ar q" and dr: "dbg \<longrightarrow> drained ar q"
  obtains (err) e q' where "send_verdict ar q t ep_cap transfer = Err e"
      "ipc_send dbg ar ep_cap msg transfer (q, t) = (Ret (Err e), (q', t))"
      "endpoints ar q' = endpoints ar q" "queues_wf ar q'" "drained ar q \<Longrightarrow> drained ar q'"
      "drained ar q \<Longrightarrow> carried q' = carried q"
  | (ok) h owned q' t' where "send_verdict ar q t ep_cap transfer = Ok h"
      "ipc_send dbg ar ep_cap msg transfer (q, t) = (Ret (Ok (send_outcome (eff q h))), (q', t'))"
      "left_table transfer owned t t'" "cap_wf t'"
      "endpoints ar q' = (endpoints ar q)(h \<mapsto> sent msg owned (eff q h))" "queues_wf ar q'"
      "drained ar q \<Longrightarrow> drained ar q'"
      "drained ar q \<Longrightarrow> contents (table_peek t') + carried q' = contents (table_peek t) + carried q"
proof (cases "send_verdict ar q t ep_cap transfer")
  case (Err e)
  from ipc_send_err [OF wf(2) dr Err] obtain q' where q':
    "ipc_send dbg ar ep_cap msg transfer (q, t) = (Ret (Err e), (q', t))"
    "q' = q \<or> (\<exists>h. live_ep ar h \<and> q' = settle h q)" by blast
  then show thesis
    using wf(2) endpoints_settle drained_settle carried_settle by (intro err [OF Err q'(1)]) auto
next
  case (Ok h)
  note v = send_verdict_Ok [OF Ok]
  obtain owned t' where tk: "take_cap_if_some transfer t = (Ret (Ok owned), t')"
    and lt: "left_table transfer owned t t'"
    using wf(1) v(5) by (cases rule: take_cap_ok) (auto simp: left_table_def)
  let ?q = "set_state (ep_idx h) (sent msg owned (eff q h)) (settle h q)"
  have "in_flight (eff q h) = {#}" using v(4) by (cases "eff q h") auto
  then have "contents (table_peek t') + carried ?q = contents (table_peek t) + carried q"
    if "drained ar q"
    using carried_transition [OF wf(2) v(3) that, of "sent msg owned (eff q h)"]
      left_table_facts(2) [OF wf(1) lt] in_flight_sent
    by (metis add.assoc add.commute add.right_neutral)
  then show thesis
    using ipc_send_ok [OF wf dr Ok tk] left_table_facts(1) [OF wf(1) lt] lt wf(2)
      endpoints_set_state [OF wf(2) v(3)] drained_set_state [OF wf(2) v(3)]
    by (intro ok [OF Ok, of ?q t' owned]) auto
qed

lemma ipc_recv_cases:
  assumes wf: "cap_wf t" "queues_wf ar q" and dr: "dbg \<longrightarrow> drained ar q"
  obtains (err) e q' where "recv_verdict ar q t ep_cap = Err e"
      "ipc_recv dbg ar ep_cap (q, t) = (Ret (Err e), (q', t))"
      "endpoints ar q' = endpoints ar q" "queues_wf ar q'" "drained ar q \<Longrightarrow> drained ar q'"
      "drained ar q \<Longrightarrow> carried q' = carried q"
  | (pending) h q' where "recv_verdict ar q t ep_cap = Ok h" "mailbox (eff q h) = None" "eff q h = Idle"
      "ipc_recv dbg ar ep_cap (q, t) = (Ret (Ok Pending), (q', t))"
      "endpoints ar q' = (endpoints ar q)(h \<mapsto> RecvWaiting)" "queues_wf ar q'"
      "drained ar q \<Longrightarrow> drained ar q'" "drained ar q \<Longrightarrow> carried q' = carried q"
  | (message) h msg cap xfer q' t' where "recv_verdict ar q t ep_cap = Ok h"
      "mailbox (eff q h) = Some (msg, cap)"
      "ipc_recv dbg ar ep_cap (q, t) = (Ret (Ok (Received msg xfer)), (q', t'))"
      "entered_table cap xfer t t'" "cap_wf t'"
      "endpoints ar q' = (endpoints ar q)(h \<mapsto> Idle)" "queues_wf ar q'"
      "drained ar q \<Longrightarrow> drained ar q'"
      "drained ar q \<Longrightarrow> contents (table_peek t') + carried q' = contents (table_peek t) + carried q"
proof (cases "recv_verdict ar q t ep_cap")
  case (Err e)
  from ipc_recv_err [OF wf(2) dr Err] obtain q' where q':
    "ipc_recv dbg ar ep_cap (q, t) = (Ret (Err e), (q', t))"
    "q' = q \<or> (\<exists>h. live_ep ar h \<and> (q' = settle h q \<or>
      eff q h = RecvWaiting \<and> q' = set_state (ep_idx h) RecvWaiting (settle h q)))" by blast
  have same: "endpoints ar q = (endpoints ar q)(h \<mapsto> RecvWaiting)"
    if "live_ep ar h" "eff q h = RecvWaiting" for h
    using that by (auto simp: endpoints_def fun_eq_iff)
  have cs: "carried (set_state (ep_idx h) RecvWaiting (settle h q)) = carried q"
    if "live_ep ar h" "eff q h = RecvWaiting" "drained ar q" for h
    using carried_transition [OF wf(2) that(1,3), of RecvWaiting] that(2) by simp
  show thesis
    using q' wf(2) endpoints_settle drained_settle carried_settle endpoints_set_state same
      drained_set_state cs
    by (intro err [OF Err q'(1)]) auto
next
  case (Ok h)
  note v = recv_verdict_Ok [OF Ok]
  show thesis
  proof (cases "mailbox (eff q h)")
    case None
    then have idle: "eff q h = Idle" using v(4) by (cases "eff q h") auto
    show thesis
      using ipc_recv_pending [OF wf(2) dr Ok None] wf(2) endpoints_set_state [OF wf(2) v(2)]
        drained_set_state [OF wf(2) v(2)] carried_transition [OF wf(2) v(2), of RecvWaiting] idle
      by (intro pending [OF Ok None idle, of "set_state (ep_idx h) RecvWaiting (settle h q)"]) auto
  next
    case (Some mc)
    obtain m c where mc: "mailbox (eff q h) = Some (m, c)" using Some by (cases mc) auto
    have room: "c \<noteq> None \<longrightarrow> \<not> is_full t" using v(3) mc by (auto simp: carries_cap_mailbox)
    obtain xfer t' where inst: "install_cap_if_some c t = (Ret (Ok xfer), t')"
      and et: "entered_table c xfer t t'"
      using wf(1) room by (cases rule: install_cap_ok) (auto simp: entered_table_def)
    let ?q = "set_state (ep_idx h) Idle (settle h q)"
    have "contents (table_peek t') + carried ?q = contents (table_peek t) + carried q" if "drained ar q"
      using carried_transition [OF wf(2) v(2) that, of Idle] entered_table_facts(2) [OF wf(1) et]
        in_flight_mail [OF mc] by (simp add: add.commute)
    then show thesis
      using ipc_recv_message [OF wf(2) dr Ok mc inst] entered_table_facts(1) [OF wf(1) et] et wf(2)
        endpoints_set_state [OF wf(2) v(2)] drained_set_state [OF wf(2) v(2)]
      by (intro message [OF Ok mc, of xfer ?q t']) auto
  qed
qed


section \<open>Properties\<close>

text \<open>C8. \<open>ipc_send\<close> is the send transition of the endpoint's state machine, on every branch. It
  succeeds exactly when the caller's handle names a live endpoint with \<open>SEND\<close>, the endpoint holds
  no message, and the capability to transfer (if any) is live, has \<open>TRANSFER\<close> and no children. Then
  the message is delivered to a waiting receiver or queued, the transferred capability has left the
  caller's table, and no other endpoint changes. Otherwise the error is the one of the first
  failing check, and neither the caller's table nor any live endpoint changes.\<close>

theorem ipc_send_refines:
  assumes "cap_wf t" and "queues_wf ar q" and "drained ar q"
  shows "\<exists>q' t'. queues_wf ar q' \<and> drained ar q' \<and> cap_wf t' \<and>
    (case send_verdict ar q t ep_cap transfer of
       Err e \<Rightarrow> ipc_send dbg ar ep_cap msg transfer (q, t) = (Ret (Err e), (q', t')) \<and>
         t' = t \<and> endpoints ar q' = endpoints ar q
     | Ok h \<Rightarrow> ipc_send dbg ar ep_cap msg transfer (q, t) =
           (Ret (Ok (if eff q h = RecvWaiting then Delivered else Enqueued)), (q', t')) \<and>
         (case transfer of
            None \<Rightarrow> t' = t \<and> endpoints ar q' = (endpoints ar q)(h \<mapsto> sent msg None (eff q h))
          | Some x \<Rightarrow> (\<exists>c. lookup t x = Ret (Ok c) \<and>
              lookup t' = (lookup t)(x := Ret (Err CapInvalidHandle)) \<and>
              endpoints ar q' = (endpoints ar q)(h \<mapsto> sent msg (Some c) (eff q h)))))"
proof -
  from assms(3) have dr: "dbg \<longrightarrow> drained ar q" by simp
  from assms(1,2) dr show ?thesis
  proof (cases rule: ipc_send_cases [where ep_cap = ep_cap and transfer = transfer and msg = msg])
    case (err e q')
    with assms show ?thesis by auto
  next
    case (ok h owned q' t')
    have "lookup t' = (lookup t)(x := Ret (Err CapInvalidHandle)) \<and> lookup t x = Ret (Ok c)"
      if "table_rem x t = Some (c, t')" for x c
      using cap_store.rem_peek [OF assms(1) that] cap_store.rem_value [OF assms(1) that]
      by (auto simp: fun_eq_iff lookup_peek)
    with ok assms show ?thesis
      by (intro exI [of _ q'] exI [of _ t'])
        (auto simp: left_table_def send_outcome_def split: option.splits)
  qed
qed

text \<open>C9. \<open>ipc_recv\<close> is the receive transition, on every branch. With \<open>RECV\<close> on a live endpoint: a
  held message is returned and the endpoint becomes idle, the capability it carried now in the
  caller's table under the returned handle; with no message the caller is registered as waiting; a
  second waiter gets \<open>QueueFull\<close>; a full table gets \<open>ReceiverTableFull\<close> before anything is
  taken, so a carried capability is not lost.\<close>

theorem ipc_recv_refines:
  assumes "cap_wf t" and "queues_wf ar q" and "drained ar q"
  shows "\<exists>q' t'. queues_wf ar q' \<and> drained ar q' \<and> cap_wf t' \<and>
    (case recv_verdict ar q t ep_cap of
       Err e \<Rightarrow> ipc_recv dbg ar ep_cap (q, t) = (Ret (Err e), (q', t')) \<and>
         t' = t \<and> endpoints ar q' = endpoints ar q
     | Ok h \<Rightarrow> (case mailbox (eff q h) of
         None \<Rightarrow> ipc_recv dbg ar ep_cap (q, t) = (Ret (Ok Pending), (q', t')) \<and>
           t' = t \<and> endpoints ar q' = (endpoints ar q)(h \<mapsto> RecvWaiting)
       | Some (m, None) \<Rightarrow> ipc_recv dbg ar ep_cap (q, t) = (Ret (Ok (Received m None)), (q', t')) \<and>
           t' = t \<and> endpoints ar q' = (endpoints ar q)(h \<mapsto> Idle)
       | Some (m, Some c) \<Rightarrow> (\<exists>g. ipc_recv dbg ar ep_cap (q, t) = (Ret (Ok (Received m (Some g))), (q', t')) \<and>
           lookup t g = Ret (Err CapInvalidHandle) \<and> lookup t' = (lookup t)(g := Ret (Ok c)) \<and>
           endpoints ar q' = (endpoints ar q)(h \<mapsto> Idle))))"
proof -
  from assms(3) have dr: "dbg \<longrightarrow> drained ar q" by simp
  from assms(1,2) dr show ?thesis
  proof (cases rule: ipc_recv_cases [where ep_cap = ep_cap])
    case (err e q')
    with assms show ?thesis by auto
  next
    case (pending h q')
    with assms show ?thesis by auto
  next
    case (message h msg cap xfer q' t')
    have "lookup t' = (lookup t)(g := Ret (Ok c)) \<and> lookup t g = Ret (Err CapInvalidHandle)"
      if "table_put c t = Some (g, t')" for g c
      using cap_store.put_peek [OF assms(1) that] cap_store.put_fresh [OF assms(1) that]
      by (auto simp: fun_eq_iff lookup_peek)
    with message assms show ?thesis
      by (intro exI [of _ q'] exI [of _ t']) (auto simp: entered_table_def split: option.splits)
  qed
qed


section \<open>Runs of several tasks\<close>

text \<open>Tasks, each with its own table, send and receive over one set of queues, in any order. A run
  records which message was accepted for, and which was handed out by, each endpoint.\<close>

datatype ipc_op = SendOp nat CapHandle Message "CapHandle option" | RecvOp nat CapHandle

datatype ipc_event = Sent EndpointHandle Message | Got EndpointHandle Message

type_synonym ipc_sys = "IpcQueues \<times> CapabilityTable list"

fun sys_step :: "bool \<Rightarrow> EndpointArena \<Rightarrow> ipc_op \<Rightarrow> ipc_sys \<Rightarrow> ipc_event list \<times> ipc_sys" where
  "sys_step dbg ar (SendOp i c m x) (q, ts) =
     (if i < length ts
      then (case ipc_send dbg ar c m x (q, ts ! i) of (r, (q', t')) \<Rightarrow>
        (case (r, ep_of (ts ! i) c SEND) of (Ret (Ok _), Some h) \<Rightarrow> [Sent h m] | _ \<Rightarrow> [], (q', ts[i := t'])))
      else ([], (q, ts)))"
| "sys_step dbg ar (RecvOp i c) (q, ts) =
     (if i < length ts
      then (case ipc_recv dbg ar c (q, ts ! i) of (r, (q', t')) \<Rightarrow>
        (case (r, ep_of (ts ! i) c RECV) of (Ret (Ok (Received m _)), Some h) \<Rightarrow> [Got h m] | _ \<Rightarrow> [],
         (q', ts[i := t'])))
      else ([], (q, ts)))"

fun sys_run :: "bool \<Rightarrow> EndpointArena \<Rightarrow> ipc_op list \<Rightarrow> ipc_sys \<Rightarrow> ipc_event list \<times> ipc_sys" where
  "sys_run dbg ar [] s = ([], s)"
| "sys_run dbg ar (op # ops) s =
     (case sys_step dbg ar op s of (ev, s') \<Rightarrow> (case sys_run dbg ar ops s' of (evs, s'') \<Rightarrow> (ev @ evs, s'')))"

definition sent_to :: "EndpointHandle \<Rightarrow> ipc_event list \<Rightarrow> Message list" where
  "sent_to h evs = concat (map (\<lambda>e. case e of Sent k m \<Rightarrow> if k = h then [m] else [] | _ \<Rightarrow> []) evs)"

definition got_from :: "EndpointHandle \<Rightarrow> ipc_event list \<Rightarrow> Message list" where
  "got_from h evs = concat (map (\<lambda>e. case e of Got k m \<Rightarrow> if k = h then [m] else [] | _ \<Rightarrow> []) evs)"

definition outstanding :: "IpcQueues \<Rightarrow> EndpointHandle \<Rightarrow> Message list" where
  "outstanding q h = (case mailbox (eff q h) of None \<Rightarrow> [] | Some (m, _) \<Rightarrow> [m])"

definition all_caps :: "ipc_sys \<Rightarrow> Capability multiset" where
  "all_caps s = carried (fst s) + sum_list (map (\<lambda>t. contents (table_peek t)) (snd s))"

definition sys_ok :: "EndpointArena \<Rightarrow> ipc_sys \<Rightarrow> bool" where
  "sys_ok ar s \<longleftrightarrow> queues_wf ar (fst s) \<and> drained ar (fst s) \<and> (\<forall>t \<in> set (snd s). cap_wf t)"

lemma logs_simps [simp]:
  "sent_to h [] = []" "got_from h [] = []"
  "sent_to h (a @ b) = sent_to h a @ sent_to h b" "got_from h (a @ b) = got_from h a @ got_from h b"
  "sent_to h [Sent k m] = (if k = h then [m] else [])" "sent_to h [Got k m] = []"
  "got_from h [Got k m] = (if k = h then [m] else [])" "got_from h [Sent k m] = []"
  by (simp_all add: sent_to_def got_from_def)

lemma mailbox_sent: "mailbox (sent m c st) = Some (m, c)"
  by (simp add: sent_def)

lemma mailbox_None: "mailbox st = None \<longleftrightarrow> \<not> holds_message st"
  by (cases st) auto

lemma eff_endpoints: "endpoints ar q' = (endpoints ar q)(k \<mapsto> st) \<Longrightarrow> live_ep ar h \<Longrightarrow>
    eff q' h = (if h = k then st else eff q h)"
  by (auto simp: endpoints_def fun_eq_iff dest!: spec [of _ h] split: if_splits)

lemma eff_endpoints_same: "endpoints ar q' = endpoints ar q \<Longrightarrow> live_ep ar h \<Longrightarrow> eff q' h = eff q h"
  by (auto simp: endpoints_def fun_eq_iff dest!: spec [of _ h])

lemma all_caps_update:
  assumes "i < length ts" and "contents (table_peek t') + carried q' = contents (table_peek (ts ! i)) + carried q"
  shows "all_caps (q', ts[i := t']) = all_caps (q, ts)"
proof -
  let ?f = "\<lambda>t. contents (table_peek t)"
  have "sum_list (map ?f (ts[i := t'])) + ?f (ts ! i) = sum_list (map ?f ts) + ?f t'"
    using sum_list_swap [of i "map ?f ts" "?f t'"] assms(1) by (simp add: map_update)
  then have "all_caps (q', ts[i := t']) + ?f (ts ! i) = (carried q' + ?f t') + sum_list (map ?f ts)"
    by (simp add: all_caps_def ac_simps)
  also have "\<dots> = (?f (ts ! i) + carried q) + sum_list (map ?f ts)"
    by (simp only: add.commute [of "carried q'"] assms(2))
  also have "\<dots> = all_caps (q, ts) + ?f (ts ! i)" by (simp add: all_caps_def ac_simps)
  finally show ?thesis by simp
qed

lemma sys_ok_update:
  "sys_ok ar (q, ts) \<Longrightarrow> queues_wf ar q' \<Longrightarrow> drained ar q' \<Longrightarrow> cap_wf t' \<Longrightarrow> sys_ok ar (q', ts[i := t'])"
  by (auto simp: sys_ok_def dest: set_update_subset_insert [THEN subsetD])

lemma sys_step_send:
  assumes ok: "sys_ok ar (q, ts)"
    and st: "sys_step dbg ar (SendOp i c m x) (q, ts) = (ev, (q', ts'))"
  shows "sys_ok ar (q', ts') \<and> all_caps (q', ts') = all_caps (q, ts) \<and>
    (live_ep ar h \<longrightarrow> outstanding q h @ sent_to h ev = got_from h ev @ outstanding q' h)"
proof (cases "i < length ts")
  case False
  with ok st show ?thesis by auto
next
  case True
  have pre: "cap_wf (ts ! i)" "queues_wf ar q" "drained ar q" using ok True by (auto simp: sys_ok_def)
  have dr: "dbg \<longrightarrow> drained ar q" using pre(3) by simp
  show ?thesis
    using pre(1,2) dr
  proof (cases rule: ipc_send_cases [where ep_cap = c and transfer = x and msg = m])
    case (err e r)
    then have "ev = []" "q' = r" "ts' = ts" using st True by auto
    then show ?thesis
      using err pre ok eff_endpoints_same [OF err(3), of h] all_caps_update [OF True, of "ts ! i" r q]
      by (simp add: sys_ok_def outstanding_def)
  next
    case (ok k owned r t')
    note v = send_verdict_Ok [OF ok(1)]
    have eq: "ev = [Sent k m]" "q' = r" "ts' = ts[i := t']" using st True ok(2) v(1) by auto
    have "live_ep ar h \<longrightarrow> outstanding q h @ sent_to h ev = got_from h ev @ outstanding q' h"
      using eff_endpoints [OF ok(5), of h] v(4) [folded mailbox_None] eq
      by (auto simp: outstanding_def mailbox_sent)
    then show ?thesis
      using ok pre eq all_caps_update [OF True, of t' r q] sys_ok_update [OF \<open>sys_ok ar (q, ts)\<close>] by simp
  qed
qed

lemma sys_step_recv:
  assumes ok: "sys_ok ar (q, ts)"
    and st: "sys_step dbg ar (RecvOp i c) (q, ts) = (ev, (q', ts'))"
  shows "sys_ok ar (q', ts') \<and> all_caps (q', ts') = all_caps (q, ts) \<and>
    (live_ep ar h \<longrightarrow> outstanding q h @ sent_to h ev = got_from h ev @ outstanding q' h)"
proof (cases "i < length ts")
  case False
  with ok st show ?thesis by auto
next
  case True
  have pre: "cap_wf (ts ! i)" "queues_wf ar q" "drained ar q" using ok True by (auto simp: sys_ok_def)
  have dr: "dbg \<longrightarrow> drained ar q" using pre(3) by simp
  show ?thesis
    using pre(1,2) dr
  proof (cases rule: ipc_recv_cases [where ep_cap = c])
    case (err e r)
    then have "ev = []" "q' = r" "ts' = ts" using st True by auto
    then show ?thesis
      using err pre ok eff_endpoints_same [OF err(3), of h] all_caps_update [OF True, of "ts ! i" r q]
      by (simp add: sys_ok_def outstanding_def)
  next
    case (pending k r)
    then have eq: "ev = []" "q' = r" "ts' = ts" using st True by auto
    then show ?thesis
      using pending pre ok eff_endpoints [OF pending(5), of h] all_caps_update [OF True, of "ts ! i" r q]
      by (auto simp: sys_ok_def outstanding_def)
  next
    case (message k msg cap xfer r t')
    note v = recv_verdict_Ok [OF message(1)]
    have eq: "ev = [Got k msg]" "q' = r" "ts' = ts[i := t']" using st True message(3) v(1) by auto
    have "live_ep ar h \<longrightarrow> outstanding q h @ sent_to h ev = got_from h ev @ outstanding q' h"
      using eff_endpoints [OF message(6), of h] message(2) eq by (auto simp: outstanding_def)
    then show ?thesis
      using message pre eq all_caps_update [OF True, of t' r q] sys_ok_update [OF ok] by simp
  qed
qed

lemma sys_step_inv:
  assumes "sys_ok ar s" and "sys_step dbg ar op s = (ev, s')"
  shows "sys_ok ar s' \<and> all_caps s' = all_caps s \<and>
    (live_ep ar h \<longrightarrow> outstanding (fst s) h @ sent_to h ev = got_from h ev @ outstanding (fst s') h)"
proof (cases op)
  case (SendOp i c m x)
  show ?thesis
    using sys_step_send [of ar "fst s" "snd s" dbg i c m x ev "fst s'" "snd s'" h] assms SendOp by simp
next
  case (RecvOp i c)
  show ?thesis
    using sys_step_recv [of ar "fst s" "snd s" dbg i c ev "fst s'" "snd s'" h] assms RecvOp by simp
qed

lemma sys_run_inv:
  assumes "sys_ok ar s" and "sys_run dbg ar ops s = (evs, s')"
  shows "sys_ok ar s' \<and> all_caps s' = all_caps s \<and>
    (live_ep ar h \<longrightarrow> outstanding (fst s) h @ sent_to h evs = got_from h evs @ outstanding (fst s') h)"
  using assms
proof (induction ops arbitrary: s evs)
  case (Cons op ops)
  obtain ev s1 where st: "sys_step dbg ar op s = (ev, s1)" by (rule prod.exhaust)
  obtain evs' where run: "sys_run dbg ar ops s1 = (evs', s')" and evs: "evs = ev @ evs'"
    using Cons.prems(2) st by (auto split: prod.splits)
  have a: "sys_ok ar s1 \<and> all_caps s1 = all_caps s \<and>
      (live_ep ar h \<longrightarrow> outstanding (fst s) h @ sent_to h ev = got_from h ev @ outstanding (fst s1) h)"
    by (rule sys_step_inv [OF Cons.prems(1) st])
  then have b: "sys_ok ar s' \<and> all_caps s' = all_caps s1 \<and>
      (live_ep ar h \<longrightarrow> outstanding (fst s1) h @ sent_to h evs' = got_from h evs' @ outstanding (fst s') h)"
    using Cons.IH [OF _ run] by blast
  have "outstanding (fst s) h @ sent_to h evs = got_from h ev @ outstanding (fst s1) h @ sent_to h evs'"
    if "live_ep ar h"
    using a that by (simp add: evs flip: append_assoc)
  with a b show ?case by (simp add: evs)
qed simp

text \<open>C6. Messages are delivered exactly once and in order: over any run of sends and receives by
  any number of tasks, the messages an endpoint accepted are those it handed out, in the same
  order, followed by the at most one it still holds.\<close>

theorem messages_fifo_exactly_once:
  assumes "sys_ok ar (q, ts)" and "live_ep ar h" and "outstanding q h = []"
    and "sys_run dbg ar ops (q, ts) = (evs, (q', ts'))"
  shows "sent_to h evs = got_from h evs @ outstanding q' h \<and> length (outstanding q' h) \<le> 1"
  using sys_run_inv [OF assms(1,4), of h] assms(2,3) by (simp add: outstanding_def split: option.splits)

text \<open>C7. Capabilities are neither lost nor duplicated by IPC: over any run, the capabilities in
  all tables and in flight are the same multiset at the end as at the start, whatever fails on the
  way.\<close>

theorem capabilities_conserved:
  assumes "sys_ok ar (q, ts)" and "sys_run dbg ar ops (q, ts) = (evs, (q', ts'))"
  shows "all_caps (q', ts') = all_caps (q, ts) \<and> (\<forall>t \<in> set ts'. cap_wf t)"
  using sys_run_inv [OF assms] by (simp add: sys_ok_def)


section \<open>Rendezvous\<close>

definition step_to :: "EndpointHandle \<Rightarrow> EndpointState \<Rightarrow> IpcQueues \<Rightarrow> IpcQueues" where
  "step_to h st q = set_state (ep_idx h) st (settle h q)"

lemma step_to_facts:
  assumes "queues_wf ar q" and "live_ep ar h" and "drained ar q"
  shows "queues_wf ar (step_to h st q)" "drained ar (step_to h st q)" "eff (step_to h st q) h = st"
    "endpoints ar (step_to h st q) = (endpoints ar q)(h \<mapsto> st)"
  using assms endpoints_set_state [OF assms(1,2)] drained_set_state [OF assms]
    eff_endpoints [OF endpoints_set_state [OF assms(1,2)] assms(2)]
  by (simp_all add: step_to_def)

text \<open>C10. Sender and receiver meet in either order with the same result: whether the receiver
  waits first (\<open>Pending\<close>, then \<open>Delivered\<close>) or the sender comes first (\<open>Enqueued\<close>), the receiver
  gets exactly the message sent; a transferred capability has moved from the sender's table to the
  receiver's, and nothing else in either table has changed; every endpoint is back where it was.\<close>

theorem rendezvous_either_order:
  assumes wf: "cap_wf ts" "cap_wf tr" "queues_wf ar q" "drained ar q"
    and h: "live_ep ar h" "eff q h = Idle" "ep_of ts es SEND = Some h" "ep_of tr er RECV = Some h"
    and x: "may_transfer ts x" "can_take ts x" "\<not> is_full tr"
  shows "\<exists>q1 q2 q3 q4 q5 ts' tr' xf.
    ipc_recv dbg ar er (q, tr) = (Ret (Ok Pending), (q1, tr)) \<and>
    ipc_send dbg ar es m x (q1, ts) = (Ret (Ok Delivered), (q2, ts')) \<and>
    ipc_recv dbg ar er (q2, tr) = (Ret (Ok (Received m xf)), (q3, tr')) \<and>
    ipc_send dbg ar es m x (q, ts) = (Ret (Ok Enqueued), (q4, ts')) \<and>
    ipc_recv dbg ar er (q4, tr) = (Ret (Ok (Received m xf)), (q5, tr')) \<and>
    endpoints ar q3 = endpoints ar q \<and> endpoints ar q5 = endpoints ar q \<and>
    (case x of
       None \<Rightarrow> xf = None \<and> ts' = ts \<and> tr' = tr
     | Some y \<Rightarrow> \<exists>c g. xf = Some g \<and> lookup ts y = Ret (Ok c) \<and>
         lookup ts' = (lookup ts)(y := Ret (Err CapInvalidHandle)) \<and>
         lookup tr' = (lookup tr)(g := Ret (Ok c)))"
proof -
  have dbg: "dbg \<longrightarrow> drained ar q'" if "drained ar q'" for q' using that by simp
  obtain owned ts' where tk: "take_cap_if_some x ts = (Ret (Ok owned), ts')"
    and lt: "left_table x owned ts ts'"
    using wf(1) x(2) by (cases rule: take_cap_ok) (auto simp: left_table_def)
  obtain xf tr' where inst: "install_cap_if_some owned tr = (Ret (Ok xf), tr')"
    and et: "entered_table owned xf tr tr'"
    by (rule install_cap_ok [OF wf(2), of owned]) (use x(3) in \<open>auto simp: entered_table_def\<close>)
  have send: "ipc_send dbg ar es m x (q', ts) =
      (Ret (Ok (send_outcome (eff q' h))), (step_to h (sent m owned (eff q' h)) q', ts'))"
    if "queues_wf ar q'" "drained ar q'" "\<not> holds_message (eff q' h)" for q'
    unfolding step_to_def
    by (rule ipc_send_ok [OF wf(1) that(1) dbg [OF that(2)] _ tk]) (use h x that(3) in \<open>simp add: send_verdict_def\<close>)
  have recv: "ipc_recv dbg ar er (q', tr) = (Ret (Ok (Received m xf)), (step_to h Idle q', tr'))"
    if "queues_wf ar q'" "drained ar q'" "mailbox (eff q' h) = Some (m, owned)" for q'
    unfolding step_to_def
    by (rule ipc_recv_message [OF that(1) dbg [OF that(2)] _ that(3) inst])
      (use h x that(3) in \<open>auto simp: recv_verdict_def\<close>)
  have wait: "ipc_recv dbg ar er (q, tr) = (Ret (Ok Pending), (step_to h RecvWaiting q, tr))"
    unfolding step_to_def
    by (rule ipc_recv_pending [OF wf(3) dbg [OF wf(4)]]) (use h in \<open>simp_all add: recv_verdict_def\<close>)
  note f = step_to_facts [OF wf(3) h(1) wf(4)]
  note f1 = f [of RecvWaiting] and f4 = f [of "SendPending m owned"]
  note f2 = step_to_facts [OF f1(1) h(1) f1(2), of "RecvComplete m owned"]
  let ?q2 = "step_to h (RecvComplete m owned) (step_to h RecvWaiting q)"
  have same: "(endpoints ar q)(h \<mapsto> Idle) = endpoints ar q"
    using h(1,2) by (auto simp: endpoints_def fun_eq_iff)
  have e3: "endpoints ar (step_to h Idle ?q2) = endpoints ar q"
    using step_to_facts(4) [OF f2(1) h(1) f2(2), of Idle] f2(4) f1(4) same by simp
  have e5: "endpoints ar (step_to h Idle (step_to h (SendPending m owned) q)) = endpoints ar q"
    using step_to_facts(4) [OF f4(1) h(1) f4(2), of Idle] f4(4) same by simp
  have tabs: "case x of
       None \<Rightarrow> xf = None \<and> ts' = ts \<and> tr' = tr
     | Some y \<Rightarrow> \<exists>c g. xf = Some g \<and> lookup ts y = Ret (Ok c) \<and>
         lookup ts' = (lookup ts)(y := Ret (Err CapInvalidHandle)) \<and>
         lookup tr' = (lookup tr)(g := Ret (Ok c))"
    using lt et cap_store.rem_peek [OF wf(1)] cap_store.rem_value [OF wf(1)] cap_store.put_peek [OF wf(2)]
    by (fastforce simp: left_table_def entered_table_def lookup_peek fun_eq_iff split: option.splits)
  show ?thesis
    using wait send [OF f1(1,2)] recv [OF f2(1,2)] send [OF wf(3,4)] recv [OF f4(1,2)]
      f1(3) f2(3) f4(3) h(2) e3 e5 tabs
    by (intro exI [of _ "step_to h RecvWaiting q"] exI [of _ ?q2] exI [of _ "step_to h Idle ?q2"]
        exI [of _ "step_to h (SendPending m owned) q"]
        exI [of _ "step_to h Idle (step_to h (SendPending m owned) q)"]
        exI [of _ ts'] exI [of _ tr'] exI [of _ xf]) (simp add: send_outcome_def sent_def)
qed


section \<open>Notifications\<close>

text \<open>The notification a handle gives access to.\<close>

definition notif_of :: "CapabilityTable \<Rightarrow> CapHandle \<Rightarrow> NotificationHandle option" where
  "notif_of t h = (case table_peek t h of
     None \<Rightarrow> None
   | Some c \<Rightarrow> if rights_contains (cap_rights c) NOTIFY
       then (case cap_object c of ObjNotification n \<Rightarrow> Some n | _ \<Rightarrow> None) else None)"

lemma validate_notif_cap_eq: "validate_notif_cap t h = Ret (ok_or (notif_of t h) InvalidCapability)"
  by (auto simp: validate_notif_cap_def notif_of_def lookup_peek split: option.splits CapObject.splits)

text \<open>C30. \<open>ipc_notify\<close> sets exactly the given bits of exactly the named notification: with
  \<open>NOTIFY\<close> on a live notification its word becomes the old word OR the bits and no other object
  changes; without, the call fails with \<open>InvalidCapability\<close> and changes nothing.\<close>

theorem ipc_notify_sets_bits:
  assumes "arena_wf ar"
  shows "case notif_of t cap of
      None \<Rightarrow> ipc_notify cap t bits ar = (Ret (Err InvalidCapability), ar)
    | Some n \<Rightarrow> (case get_notification ar n of
        None \<Rightarrow> ipc_notify cap t bits ar = (Ret (Err InvalidCapability), ar)
      | Some v \<Rightarrow> (\<exists>ar'. ipc_notify cap t bits ar = (Ret (Ok ()), ar') \<and> arena_wf ar' \<and>
          get ar' = (get ar)(notif_slot n \<mapsto> \<lparr>notif_word = notif_word v OR bits\<rparr>)))"
proof (cases "notif_of t cap")
  case None
  then show ?thesis by (simp add: ipc_notify_def validate_notif_cap_eq)
next
  case (Some n)
  show ?thesis
  proof (cases "get_mut (notif_set bits) (notif_slot n) ar")
    case None
    with Some show ?thesis
      by (simp add: ipc_notify_def validate_notif_cap_eq get_notification_def get_mut_None [OF None])
  next
    case (Some ar')
    from get_mut_get [OF Some] obtain v where v: "get ar (notif_slot n) = Some v"
      "get ar' = (get ar)(notif_slot n \<mapsto> notif_set bits v)" by blast
    moreover have "notif_set bits v = \<lparr>notif_word = notif_word v OR bits\<rparr>"
      by (simp add: notif_set_def)
    moreover have "arena_wf ar'" using get_mut_wf [OF assms Some] by simp
    ultimately show ?thesis
      using \<open>notif_of t cap = Some n\<close> Some
      by (simp add: ipc_notify_def validate_notif_cap_eq get_notification_def)
  qed
qed

section \<open>Instances\<close>

text \<open>One endpoint in slot 0; the sender's and the receiver's table hold a capability on it with
  every right in slot 0, the sender's a second capability to give away in slot 1.\<close>

definition sample_ep :: EndpointHandle where
  "sample_ep = EndpointHandle \<lparr>sid_index = 0, sid_generation = 0\<rparr>"

definition sample_arena :: EndpointArena where
  "sample_arena = snd (allocate True (endpoint_new 0) endpoint_arena_new)"

definition sample_recv_table :: CapabilityTable where
  "sample_recv_table = table_run True [InsertRoot (capability_new KNOWN_BITS (ObjEndpoint sample_ep))] table_new"

definition sample_send_table :: CapabilityTable where
  "sample_send_table = table_run True
     [InsertRoot (capability_new KNOWN_BITS (ObjEndpoint sample_ep)), InsertRoot sample_cap] table_new"

definition sample_msg :: Message where
  "sample_msg = \<lparr>msg_label = 170, msg_params = (1, 2, 3)\<rparr>"

lemma sample_ipc_wf:
  "cap_wf sample_recv_table" "cap_wf sample_send_table" "queues_wf sample_arena queues_new"
  "drained sample_arena queues_new"
  by (simp_all add: sample_recv_table_def sample_send_table_def table_run_wf table_new_wf
      del: table_run_simps)
    (auto simp: queues_wf_def sample_arena_def endpoint_arena_new_def allocate_def arena_new_def
      arena_capacities queues_new_def drained_def nth_Cons' dest!: live_ep_range)

lemma sample_ep_live: "live_ep sample_arena sample_ep"
  by (simp add: live_ep_def sample_ep_def sample_arena_def endpoint_arena_new_def allocate_def
      arena_new_def arena_capacities get_def)


lemma sample_ipc_ent:
  "ent sample_recv_table 0 = Some (root_entry (capability_new KNOWN_BITS (ObjEndpoint sample_ep)))"
  "ent sample_send_table 0 = Some (root_entry (capability_new KNOWN_BITS (ObjEndpoint sample_ep)))"
  "ent sample_send_table 1 = Some (root_entry sample_cap)"
  "gen_at sample_recv_table 0 = 0" "gen_at sample_send_table 0 = 0" "gen_at sample_send_table 1 = 0"
  "ct_free_head sample_recv_table \<noteq> None"
  by (simp_all add: table_eval sample_recv_table_def sample_send_table_def root_entry_def)

lemma sample_ipc_peek:
  "table_peek sample_recv_table sample_root = Some (capability_new KNOWN_BITS (ObjEndpoint sample_ep))"
  "table_peek sample_send_table sample_root = Some (capability_new KNOWN_BITS (ObjEndpoint sample_ep))"
  "table_peek sample_send_table sample_child = Some sample_cap"
  by (simp_all add: table_peek_def live_entry_def sample_root_def sample_child_def sample_ipc_ent root_entry_def)

lemma known_contains_ipc:
  "rights_contains KNOWN_BITS RECV" "rights_contains KNOWN_BITS TRANSFER" "rights_contains KNOWN_BITS NOTIFY"
  by (simp_all add: rights_contains_def KNOWN_BITS_def rights_consts)

lemma capability_new_object [simp]: "cap_object (capability_new r ob) = ob"
  by (simp add: capability_new_def)

lemma sample_access:
  "ep_of sample_send_table sample_root SEND = Some sample_ep"
  "ep_of sample_recv_table sample_root RECV = Some sample_ep"
  "may_transfer sample_send_table (Some sample_child)" "can_take sample_send_table (Some sample_child)"
  "\<not> is_full sample_recv_table" "eff queues_new sample_ep = Idle"
  by (simp_all add: ep_of_def sample_ipc_peek known_contains known_contains_ipc may_transfer_def
      can_take_def take_check_def live_entry_def sample_child_def sample_ipc_ent root_entry_def
      is_full_def sample_rights)
    (simp_all add: sample_ipc_peek [unfolded sample_child_def] sample_rights known_contains_ipc eff_def
      queues_new_def ep_idx_def ep_gen_def sample_ep_def arena_capacities)

theorem rendezvous_either_order_witness:
  "\<exists>q1 q2 q3 ts' tr' xf.
    ipc_recv True sample_arena sample_root (queues_new, sample_recv_table) =
      (Ret (Ok Pending), (q1, sample_recv_table)) \<and>
    ipc_send True sample_arena sample_root sample_msg (Some sample_child) (q1, sample_send_table) =
      (Ret (Ok Delivered), (q2, ts')) \<and>
    ipc_recv True sample_arena sample_root (q2, sample_recv_table) =
      (Ret (Ok (Received sample_msg xf)), (q3, tr'))"
  using rendezvous_either_order [OF sample_ipc_wf(2,1,3,4) sample_ep_live sample_access(6,1,2,3,4,5),
      where dbg = True and m = sample_msg]
  by blast

theorem ipc_send_refines_witness:
  "\<exists>q'. ipc_send True sample_arena sample_root sample_msg None (queues_new, sample_send_table) =
    (Ret (Ok Enqueued), (q', sample_send_table)) \<and> endpoints sample_arena q' sample_ep = Some (SendPending sample_msg None)"
proof -
  have "send_verdict sample_arena queues_new sample_send_table sample_root None = Ok sample_ep"
    by (simp add: send_verdict_def sample_access sample_ep_live may_transfer_def can_take_def)
  with ipc_send_refines [OF sample_ipc_wf(2,3,4), where ep_cap = sample_root and transfer = None
      and dbg = True and msg = sample_msg] sample_access(6)
  show ?thesis by (auto simp: sent_def)
qed

theorem ipc_recv_refines_witness:
  "\<exists>q'. ipc_recv True sample_arena sample_root (queues_new, sample_recv_table) =
    (Ret (Ok Pending), (q', sample_recv_table)) \<and> endpoints sample_arena q' sample_ep = Some RecvWaiting"
proof -
  have "recv_verdict sample_arena queues_new sample_recv_table sample_root = Ok sample_ep"
    by (simp add: recv_verdict_def sample_access sample_ep_live)
  with ipc_recv_refines [OF sample_ipc_wf(1,3,4), where ep_cap = sample_root and dbg = True] sample_access(6)
  show ?thesis by auto
qed

lemma sample_sys_ok: "sys_ok sample_arena (queues_new, [sample_send_table, sample_recv_table])"
  by (simp add: sys_ok_def sample_ipc_wf)

text \<open>One task sends twice (the second time in vain), the other receives.\<close>

definition sample_ipc_ops :: "ipc_op list" where
  "sample_ipc_ops = [SendOp 0 sample_root sample_msg (Some sample_child),
     SendOp 0 sample_root sample_msg None, RecvOp 1 sample_root]"

theorem messages_fifo_exactly_once_witness:
  "\<exists>evs q' ts'. sys_run True sample_arena sample_ipc_ops (queues_new, [sample_send_table, sample_recv_table])
      = (evs, (q', ts')) \<and>
    sent_to sample_ep evs = got_from sample_ep evs @ outstanding q' sample_ep"
proof -
  obtain evs q' ts' where run: "sys_run True sample_arena sample_ipc_ops
      (queues_new, [sample_send_table, sample_recv_table]) = (evs, (q', ts'))"
    by (rule prod_cases3)
  have "outstanding queues_new sample_ep = []" by (simp add: outstanding_def sample_access)
  from messages_fifo_exactly_once [OF sample_sys_ok sample_ep_live this run] run show ?thesis by blast
qed

theorem capabilities_conserved_witness:
  "all_caps (snd (sys_run True sample_arena sample_ipc_ops (queues_new, [sample_send_table, sample_recv_table])))
    = all_caps (queues_new, [sample_send_table, sample_recv_table])"
proof -
  obtain evs q' ts' where run: "sys_run True sample_arena sample_ipc_ops
      (queues_new, [sample_send_table, sample_recv_table]) = (evs, (q', ts'))"
    by (rule prod_cases3)
  from capabilities_conserved [OF sample_sys_ok run] run show ?thesis by simp
qed

definition sample_notif_arena :: NotificationArena where
  "sample_notif_arena = snd (allocate True (notif_new 1) notification_arena_new)"

lemma sample_notif_wf: "arena_wf sample_notif_arena"
  unfolding sample_notif_arena_def
  by (rule conjunct1 [OF allocate_wf [OF new_arenas_wf(3) surjective_pairing]])

theorem ipc_notify_sets_bits_witness:
  "\<exists>ar'. ipc_notify sample_root sample_table 6 sample_notif_arena = (Ret (Ok ()), ar') \<and>
    get ar' \<lparr>sid_index = 0, sid_generation = 0\<rparr> = Some \<lparr>notif_word = 7\<rparr>"
proof -
  have n: "notif_of sample_table sample_root = Some (NotificationHandle \<lparr>sid_index = 0, sid_generation = 0\<rparr>)"
    by (simp add: notif_of_def table_peek_def sample_live sample_ent sample_rights known_contains_ipc)
      (simp add: sample_cap_def)
  have g: "get sample_notif_arena \<lparr>sid_index = 0, sid_generation = 0\<rparr> = Some \<lparr>notif_word = 1\<rparr>"
    by (simp add: sample_notif_arena_def notification_arena_new_def allocate_def arena_new_def
        arena_capacities get_def notif_new_def)
  from ipc_notify_sets_bits [OF sample_notif_wf, where t = sample_table and cap = sample_root and bits = 6] n g
  show ?thesis by (auto simp: get_notification_def)
qed


section \<open>Destroying an endpoint that still holds a capability\<close>

text \<open>C36. The drain-before-destroy discipline is necessary. When an endpoint was destroyed with a
  capability in flight and its slot reused, the next receive on the new endpoint panics in a
  debug build, and in a release build the capability is gone: it was in flight before and is
  nowhere after.\<close>

theorem undrained_slot_loses_cap:
  assumes "queues_wf ar q" and "live_ep ar h" and "ep_of t er RECV = Some h"
    and "iq_generations q ! ep_idx h \<noteq> ep_gen h" and "carries_cap (iq_states q ! ep_idx h)"
  shows "ipc_recv True ar er (q, t) = (Panic, (q, t)) \<and>
    (\<exists>q'. ipc_recv False ar er (q, t) = (Ret (Ok Pending), (q', t)) \<and>
      carried q = add_mset (the_elem (set_mset (in_flight (iq_states q ! ep_idx h)))) (carried q'))"
proof -
  note rg = queues_wf_range [OF assms(1,2)]
  have "peek_state True h q = (Panic, q)"
    using rg assms(4,5) by (simp add: peek_state_def reset_if_stale_generation_def Let_def ep_idx_def ep_gen_def)
  then have dbg: "ipc_recv True ar er (q, t) = (Panic, (q, t))"
    using assms(3) get_live(1) [OF assms(2)] by (auto simp: ipc_recv_def validate_ep_cap_eq)
  let ?q = "set_state (ep_idx h) RecvWaiting (settle h q)"
  have "eff q h = Idle" using assms(4) by (simp add: eff_def)
  then have rel: "ipc_recv False ar er (q, t) = (Ret (Ok Pending), (?q, t))"
    using ipc_recv_reach [OF assms(1) _ assms(3,2), of False] by simp
  have "?q = set_state (ep_idx h) RecvWaiting (q\<lparr>iq_generations := (iq_generations q)[ep_idx h := ep_gen h]\<rparr>)"
    using assms(4) by (simp add: settle_def set_state_def)
  then have "carried ?q + in_flight (iq_states q ! ep_idx h) = carried q"
    using carried_set_state [of "ep_idx h" q RecvWaiting] rg by (simp add: carried_def set_state_def)
  moreover have "in_flight (iq_states q ! ep_idx h) =
      {#the_elem (set_mset (in_flight (iq_states q ! ep_idx h)))#}"
    using assms(5) by (auto simp: carries_cap_mailbox in_flight_mailbox)
  ultimately have "carried q = add_mset (the_elem (set_mset (in_flight (iq_states q ! ep_idx h)))) (carried ?q)"
    by (metis add_mset_add_single)
  with dbg rel show ?thesis by blast
qed

text \<open>The situation arises from calls the kernel exports: send with a capability, destroy the
  endpoint, create another one, receive on it.\<close>

definition reused_arena :: EndpointArena where
  "reused_arena = snd (create_endpoint True (snd (destroy_endpoint sample_arena sample_ep)) (endpoint_new 1))"

definition reused_ep :: EndpointHandle where
  "reused_ep = EndpointHandle \<lparr>sid_index = 0, sid_generation = 1\<rparr>"

definition abandoned_queues :: IpcQueues where
  "abandoned_queues = fst (snd (ipc_send True sample_arena sample_root sample_msg (Some sample_child)
     (queues_new, sample_send_table)))"

definition new_recv_table :: CapabilityTable where
  "new_recv_table = table_run True [InsertRoot (capability_new RECV (ObjEndpoint reused_ep))] table_new"

lemma abandoned_state:
  "iq_generations abandoned_queues = replicate ENDPOINT_ARENA_CAPACITY 0"
  "iq_states abandoned_queues ! 0 = SendPending sample_msg (Some sample_cap)"
  "length (iq_states abandoned_queues) = ENDPOINT_ARENA_CAPACITY"
proof -
  have v: "send_verdict sample_arena queues_new sample_send_table sample_root (Some sample_child) = Ok sample_ep"
    by (simp add: send_verdict_def sample_access sample_ep_live)
  obtain c t' where tk: "take_cap_if_some (Some sample_child) sample_send_table = (Ret (Ok (Some c)), t')"
    and c: "table_rem sample_child sample_send_table = Some (c, t')"
    using sample_ipc_wf(2) sample_access(4) by (cases rule: take_cap_ok) auto
  have "c = sample_cap" using cap_store.rem_value [OF sample_ipc_wf(2) c] by (simp add: sample_ipc_peek)
  then have q: "abandoned_queues = set_state (ep_idx sample_ep) (SendPending sample_msg (Some sample_cap))
      (settle sample_ep queues_new)"
    unfolding abandoned_queues_def
    using ipc_send_ok [OF sample_ipc_wf(2,3) _ v tk, of True sample_msg] sample_ipc_wf(4)
    by (simp add: sample_access sent_def)
  have s: "settle sample_ep queues_new = queues_new" "ep_idx sample_ep = 0"
    by (simp_all add: settle_def queues_new_def ep_idx_def ep_gen_def sample_ep_def arena_capacities)
  show "iq_generations abandoned_queues = replicate ENDPOINT_ARENA_CAPACITY 0"
    "iq_states abandoned_queues ! 0 = SendPending sample_msg (Some sample_cap)"
    "length (iq_states abandoned_queues) = ENDPOINT_ARENA_CAPACITY"
    unfolding q s by (simp_all add: set_state_def queues_new_def arena_capacities)
qed

lemma reused_facts:
  "queues_wf reused_arena abandoned_queues" "live_ep reused_arena reused_ep"
  "ep_of new_recv_table sample_root RECV = Some reused_ep"
proof -
  show "queues_wf reused_arena abandoned_queues"
    by (simp add: queues_wf_def abandoned_state)
      (simp add: reused_arena_def create_endpoint_def destroy_endpoint_def sample_arena_def sample_ep_def
        endpoint_arena_new_def allocate_def free_def arena_new_def arena_capacities)
  show "live_ep reused_arena reused_ep"
    by (simp add: live_ep_def reused_ep_def reused_arena_def create_endpoint_def destroy_endpoint_def
        sample_arena_def sample_ep_def endpoint_arena_new_def allocate_def free_def arena_new_def
        arena_capacities get_def)
  have e: "ent new_recv_table 0 = Some (root_entry (capability_new RECV (ObjEndpoint reused_ep)))"
    "gen_at new_recv_table 0 = 0"
    by (simp_all add: new_recv_table_def table_eval root_entry_def)
  then show "ep_of new_recv_table sample_root RECV = Some reused_ep"
    by (simp add: ep_of_def table_peek_def live_entry_def sample_root_def root_entry_def)
qed

theorem undrained_slot_loses_cap_witness:
  "ipc_recv True reused_arena sample_root (abandoned_queues, new_recv_table) =
      (Panic, (abandoned_queues, new_recv_table)) \<and>
   (\<exists>q'. ipc_recv False reused_arena sample_root (abandoned_queues, new_recv_table) =
      (Ret (Ok Pending), (q', new_recv_table)) \<and> carried abandoned_queues = add_mset sample_cap (carried q'))"
proof -
  have i: "ep_idx reused_ep = 0" "ep_gen reused_ep = 1" by (simp_all add: ep_idx_def ep_gen_def reused_ep_def)
  from undrained_slot_loses_cap [OF reused_facts] show ?thesis
    by (simp add: i abandoned_state arena_capacities)
qed

end
