(* ===== verification/Sched_Properties.thy ===== *)
theory Sched_Properties
  imports Scheduler Ipc_Properties
begin

text \<open>
  The scheduler's invariant, and what each entry point does under it. The invariant says that the
  tasks marked ready are exactly those in the queue and the running one, each once; from it
  follows that the ready queue never overflows, that a task is never switched to itself, and that
  the assertions of the code hold.
\<close>

section \<open>Invariant\<close>

definition ready_list :: "'c Scheduler \<Rightarrow> TaskHandle list" where
  "ready_list s = queue_items (sch_ready s)"

definition runnable :: "'c Scheduler \<Rightarrow> TaskHandle list" where
  "runnable s = (case sch_current s of None \<Rightarrow> [] | Some h \<Rightarrow> [h]) @ ready_list s"

definition sized :: "'c Scheduler \<Rightarrow> bool" where
  "sized s \<longleftrightarrow> queue_wf (sch_ready s) \<and> length (sq_buf (sch_ready s)) = TASK_ARENA_CAPACITY \<and>
     length (sch_states s) = TASK_ARENA_CAPACITY \<and> length (sch_handles s) = TASK_ARENA_CAPACITY \<and>
     length (sch_contexts s) = TASK_ARENA_CAPACITY"

definition sched_wf :: "'c Scheduler \<Rightarrow> bool" where
  "sched_wf s \<longleftrightarrow> sized s \<and> distinct (map hidx (runnable s)) \<and>
     (\<forall>h \<in> set (runnable s). hidx h < TASK_ARENA_CAPACITY \<and>
        sch_states s ! hidx h = TaskReady \<and> sch_handles s ! hidx h = Some h) \<and>
     (\<forall>i < TASK_ARENA_CAPACITY. case sch_states s ! i of
        TaskReady \<Rightarrow> i \<in> hidx ` set (runnable s)
      | TaskBlocked ep \<Rightarrow> (\<exists>h. sch_handles s ! i = Some h \<and> hidx h = i)
      | TaskIdle \<Rightarrow> sch_handles s ! i = None)"

lemma sched_wfD:
  assumes "sched_wf s"
  shows "sized s" "distinct (map hidx (runnable s))"
    "h \<in> set (runnable s) \<Longrightarrow> hidx h < TASK_ARENA_CAPACITY"
    "h \<in> set (runnable s) \<Longrightarrow> sch_states s ! hidx h = TaskReady"
    "h \<in> set (runnable s) \<Longrightarrow> sch_handles s ! hidx h = Some h"
    "i < TASK_ARENA_CAPACITY \<Longrightarrow> sch_states s ! i = TaskBlocked ep \<Longrightarrow>
      \<exists>h. sch_handles s ! i = Some h \<and> hidx h = i"
  using assms by (auto simp: sched_wf_def split: TaskState.splits)

lemma scheduler_new_wf: "sched_wf (scheduler_new c)"
  by (simp add: sched_wf_def sized_def scheduler_new_def queue_new_wf runnable_def ready_list_def
      arena_capacities) (simp add: queue_new_def)

text \<open>Sixteen slots, each with at most one task: there is room for a task that is not queued.\<close>

lemma ready_room:
  assumes "distinct (map hidx (h # hs))" and "\<forall>x \<in> set (h # hs). hidx x < TASK_ARENA_CAPACITY"
  shows "length hs < TASK_ARENA_CAPACITY"
proof -
  have "set (map hidx (h # hs)) \<subseteq> {..<TASK_ARENA_CAPACITY}" using assms(2) by auto
  then have "card (set (map hidx (h # hs))) \<le> TASK_ARENA_CAPACITY"
    using card_mono [of "{..<TASK_ARENA_CAPACITY}"] by (metis card_lessThan finite_lessThan)
  then show ?thesis using distinct_card [OF assms(1)] by simp
qed

lemma enqueue_fits:
  assumes "sized s" and "distinct (map hidx (h # ready_list s))"
    and "\<forall>x \<in> set (h # ready_list s). hidx x < TASK_ARENA_CAPACITY"
  obtains r where "enqueue h (sch_ready s) = (Ret (Ok ()), r)" "queue_wf r"
    "queue_items r = ready_list s @ [h]" "length (sq_buf r) = TASK_ARENA_CAPACITY"
proof -
  have "length (queue_items (sch_ready s)) < length (sq_buf (sch_ready s))"
    using ready_room [OF assms(2,3)] assms(1) by (simp add: sized_def ready_list_def)
  from ready_queue.enq_room [OF _ this, of h] that show thesis
    using assms(1) by (auto simp: sized_def ready_list_def)
qed

lemma current_runnable: "sch_current s = Some h \<Longrightarrow> h \<in> set (runnable s)"
  by (simp add: runnable_def)

lemma ready_runnable: "h \<in> set (ready_list s) \<Longrightarrow> h \<in> set (runnable s)"
  by (simp add: runnable_def)

lemma sched_wf_same:
  assumes "sched_wf s" and "sized s'" and "mset (runnable s') = mset (runnable s)"
    and "sch_states s' = sch_states s" and "sch_handles s' = sch_handles s"
  shows "sched_wf s'"
proof -
  have set: "set (runnable s') = set (runnable s)" using assms(3) by (rule mset_eq_setD)
  have dist: "distinct (map hidx (runnable s')) = distinct (map hidx (runnable s))"
    using assms(3) by (metis mset_map mset_eq_imp_distinct_iff)
  show ?thesis using assms(1,2) unfolding sched_wf_def assms(4,5) set dist by simp
qed

section \<open>Yielding\<close>

lemma yield_cases:
  assumes wf: "sched_wf s"
  obtains (none) "sch_current s = None" "yield_now dbg s = (Ret (Err NoCurrentTask), s)"
  | (alone) h s' where "sch_current s = Some h" "ready_list s = []"
      "yield_now dbg s = (Ret (Ok (Done ())), s')" "sched_wf s'" "ready_list s' = []"
      "sch_current s' = Some h" "sch_states s' = sch_states s" "sch_handles s' = sch_handles s"
      "sch_contexts s' = sch_contexts s"
  | (switch) h n ns s' where "sch_current s = Some h" "ready_list s = n # ns"
      "yield_now dbg s = (Ret (Ok (SwitchTo (hidx h) (hidx n) ResumeYield)), s')" "sched_wf s'"
      "sch_current s' = Some n" "ready_list s' = ns @ [h]" "sch_states s' = sch_states s"
      "sch_handles s' = sch_handles s" "sch_contexts s' = sch_contexts s" "hidx h \<noteq> hidx n"
proof (cases "sch_current s")
  case None
  then show thesis by (intro none) (simp_all add: yield_now_def)
next
  case (Some h)
  note d = sched_wfD [OF wf]
  have run: "runnable s = h # ready_list s" using Some by (simp add: runnable_def)
  have h: "hidx h < TASK_ARENA_CAPACITY" "sch_states s ! hidx h = TaskReady"
    using d(3,4) current_runnable [OF Some] by blast+
  have len: "length (sch_states s) = TASK_ARENA_CAPACITY" using d(1) by (simp add: sized_def)
  have same: "(sch_states s)[hidx h := TaskReady] = sch_states s" using h(2) by (metis list_update_id)
  have "distinct (map hidx (h # ready_list s))" "\<forall>x \<in> set (h # ready_list s). hidx x < TASK_ARENA_CAPACITY"
    using d(2,3) run by auto
  then obtain r where r: "enqueue h (sch_ready s) = (Ret (Ok ()), r)" "queue_wf r"
    "queue_items r = ready_list s @ [h]" "length (sq_buf r) = TASK_ARENA_CAPACITY"
    by (rule enqueue_fits [OF d(1)])
  obtain a as where items: "queue_items r = a # as" using r(3) by (cases "ready_list s") auto
  obtain r' where r': "dequeue r = (Ret (Some a), r')" "queue_wf r'" "queue_items r' = as"
    "length (sq_buf r') = TASK_ARENA_CAPACITY"
    using ready_queue.deq_head [OF r(2) items] r(4) by auto
  show thesis
  proof (cases "ready_list s")
    case Nil
    then have a: "a = h" "as = []" using r(3) items by auto
    let ?s = "s\<lparr>sch_ready := r'\<rparr>"
    have "yield_now dbg s = (Ret (Ok (Done ())), ?s)"
      using Some h len r r' a same by (simp add: yield_now_def Let_def)
    moreover have "sched_wf ?s"
      by (rule sched_wf_same [OF wf])
        (use d(1) r' a Some Nil in \<open>auto simp: sized_def runnable_def ready_list_def\<close>)
    ultimately show thesis
      by (intro alone [OF Some Nil, of ?s]) (use r' a Some in \<open>simp_all add: ready_list_def\<close>)
  next
    case (Cons n ns)
    then have a: "a = n" "as = ns @ [h]" using r(3) items by auto
    have hn: "hidx h \<noteq> hidx n" using d(2) run Cons by auto
    have n: "hidx n < TASK_ARENA_CAPACITY" "sch_states s ! hidx n = TaskReady"
      using d(3,4) ready_runnable [of n s] Cons by auto
    then have same': "(sch_states s)[hidx n := TaskReady] = sch_states s" by (metis list_update_id)
    let ?s = "s\<lparr>sch_ready := r', sch_current := Some n\<rparr>"
    have "yield_now dbg s = (Ret (Ok (SwitchTo (hidx h) (hidx n) ResumeYield)), ?s)"
      using Some h len r r' a same same' hn n
      by (auto simp: yield_now_def Let_def dispatch_def switch_window_def)
    moreover have "sched_wf ?s"
      by (rule sched_wf_same [OF wf])
        (use d(1) r' a Some Cons in \<open>auto simp: sized_def runnable_def ready_list_def\<close>)
    ultimately show thesis
      by (intro switch [OF Some Cons, of ?s]) (use r' a hn in \<open>simp_all add: ready_list_def\<close>)
  qed
qed


section \<open>Blocking\<close>

lemma sched_wf_block:
  assumes wf: "sched_wf s" and cur: "sch_current s = Some h" and ready: "ready_list s = n # ns"
    and s': "sized s'" "sch_current s' = Some n" "ready_list s' = ns"
      "sch_states s' = (sch_states s)[hidx h := TaskBlocked ep]" "sch_handles s' = sch_handles s"
  shows "sched_wf s'"
proof -
  note d = sched_wfD [OF wf]
  have run: "runnable s = h # n # ns" and run': "runnable s' = n # ns"
    using cur ready s'(2,3) by (simp_all add: runnable_def)
  have hi: "hidx h < TASK_ARENA_CAPACITY" "sch_handles s ! hidx h = Some h"
    using d(3,5) current_runnable [OF cur] by blast+
  have len: "length (sch_states s) = TASK_ARENA_CAPACITY" using d(1) by (simp add: sized_def)
  have "hidx h \<notin> hidx ` set (runnable s')" using d(2) run run' by auto
  then have ne: "hidx x \<noteq> hidx h" if "x \<in> set (runnable s')" for x using that by (metis imageI)
  have sub: "x \<in> set (runnable s)" if "x \<in> set (runnable s')" for x using that run run' by simp
  have each: "case sch_states s' ! i of
        TaskReady \<Rightarrow> i \<in> hidx ` set (runnable s')
      | TaskBlocked ep \<Rightarrow> (\<exists>h. sch_handles s' ! i = Some h \<and> hidx h = i)
      | TaskIdle \<Rightarrow> sch_handles s' ! i = None" if i: "i < TASK_ARENA_CAPACITY" for i
  proof (cases "i = hidx h")
    case True
    then show ?thesis using hi len s'(4,5) by simp
  next
    case False
    then have "sch_states s' ! i = sch_states s ! i" using s'(4) by simp
    moreover have "case sch_states s ! i of
        TaskReady \<Rightarrow> i \<in> hidx ` set (runnable s)
      | TaskBlocked ep \<Rightarrow> (\<exists>h. sch_handles s ! i = Some h \<and> hidx h = i)
      | TaskIdle \<Rightarrow> sch_handles s ! i = None" using wf i by (simp add: sched_wf_def)
    ultimately show ?thesis using False s'(5) run run' by (auto split: TaskState.splits)
  qed
  have rdy: "sch_states s' ! hidx x = TaskReady" if "x \<in> set (runnable s')" for x
    using d(4) [OF sub [OF that]] ne [OF that] s'(4) by simp
  have "distinct (map hidx (runnable s'))" using d(2) run run' by simp
  moreover have "\<forall>x \<in> set (runnable s'). hidx x < TASK_ARENA_CAPACITY \<and>
      sch_states s' ! hidx x = TaskReady \<and> sch_handles s' ! hidx x = Some x"
    using rdy d(3,5) sub s'(5) by simp
  ultimately show ?thesis using each s'(1) by (simp add: sched_wf_def)
qed

lemma block_cases:
  assumes wf: "sched_wf s" and cur: "sch_current s = Some h"
  obtains (deadlock) "ready_list s = []"
      "block_current dbg ep c s = (Ret (Err Deadlock) :: (SchedError, RecvOutcome progress) result run, s)"
  | (switch) n ns s' where "ready_list s = n # ns"
      "block_current dbg ep c s =
        (Ret (Ok (SwitchTo (hidx h) (hidx n) (ResumeRecv c) :: RecvOutcome progress)), s')" "sched_wf s'"
      "sch_current s' = Some n" "ready_list s' = ns" "hidx h \<noteq> hidx n"
      "sch_states s' = (sch_states s)[hidx h := TaskBlocked ep]"
      "sch_handles s' = sch_handles s" "sch_contexts s' = sch_contexts s"
proof -
  note d = sched_wfD [OF wf]
  have h: "hidx h < length (sch_states s)" "sch_states s ! hidx h = TaskReady"
    using d(1,3,4) current_runnable [OF cur] by (auto simp: sized_def)
  have qw: "queue_wf (sch_ready s)" using d(1) by (simp add: sized_def)
  show thesis
  proof (cases "ready_list s")
    case Nil
    then have dq: "dequeue (sch_ready s) = (Ret None, sch_ready s)"
      using ready_queue.deq_empty [OF qw] by (simp add: ready_list_def)
    have "s\<lparr>sch_states := sch_states s, sch_current := Some h, sch_ready := sch_ready s\<rparr> = s"
      using cur by simp
    then have "block_current dbg ep c s =
        (Ret (Err Deadlock) :: (SchedError, RecvOutcome progress) result run, s)"
      using cur h dq list_update_id [of "sch_states s" "hidx h"]
      by (simp add: block_current_def Let_def)
    with Nil show thesis by (rule deadlock)
  next
    case (Cons n ns)
    then obtain r where r: "dequeue (sch_ready s) = (Ret (Some n), r)" "queue_wf r" "queue_items r = ns"
      "length (sq_buf r) = length (sq_buf (sch_ready s))"
      using ready_queue.deq_head [OF qw] by (auto simp: ready_list_def)
    have hn: "hidx h \<noteq> hidx n" using d(2) cur Cons by (auto simp: runnable_def)
    have n: "hidx n < TASK_ARENA_CAPACITY" "sch_states s ! hidx n = TaskReady"
      using d(3,4) ready_runnable [of n s] Cons by auto
    let ?s = "s\<lparr>sch_ready := r, sch_current := Some n, sch_states := (sch_states s)[hidx h := TaskBlocked ep]\<rparr>"
    have "(sch_states s)[hidx h := TaskBlocked ep, hidx n := TaskReady] = (sch_states s)[hidx h := TaskBlocked ep]"
      using n hn by (metis list_update_id nth_list_update_neq)
    then have run: "block_current dbg ep c s =
        (Ret (Ok (SwitchTo (hidx h) (hidx n) (ResumeRecv c) :: RecvOutcome progress)), ?s)"
      using cur h r hn n d(1) by (simp add: block_current_def Let_def dispatch_def switch_window_def sized_def)
    have "sched_wf ?s"
      by (rule sched_wf_block [OF wf cur Cons]) (use d(1) r in \<open>auto simp: sized_def ready_list_def\<close>)
    then show thesis
      by (rule switch [OF Cons run]) (use r hn in \<open>simp_all add: ready_list_def\<close>)
  qed
qed

section \<open>Unblocking\<close>

definition blocked_on :: "EndpointHandle \<Rightarrow> 'c Scheduler \<Rightarrow> nat \<Rightarrow> bool" where
  "blocked_on ep s i \<longleftrightarrow> i < TASK_ARENA_CAPACITY \<and> sch_states s ! i = TaskBlocked ep"

lemma sched_wf_unblock:
  assumes wf: "sched_wf s" and b: "blocked_on ep s i" and hi: "sch_handles s ! i = Some h" "hidx h = i"
    and s': "sized s'" "sch_current s' = sch_current s" "ready_list s' = ready_list s @ [h]"
      "sch_states s' = (sch_states s)[i := TaskReady]" "sch_handles s' = sch_handles s"
  shows "sched_wf s'"
proof -
  note d = sched_wfD [OF wf]
  have i: "i < TASK_ARENA_CAPACITY" "sch_states s ! i = TaskBlocked ep" using b by (simp_all add: blocked_on_def)
  have len: "length (sch_states s) = TASK_ARENA_CAPACITY" using d(1) by (simp add: sized_def)
  have run': "runnable s' = runnable s @ [h]" using s'(2,3) by (simp add: runnable_def)
  have new: "i \<notin> hidx ` set (runnable s)" using d(4) i(2) by auto
  have each: "case sch_states s' ! k of
        TaskReady \<Rightarrow> k \<in> hidx ` set (runnable s')
      | TaskBlocked ep \<Rightarrow> (\<exists>h. sch_handles s' ! k = Some h \<and> hidx h = k)
      | TaskIdle \<Rightarrow> sch_handles s' ! k = None" if k: "k < TASK_ARENA_CAPACITY" for k
  proof (cases "k = i")
    case True
    then show ?thesis using i len s'(4) run' hi by simp
  next
    case False
    then have "sch_states s' ! k = sch_states s ! k" using s'(4) by simp
    moreover have "case sch_states s ! k of
        TaskReady \<Rightarrow> k \<in> hidx ` set (runnable s)
      | TaskBlocked ep \<Rightarrow> (\<exists>h. sch_handles s ! k = Some h \<and> hidx h = k)
      | TaskIdle \<Rightarrow> sch_handles s ! k = None" using wf k by (simp add: sched_wf_def)
    ultimately show ?thesis using s'(5) run' by (auto split: TaskState.splits)
  qed
  have rdy: "sch_states s' ! hidx x = TaskReady" if "x \<in> set (runnable s)" for x
    using d(4) [OF that] new that s'(4) by (metis imageI nth_list_update_neq)
  have "distinct (map hidx (runnable s'))" using d(2) new hi(2) run' by simp
  moreover have "\<forall>x \<in> set (runnable s'). hidx x < TASK_ARENA_CAPACITY \<and>
      sch_states s' ! hidx x = TaskReady \<and> sch_handles s' ! hidx x = Some x"
    using rdy d(3,5) hi i len s'(4,5) run' by auto
  ultimately show ?thesis using each s'(1) by (simp add: sched_wf_def)
qed

lemma unblock_scan_none:
  "\<forall>i \<in> set is. i < length (sch_states s) \<and> sch_states s ! i \<noteq> TaskBlocked ep \<Longrightarrow>
   unblock_scan ep is s = (Ret (), s)"
  by (induction "is") (auto split: TaskState.splits)

lemma unblock_scan_found:
  assumes "\<forall>k \<in> set pre. k < length (sch_states s) \<and> sch_states s ! k \<noteq> TaskBlocked ep"
    and "i < length (sch_states s)" "sch_states s ! i = TaskBlocked ep"
    and "i < length (sch_handles s)" "sch_handles s ! i = Some h"
    and "enqueue h (sch_ready s) = (Ret (Ok ()), r)"
  shows "unblock_scan ep (pre @ i # post) s =
    (Ret (), s\<lparr>sch_states := (sch_states s)[i := TaskReady], sch_ready := r\<rparr>)"
  using assms by (induction pre) (auto simp: Let_def split: TaskState.splits)

lemma unblock_cases:
  assumes wf: "sched_wf s"
  obtains (nobody) "\<forall>i. \<not> blocked_on ep s i" "unblock_receiver_on ep s = (Ret (), s)"
  | (woken) i h s' where "blocked_on ep s i" "\<forall>k < i. \<not> blocked_on ep s k"
      "sch_handles s ! i = Some h" "hidx h = i"
      "unblock_receiver_on ep s = (Ret (), s')" "sched_wf s'" "sch_current s' = sch_current s"
      "ready_list s' = ready_list s @ [h]" "sch_states s' = (sch_states s)[i := TaskReady]"
      "sch_handles s' = sch_handles s" "sch_contexts s' = sch_contexts s"
proof (cases "\<exists>i. blocked_on ep s i")
  case False
  then show thesis
    using sched_wfD(1) [OF wf]
    by (intro nobody) (auto simp: unblock_receiver_on_def sized_def blocked_on_def intro!: unblock_scan_none)
next
  case True
  define i where "i = (LEAST i. blocked_on ep s i)"
  have b: "blocked_on ep s i" unfolding i_def by (rule LeastI_ex [OF True])
  have first: "\<forall>k < i. \<not> blocked_on ep s k" unfolding i_def using not_less_Least by blast
  note d = sched_wfD [OF wf]
  have i: "i < TASK_ARENA_CAPACITY" "sch_states s ! i = TaskBlocked ep" using b by (simp_all add: blocked_on_def)
  obtain h where h: "sch_handles s ! i = Some h" "hidx h = i" using d(6) [OF i] by blast
  have new: "hidx h \<notin> hidx ` set (runnable s)" using d(4) i(2) h(2) by auto
  then have dist: "distinct (map hidx (h # ready_list s))" using d(2) by (auto simp: runnable_def)
  have "\<forall>x \<in> set (h # ready_list s). hidx x < TASK_ARENA_CAPACITY" using d(3) h(2) i(1) ready_runnable by auto
  then obtain r where r: "enqueue h (sch_ready s) = (Ret (Ok ()), r)" "queue_wf r"
    "queue_items r = ready_list s @ [h]" "length (sq_buf r) = TASK_ARENA_CAPACITY"
    by (rule enqueue_fits [OF d(1) dist])
  let ?s = "s\<lparr>sch_states := (sch_states s)[i := TaskReady], sch_ready := r\<rparr>"
  have split: "[0..<TASK_ARENA_CAPACITY] = [0..<i] @ i # [Suc i..<TASK_ARENA_CAPACITY]"
    using i(1) by (metis le_add_diff_inverse less_imp_le_nat upt_add_eq_append upt_conv_Cons zero_le)
  have run: "unblock_receiver_on ep s = (Ret (), ?s)"
    unfolding unblock_receiver_on_def split
    by (rule unblock_scan_found) (use d(1) i h r first in \<open>auto simp: sized_def blocked_on_def\<close>)
  have "sched_wf ?s"
    by (rule sched_wf_unblock [OF wf b h]) (use d(1) r in \<open>auto simp: sized_def ready_list_def\<close>)
  then show thesis
    by (rule woken [OF b first h run]) (use r in \<open>simp_all add: ready_list_def\<close>)
qed


section \<open>Registering tasks\<close>

lemma add_task_fresh:
  assumes wf: "sched_wf s" and i: "hidx h < TASK_ARENA_CAPACITY" "sch_states s ! hidx h = TaskIdle"
  obtains s' where "add_task ini h e p s = (Ret (Ok ()), s')" "sched_wf s'"
    "sch_current s' = sch_current s" "ready_list s' = ready_list s @ [h]"
    "sch_states s' = (sch_states s)[hidx h := TaskReady]"
    "sch_handles s' = (sch_handles s)[hidx h := Some h]"
    "sch_contexts s' = (sch_contexts s)[hidx h := ini (sch_contexts s ! hidx h) e p]"
proof -
  note d = sched_wfD [OF wf]
  have len: "length (sch_states s) = TASK_ARENA_CAPACITY" "length (sch_handles s) = TASK_ARENA_CAPACITY"
    "length (sch_contexts s) = TASK_ARENA_CAPACITY" using d(1) by (simp_all add: sized_def)
  have new: "hidx h \<notin> hidx ` set (runnable s)" using d(4) i(2) by auto
  then have dist: "distinct (map hidx (h # ready_list s))" using d(2) by (auto simp: runnable_def)
  have "\<forall>x \<in> set (h # ready_list s). hidx x < TASK_ARENA_CAPACITY" using d(3) i(1) ready_runnable by auto
  then obtain r where r: "enqueue h (sch_ready s) = (Ret (Ok ()), r)" "queue_wf r"
    "queue_items r = ready_list s @ [h]" "length (sq_buf r) = TASK_ARENA_CAPACITY"
    by (rule enqueue_fits [OF d(1) dist])
  let ?s = "s\<lparr>sch_contexts := (sch_contexts s)[hidx h := ini (sch_contexts s ! hidx h) e p], sch_ready := r,
    sch_states := (sch_states s)[hidx h := TaskReady], sch_handles := (sch_handles s)[hidx h := Some h]\<rparr>"
  have run: "add_task ini h e p s = (Ret (Ok ()), ?s)"
    using i(1) len r by (simp add: add_task_def Let_def)
  have run': "runnable ?s = runnable s @ [h]" using r by (simp add: runnable_def ready_list_def)
  have keep: "sch_states ?s ! hidx x = TaskReady \<and> sch_handles ?s ! hidx x = Some x"
    if "x \<in> set (runnable s)" for x
  proof -
    have "hidx x \<noteq> hidx h" using new that by (metis imageI)
    then show ?thesis using d(4,5) that by simp
  qed
  have "case sch_states ?s ! k of
        TaskReady \<Rightarrow> k \<in> hidx ` set (runnable ?s)
      | TaskBlocked ep \<Rightarrow> (\<exists>h. sch_handles ?s ! k = Some h \<and> hidx h = k)
      | TaskIdle \<Rightarrow> sch_handles ?s ! k = None" if k: "k < TASK_ARENA_CAPACITY" for k
  proof (cases "k = hidx h")
    case True
    then show ?thesis unfolding run' using i(1) len by simp
  next
    case False
    have "case sch_states s ! k of
        TaskReady \<Rightarrow> k \<in> hidx ` set (runnable s)
      | TaskBlocked ep \<Rightarrow> (\<exists>h. sch_handles s ! k = Some h \<and> hidx h = k)
      | TaskIdle \<Rightarrow> sch_handles s ! k = None" using wf k by (simp add: sched_wf_def)
    with False show ?thesis unfolding run' by (auto split: TaskState.splits)
  qed
  moreover have "\<forall>x \<in> set (runnable ?s). hidx x < TASK_ARENA_CAPACITY \<and>
      sch_states ?s ! hidx x = TaskReady \<and> sch_handles ?s ! hidx x = Some x"
    unfolding run' using keep d(3) i(1) len by auto
  moreover have "sized ?s" using d(1) r by (simp add: sized_def)
  moreover have "distinct (map hidx (runnable ?s))" unfolding run' using d(2) new by simp
  ultimately have "sched_wf ?s" unfolding sched_wf_def by blast
  then show thesis by (rule that [OF run]) (use r in \<open>simp_all add: ready_list_def\<close>)
qed

lemma start_prelude_head:
  assumes wf: "sched_wf s" and cur: "sch_current s = None" and ready: "ready_list s = n # ns"
  obtains s' where "start_prelude s = (Ret (hidx n), s')" "sched_wf s'" "sch_current s' = Some n"
    "ready_list s' = ns" "sch_states s' = sch_states s" "sch_handles s' = sch_handles s"
    "sch_contexts s' = sch_contexts s"
proof -
  note d = sched_wfD [OF wf]
  obtain r where r: "dequeue (sch_ready s) = (Ret (Some n), r)" "queue_wf r" "queue_items r = ns"
    "length (sq_buf r) = length (sq_buf (sch_ready s))"
    using ready_queue.deq_head [of "sch_ready s" n ns] d(1) ready by (auto simp: sized_def ready_list_def)
  have n: "hidx n < TASK_ARENA_CAPACITY" "sch_states s ! hidx n = TaskReady"
    using d(3,4) ready_runnable [of n s] ready by auto
  then have same: "(sch_states s)[hidx n := TaskReady] = sch_states s" by (metis list_update_id)
  let ?s = "s\<lparr>sch_ready := r, sch_current := Some n\<rparr>"
  have run: "start_prelude s = (Ret (hidx n), ?s)"
    using r n same d(1) by (simp add: start_prelude_def dispatch_def Let_def sized_def)
  have "sched_wf ?s"
    by (rule sched_wf_same [OF wf])
      (use d(1) r cur ready in \<open>auto simp: sized_def runnable_def ready_list_def\<close>)
  then show thesis by (rule that [OF run]) (use r in \<open>simp_all add: ready_list_def\<close>)
qed

section \<open>Round robin\<close>

definition yield_times :: "bool \<Rightarrow> nat \<Rightarrow> 'c Scheduler \<Rightarrow> 'c Scheduler" where
  "yield_times dbg k = ((\<lambda>s. snd (yield_now dbg s)) ^^ k)"

lemma yield_rotates:
  assumes "sched_wf s" and "sch_current s \<noteq> None"
  shows "sched_wf (snd (yield_now dbg s)) \<and> sch_current (snd (yield_now dbg s)) \<noteq> None \<and>
    runnable (snd (yield_now dbg s)) = rotate1 (runnable s)"
  using assms(1)
proof (cases rule: yield_cases [where dbg = dbg])
  case none
  with assms(2) show ?thesis by simp
next
  case (alone h s')
  then show ?thesis by (simp add: runnable_def)
next
  case (switch h n ns s')
  then show ?thesis by (simp add: runnable_def)
qed

text \<open>C28. Round robin: if tasks only yield, they run in the order of the ready queue, each in
  turn. After \<open>k\<close> yields the sequence running task, ready queue is the old one rotated \<open>k\<close> times;
  in particular a task at position \<open>k\<close> of the queue runs after exactly \<open>k\<close> yields, whatever the
  others are.\<close>

theorem yield_round_robin:
  assumes "sched_wf s" and "sch_current s = Some h" and "k < length (runnable s)"
  shows "sched_wf (yield_times dbg k s) \<and> runnable (yield_times dbg k s) = rotate k (runnable s) \<and>
    sch_current (yield_times dbg k s) = Some (runnable s ! k)"
proof -
  have "sched_wf (yield_times dbg j s) \<and> sch_current (yield_times dbg j s) \<noteq> None \<and>
      runnable (yield_times dbg j s) = rotate j (runnable s)" for j
    by (induction j) (use assms yield_rotates in \<open>auto simp: yield_times_def\<close>)
  from this [of k] obtain c where wf: "sched_wf (yield_times dbg k s)"
    and rot: "runnable (yield_times dbg k s) = rotate k (runnable s)"
    and cur: "sch_current (yield_times dbg k s) = Some c" by auto
  have "c = runnable (yield_times dbg k s) ! 0" using cur by (simp add: runnable_def)
  also have "\<dots> = runnable s ! k" unfolding rot using nth_rotate [of 0 "runnable s" k] assms(3)
    by (cases "runnable s = []") simp_all
  finally show ?thesis using wf rot cur by simp
qed

end
