(* ===== verification/System.thy ===== *)
theory System
  imports Sched_Properties
begin

text \<open>
  The running kernel: tasks that call the scheduler bridge of \<open>kernel/src/sched/mod.rs\<close>, one at a
  time, over shared queues and one capability table per task. A context is the point at which a
  task goes on: in its own code, or in the bridge call it was suspended in. The invariant of this
  theory ties the scheduler to the endpoints: whoever is blocked on an endpoint is the one
  receiver registered there.
\<close>

section \<open>State and steps\<close>

datatype point = Running | Suspended resume

record sys =
  sy_sched :: "point Scheduler"
  sy_point :: point
  sy_queues :: IpcQueues
  sy_tables :: "CapabilityTable list"

datatype syscall = SysYield | SysSend CapHandle Message "CapHandle option" | SysRecv CapHandle

datatype reply = RepDone | RepSend SendOutcome | RepRecv RecvOutcome | RepErr SchedError | Switched

text \<open>What becomes of a bridge call of the running task, whose table is number \<open>i\<close>. A point has no
  interrupt mask, so the guard of the switch has nothing to save here; \<open>Board_Kernel\<close> runs the same
  calls on the machine, mask included.\<close>

fun settle_call ::
  "('r \<Rightarrow> reply) \<Rightarrow> nat \<Rightarrow> sys \<Rightarrow> (SchedError, 'r progress) result run \<times> point kernel \<Rightarrow> reply run \<times> sys" where
  "settle_call f i \<sigma> (r, (s, (q, t))) =
     (let \<sigma> = \<sigma>\<lparr>sy_sched := s, sy_queues := q, sy_tables := (sy_tables \<sigma>)[i := t]\<rparr> in
      case r of
        Ret (Ok (Done x)) \<Rightarrow> (Ret (f x), \<sigma>)
      | Ret (Ok (SwitchTo cur nxt k)) \<Rightarrow>
          (case guarded_switch (Pair ()) (\<lambda>m. m) (\<lambda>c m. c) cur nxt (s, Suspended k) of
             (prev, (s', p)) \<Rightarrow> (Ret Switched, \<sigma>\<lparr>sy_sched := s', sy_point := p\<rparr>))
      | Ret (Err e) \<Rightarrow> (Ret (RepErr e), \<sigma>)
      | Panic \<Rightarrow> (Panic, \<sigma>)
      | Diverge \<Rightarrow> (Diverge, \<sigma>))"

definition bridge_call ::
  "bool \<Rightarrow> EndpointArena \<Rightarrow> syscall \<Rightarrow> nat \<Rightarrow> sys \<Rightarrow> reply run \<times> sys" where
  "bridge_call dbg ar call i \<sigma> =
     (let k = (sy_sched \<sigma>, (sy_queues \<sigma>, sy_tables \<sigma> ! i)) in
      case call of
        SysYield \<Rightarrow> settle_call (\<lambda>_. RepDone) i \<sigma> (on_fst (yield_now dbg) k)
      | SysSend c m x \<Rightarrow> settle_call RepSend i \<sigma> (ipc_send_and_yield dbg ar c m x k)
      | SysRecv c \<Rightarrow> settle_call RepRecv i \<sigma> (ipc_recv_and_yield dbg ar c k))"

definition bridge_resume ::
  "bool \<Rightarrow> EndpointArena \<Rightarrow> resume \<Rightarrow> nat \<Rightarrow> sys \<Rightarrow> reply run \<times> sys" where
  "bridge_resume dbg ar k i \<sigma> =
     (case k of
        ResumeYield \<Rightarrow> (Ret RepDone, \<sigma>\<lparr>sy_point := Running\<rparr>)
      | ResumeSend out \<Rightarrow> (Ret (RepSend out), \<sigma>\<lparr>sy_point := Running\<rparr>)
      | ResumeRecv c \<Rightarrow>
          (case ipc_recv_resume dbg ar c (sy_queues \<sigma>, sy_tables \<sigma> ! i) of (r, (q, t)) \<Rightarrow>
             (let \<sigma> = \<sigma>\<lparr>sy_queues := q, sy_tables := (sy_tables \<sigma>)[i := t], sy_point := Running\<rparr> in
              case r of
                Ret (Ok x) \<Rightarrow> (Ret (RepRecv x), \<sigma>)
              | Ret (Err e) \<Rightarrow> (Ret (RepErr e), \<sigma>)
              | Panic \<Rightarrow> (Panic, \<sigma>)
              | Diverge \<Rightarrow> (Diverge, \<sigma>))))"

text \<open>A step of the running task: it finishes the call it was suspended in, or makes a call.\<close>

definition task_step :: "bool \<Rightarrow> EndpointArena \<Rightarrow> syscall \<Rightarrow> sys \<Rightarrow> reply run \<times> sys" where
  "task_step dbg ar call \<sigma> = (case sch_current (sy_sched \<sigma>) of
     None \<Rightarrow> (Diverge, \<sigma>)
   | Some h \<Rightarrow> (case sy_point \<sigma> of
       Running \<Rightarrow> bridge_call dbg ar call (hidx h) \<sigma>
     | Suspended k \<Rightarrow> bridge_resume dbg ar k (hidx h) \<sigma>))"

inductive kstep :: "bool \<Rightarrow> EndpointArena \<Rightarrow> sys \<Rightarrow> sys \<Rightarrow> bool" for dbg ar where
  step: "task_step dbg ar call \<sigma> = (Ret r, \<sigma>') \<Longrightarrow> kstep dbg ar \<sigma> \<sigma>'"

inductive_cases kstepE: "kstep dbg ar \<sigma> \<sigma>'"

section \<open>The invariant\<close>

definition wait_inv :: "EndpointArena \<Rightarrow> IpcQueues \<Rightarrow> 'c Scheduler \<Rightarrow> bool" where
  "wait_inv ar q s \<longleftrightarrow> (\<forall>i ep. blocked_on ep s i \<longrightarrow> endpoints ar q ep = Some RecvWaiting) \<and>
     (\<forall>i j ep. blocked_on ep s i \<longrightarrow> blocked_on ep s j \<longrightarrow> i = j)"

definition sys_inv :: "EndpointArena \<Rightarrow> sys \<Rightarrow> bool" where
  "sys_inv ar \<sigma> \<longleftrightarrow> sched_wf (sy_sched \<sigma>) \<and> sch_current (sy_sched \<sigma>) \<noteq> None \<and>
     queues_wf ar (sy_queues \<sigma>) \<and> drained ar (sy_queues \<sigma>) \<and>
     length (sy_tables \<sigma>) = TASK_ARENA_CAPACITY \<and> (\<forall>t \<in> set (sy_tables \<sigma>). cap_wf t) \<and>
     wait_inv ar (sy_queues \<sigma>) (sy_sched \<sigma>)"

lemma wait_inv_same:
  "wait_inv ar q s \<Longrightarrow> sch_states s' = sch_states s \<Longrightarrow> endpoints ar q' = endpoints ar q \<Longrightarrow> wait_inv ar q' s'"
  by (simp add: wait_inv_def blocked_on_def)

lemma wait_inv_set:
  "wait_inv ar q s \<Longrightarrow> sch_states s' = sch_states s \<Longrightarrow> endpoints ar q' = (endpoints ar q)(ep \<mapsto> st) \<Longrightarrow>
   endpoints ar q ep \<noteq> Some RecvWaiting \<Longrightarrow> wait_inv ar q' s'"
  by (auto simp: wait_inv_def blocked_on_def)

lemma wait_inv_block:
  assumes "wait_inv ar q s" and "endpoints ar q ep \<noteq> Some RecvWaiting"
    and "endpoints ar q' = (endpoints ar q)(ep \<mapsto> RecvWaiting)" and "length (sch_states s) = TASK_ARENA_CAPACITY"
    and "sch_states s' = (sch_states s)[i := TaskBlocked ep]"
  shows "wait_inv ar q' s'"
proof -
  have b: "blocked_on e s' k \<longleftrightarrow> (if k = i \<and> i < TASK_ARENA_CAPACITY then e = ep else blocked_on e s k)" for e k
    using assms(4,5) by (auto simp: blocked_on_def nth_list_update)
  have "\<not> blocked_on ep s k" for k using assms(1,2) by (auto simp: wait_inv_def)
  then show ?thesis using assms(1,3) unfolding wait_inv_def b by (auto split: if_splits)
qed

lemma wait_inv_unblock:
  assumes "wait_inv ar q s" and "blocked_on ep s i"
    and "endpoints ar q' = (endpoints ar q)(ep \<mapsto> st)" and "length (sch_states s) = TASK_ARENA_CAPACITY"
    and "sch_states s' = (sch_states s)[i := TaskReady]"
  shows "wait_inv ar q' s' \<and> (\<forall>k. \<not> blocked_on ep s' k)"
proof -
  have b: "blocked_on e s' k \<longleftrightarrow> k \<noteq> i \<and> blocked_on e s k" for e k
    using assms(2,4,5) by (auto simp: blocked_on_def nth_list_update)
  have "\<not> blocked_on ep s k" if "k \<noteq> i" for k using assms(1,2) that by (auto simp: wait_inv_def)
  then show ?thesis using assms(1,3) unfolding wait_inv_def b by auto
qed

lemma sched_wf_contexts:
  assumes "sched_wf s" and "length cs = length (sch_contexts s)"
  shows "sched_wf (s\<lparr>sch_contexts := cs\<rparr>)"
  by (rule sched_wf_same [OF assms(1)])
    (use sched_wfD(1) [OF assms(1)] assms(2) in \<open>simp_all add: sized_def runnable_def ready_list_def\<close>)

section \<open>The bridge keeps the invariant and does not panic\<close>

definition kernel_ok :: "EndpointArena \<Rightarrow> 'c kernel \<Rightarrow> bool" where
  "kernel_ok ar k \<longleftrightarrow> (case k of (s, (q, t)) \<Rightarrow> sched_wf s \<and> sch_current s \<noteq> None \<and>
     queues_wf ar q \<and> drained ar q \<and> cap_wf t \<and> wait_inv ar q s)"

lemma resolve_ep_cap_eq:
  "resolve_ep_cap t c = Ret (case table_peek t c of
     Some cap \<Rightarrow> (case cap_object cap of ObjEndpoint h \<Rightarrow> Ok h | _ \<Rightarrow> Err (IpcErr InvalidCapability))
   | None \<Rightarrow> Err (IpcErr InvalidCapability))"
  by (auto simp: resolve_ep_cap_def lookup_peek split: option.splits CapObject.splits)

lemma resolve_ep_cap_of: "ep_of t c r = Some h \<Longrightarrow> resolve_ep_cap t c = Ret (Ok h)"
  by (auto simp: ep_of_def resolve_ep_cap_eq split: option.splits if_splits CapObject.splits)

lemma resolve_ep_cap_err:
  "resolve_ep_cap t c = Ret (Err e) \<Longrightarrow> ep_of t c r = None"
  by (auto simp: ep_of_def resolve_ep_cap_eq split: option.splits if_splits CapObject.splits)

lemma resolve_ep_cap_cases:
  obtains (err) e where "resolve_ep_cap t c = Ret (Err e)" | (ok) h where "resolve_ep_cap t c = Ret (Ok h)"
  by (cases "table_peek t c"; cases "cap_object (the (table_peek t c))") (auto simp: resolve_ep_cap_eq)

lemma endpoints_live: "live_ep ar h \<Longrightarrow> endpoints ar q h = Some (eff q h)"
  by (simp add: endpoints_def)

text \<open>Both bridges begin alike: resolve the capability, then call IPC. A refusal by either leaves the
  scheduler and the table alone and the endpoints as they were.\<close>

lemma bridge_refused:
  assumes bridge: "call = and_then (resolve_ep_cap t c, (s, (q, t))) (\<lambda>h k.
      and_then (map_err_run IpcErr (on_snd op k)) (rest h))"
    and ok: "kernel_ok ar (s, (q, t))" and op: "op (q, t) = (Ret (Err e), (q', t))"
    and q': "endpoints ar q' = endpoints ar q" "queues_wf ar q'" "drained ar q'"
  obtains e' q'' where "call = (Ret (Err e'), (s, (q'', t)))" "kernel_ok ar (s, (q'', t))" "endpoints ar q'' = endpoints ar q" "e' \<noteq> Deadlock"
proof (cases rule: resolve_ep_cap_cases [of t c])
  case (err e')
  moreover have "e' \<noteq> Deadlock" using err by (auto simp: resolve_ep_cap_eq split: option.splits CapObject.splits)
  ultimately show thesis by (intro that [of e' q]) (use bridge ok in simp_all)
next
  case (ok h)
  have wf: "sched_wf s" "sch_current s \<noteq> None" "cap_wf t" "wait_inv ar q s" using assms(2) by (simp_all add: kernel_ok_def)
  then have "kernel_ok ar (s, (q', t))" using q' wait_inv_same [OF wf(4) refl q'(1)] by (simp add: kernel_ok_def)
  then show thesis using bridge ok op q'(1) by (intro that [of "IpcErr e" q']) simp_all
qed

text \<open>A delivery wakes the receiver, if one is blocked, and yields.\<close>

lemma wake_and_yield:
  assumes ok: "kernel_ok ar (s, (q, t))" and ep': "endpoints ar q' = (endpoints ar q)(h \<mapsto> RecvComplete m owned)"
    and wf': "queues_wf ar q'" "drained ar q'" "cap_wf t'"
  obtains s1 p s2 where "unblock_receiver_on h s = (Ret (), s1)" "sched_wf s1" "sch_current s1 = sch_current s"
    "\<forall>k. \<not> blocked_on h s1 k" "yield_now dbg s1 = (Ret (Ok p), s2)" "kernel_ok ar (s2, (q', t'))"
proof -
  have wf: "sched_wf s" "sch_current s \<noteq> None" "wait_inv ar q s" using ok by (simp_all add: kernel_ok_def)
  have len: "length (sch_states s) = TASK_ARENA_CAPACITY" using sched_wfD(1) [OF wf(1)] by (simp add: sized_def)
  obtain s1 where s1: "unblock_receiver_on h s = (Ret (), s1)" "sched_wf s1"
    "sch_current s1 = sch_current s" "wait_inv ar q' s1" "\<forall>k. \<not> blocked_on h s1 k"
    using wf(1)
  proof (cases rule: unblock_cases [where ep = h])
    case nobody
    then have "wait_inv ar q' s" using wf(3) ep' by (auto simp: wait_inv_def)
    with nobody wf(1) show thesis by (intro that [of s]) auto
  next
    case (woken i th s')
    then show thesis using wait_inv_unblock [OF wf(3) woken(1) ep' len woken(9)] by (intro that [of s']) auto
  qed
  have "\<exists>p s2. yield_now dbg s1 = (Ret (Ok p), s2) \<and> sched_wf s2 \<and> sch_current s2 \<noteq> None \<and>
      sch_states s2 = sch_states s1"
    using s1(2) by (cases rule: yield_cases [where dbg = dbg]) (use s1(3) wf(2) in auto)
  then obtain p s2 where y: "yield_now dbg s1 = (Ret (Ok p), s2)" "sched_wf s2" "sch_current s2 \<noteq> None"
    "sch_states s2 = sch_states s1" by blast
  have "kernel_ok ar (s2, (q', t'))"
    using y wf' wait_inv_same [OF s1(4) y(4) refl] by (simp add: kernel_ok_def)
  with s1 y(1) show thesis by (intro that)
qed

text \<open>The send bridge, case by case: refused, queued without a switch, or delivered, with the
  receiver woken before the sender yields.\<close>

lemma send_bridge_cases:
  assumes ok: "kernel_ok ar (s, (q, t))"
  obtains (err) e q' where "ipc_send_and_yield dbg ar c m x (s, (q, t)) = (Ret (Err e), (s, (q', t)))"
      "kernel_ok ar (s, (q', t))" "endpoints ar q' = endpoints ar q" "e \<noteq> Deadlock"
  | (queued) h q' t' where "ipc_send_and_yield dbg ar c m x (s, (q, t)) = (Ret (Ok (Done Enqueued)), (s, (q', t')))"
      "kernel_ok ar (s, (q', t'))" "ep_of t c SEND = Some h" "endpoints ar q h = Some Idle"
  | (delivered) h q' t' s1 s2 p owned where "ep_of t c SEND = Some h" "live_ep ar h"
      "endpoints ar q h = Some RecvWaiting"
      "endpoints ar q' = (endpoints ar q)(h \<mapsto> RecvComplete m owned)"
      "unblock_receiver_on h s = (Ret (), s1)" "sched_wf s1" "sch_current s1 = sch_current s"
      "\<forall>k. \<not> blocked_on h s1 k" "yield_now dbg s1 = (Ret (Ok p), s2)"
      "ipc_send_and_yield dbg ar c m x (s, (q, t)) = (Ret (Ok (case p of
         Done _ \<Rightarrow> Done Delivered | SwitchTo a b _ \<Rightarrow> SwitchTo a b (ResumeSend Delivered))), (s2, (q', t')))"
      "kernel_ok ar (s2, (q', t'))"
proof -
  have wf: "sched_wf s" "sch_current s \<noteq> None" "queues_wf ar q" "drained ar q" "cap_wf t" "wait_inv ar q s"
    using ok by (simp_all add: kernel_ok_def)
  have dr: "dbg \<longrightarrow> drained ar q" using wf(4) by simp
  from wf(5,3) dr show thesis
  proof (cases rule: ipc_send_cases [where ep_cap = c and transfer = x and msg = m])
    case (err e q')
    show thesis
      by (rule bridge_refused [OF ipc_send_and_yield_def [of dbg ar c m x "(s, (q, t))", unfolded snd_conv] assms
            err(2-4) err(5) [OF wf(4)]]) (rule that(1))
  next
    case (ok h owned q' t')
    note v = send_verdict_Ok [OF ok(1)]
    note res = resolve_ep_cap_of [OF v(1)]
    have live: "endpoints ar q h = Some (eff q h)" by (rule endpoints_live [OF v(3)])
    show thesis
    proof (cases "eff q h = RecvWaiting")
      case False
      then have idle: "eff q h = Idle" using v(4) by (cases "eff q h") auto
      have "wait_inv ar q' s"
        by (rule wait_inv_set [OF wf(6) refl ok(5)]) (use live idle in simp)
      then have "kernel_ok ar (s, (q', t'))" using ok wf by (simp add: kernel_ok_def)
      moreover have "ipc_send_and_yield dbg ar c m x (s, (q, t)) = (Ret (Ok (Done Enqueued)), (s, (q', t')))"
        using res ok(2) idle by (simp add: ipc_send_and_yield_def send_outcome_def)
      ultimately show thesis using that(2) v(1) live idle by simp
    next
      case True
      have ep': "endpoints ar q' = (endpoints ar q)(h \<mapsto> RecvComplete m owned)"
        using ok(5) True by (simp add: sent_def)
      obtain s1 p s2 where s1: "unblock_receiver_on h s = (Ret (), s1)" "sched_wf s1" "sch_current s1 = sch_current s"
        "\<forall>k. \<not> blocked_on h s1 k" and y: "yield_now dbg s1 = (Ret (Ok p), s2)" and k: "kernel_ok ar (s2, (q', t'))"
        using wake_and_yield [OF assms ep' ok(6) ok(7) [OF wf(4)] ok(4)] by metis
      have "ipc_send_and_yield dbg ar c m x (s, (q, t)) = (Ret (Ok (case p of
         Done _ \<Rightarrow> Done Delivered | SwitchTo a b _ \<Rightarrow> SwitchTo a b (ResumeSend Delivered))), (s2, (q', t')))"
        using res ok(2) True s1(1) y by (simp add: ipc_send_and_yield_def send_outcome_def)
      then show thesis using that(3) v(1,3) live True ep' s1 y k by simp
    qed
  qed
qed

lemma recv_bridge_cases:
  assumes ok: "kernel_ok ar (s, (q, t))"
  obtains (err) e q' where "ipc_recv_and_yield dbg ar c (s, (q, t)) = (Ret (Err e), (s, (q', t)))"
      "kernel_ok ar (s, (q', t))" "endpoints ar q' = endpoints ar q" "e \<noteq> Deadlock"
  | (message) h m cap xfer q' t' where
      "ipc_recv_and_yield dbg ar c (s, (q, t)) = (Ret (Ok (Done (Received m xfer))), (s, (q', t')))"
      "kernel_ok ar (s, (q', t'))" "ep_of t c RECV = Some h" "mailbox (eff q h) = Some (m, cap)"
  | (deadlock) h q' where "ep_of t c RECV = Some h" "live_ep ar h"
      "endpoints ar q h = Some Idle" "endpoints ar q' = (endpoints ar q)(h \<mapsto> RecvWaiting)"
      "ready_list s = []" "ipc_recv_and_yield dbg ar c (s, (q, t)) = (Ret (Err Deadlock), (s, (q', t)))"
      "kernel_ok ar (s, (q', t))"
  | (blocks) h q' th n ns s' where "ep_of t c RECV = Some h" "live_ep ar h"
      "endpoints ar q h = Some Idle" "endpoints ar q' = (endpoints ar q)(h \<mapsto> RecvWaiting)"
      "sch_current s = Some th" "ready_list s = n # ns" "sch_current s' = Some n" "ready_list s' = ns"
      "sch_states s' = (sch_states s)[hidx th := TaskBlocked h]" "sch_contexts s' = sch_contexts s"
      "ipc_recv_and_yield dbg ar c (s, (q, t)) =
        (Ret (Ok (SwitchTo (hidx th) (hidx n) (ResumeRecv c))), (s', (q', t)))" "hidx th \<noteq> hidx n"
      "kernel_ok ar (s', (q', t))"
proof -
  have wf: "sched_wf s" "sch_current s \<noteq> None" "queues_wf ar q" "drained ar q" "cap_wf t" "wait_inv ar q s"
    using ok by (simp_all add: kernel_ok_def)
  have dr: "dbg \<longrightarrow> drained ar q" using wf(4) by simp
  from wf(5,3) dr show thesis
  proof (cases rule: ipc_recv_cases [where ep_cap = c])
    case (err e q')
    show thesis
      by (rule bridge_refused [OF ipc_recv_and_yield_def [of dbg ar c "(s, (q, t))", unfolded snd_conv] assms
            err(2-4) err(5) [OF wf(4)]]) (rule that(1))
  next
    case (message h msg cap xfer q' t')
    note v = recv_verdict_Ok [OF message(1)]
    have "wait_inv ar q' s"
      by (rule wait_inv_set [OF wf(6) refl message(6)]) (use endpoints_live [OF v(2)] v(4) in simp)
    then have "kernel_ok ar (s, (q', t'))" using message wf by (simp add: kernel_ok_def)
    then show thesis
      by (rule that(2) [rotated])
        (use message resolve_ep_cap_of [OF v(1)] v(1) in \<open>simp_all add: ipc_recv_and_yield_def\<close>)
  next
    case (pending h q')
    note v = recv_verdict_Ok [OF pending(1)]
    note res = resolve_ep_cap_of [OF v(1)]
    have idle: "endpoints ar q h = Some Idle" using endpoints_live [OF v(2)] pending(3) by simp
    have bridge: "ipc_recv_and_yield dbg ar c (s, (q, t)) = on_fst (block_current dbg h c) (s, (q', t))"
      using res pending(4) by (simp add: ipc_recv_and_yield_def)
    obtain th where th: "sch_current s = Some th" using wf(2) by auto
    show thesis
      using wf(1) th
    proof (cases rule: block_cases [where dbg = dbg and ep = h and c = c])
      case deadlock
      have "wait_inv ar q' s"
        by (rule wait_inv_set [OF wf(6) refl pending(5)]) (use idle in simp)
      then have "kernel_ok ar (s, (q', t))" using pending wf by (simp add: kernel_ok_def)
      with deadlock bridge show thesis
        by (intro that(3) [OF v(1,2) idle pending(5)]) simp_all
    next
      case (switch n ns s')
      have "wait_inv ar q' s'"
        by (rule wait_inv_block [OF wf(6) _ pending(5) _ switch(7)])
          (use idle sched_wfD(1) [OF wf(1)] in \<open>simp_all add: sized_def\<close>)
      then have "kernel_ok ar (s', (q', t))" using pending wf switch by (simp add: kernel_ok_def)
      with switch bridge show thesis
        by (intro that(4) [OF v(1,2) idle pending(5) th, of n ns s']) simp_all
    qed
  qed
qed

lemma settle_call_inv:
  assumes inv: "sys_inv ar \<sigma>" and k: "kernel_ok ar (s, (q, t))"
  shows "\<exists>r' \<sigma>'. settle_call f i \<sigma> (Ret r, (s, (q, t))) = (Ret r', \<sigma>') \<and> sys_inv ar \<sigma>'"
proof -
  have tabs: "\<forall>u \<in> set ((sy_tables \<sigma>)[i := t]). cap_wf u"
    using inv k set_update_subset_insert [of "sy_tables \<sigma>" i t] by (auto simp: sys_inv_def kernel_ok_def)
  have "sched_wf (s\<lparr>sch_contexts := (sch_contexts s)[a := b]\<rparr>)" for a b
    by (rule sched_wf_contexts) (use k in \<open>simp_all add: kernel_ok_def\<close>)
  moreover have "wait_inv ar q (s\<lparr>sch_contexts := (sch_contexts s)[a := b]\<rparr>)" for a b
    by (rule wait_inv_same [of ar q s]) (use k in \<open>simp_all add: kernel_ok_def\<close>)
  ultimately show ?thesis
    using inv k tabs
    by (auto simp: sys_inv_def kernel_ok_def Let_def guarded_switch_def context_switch_def split: result.splits progress.splits)
qed


lemma sys_inv_kernel:
  assumes "sys_inv ar \<sigma>" and "sch_current (sy_sched \<sigma>) = Some h"
  shows "kernel_ok ar (sy_sched \<sigma>, (sy_queues \<sigma>, sy_tables \<sigma> ! hidx h))"
proof -
  have "hidx h < TASK_ARENA_CAPACITY"
    using assms sched_wfD(3) current_runnable by (fastforce simp: sys_inv_def)
  then show ?thesis using assms by (simp add: sys_inv_def kernel_ok_def)
qed

lemma yield_bridge:
  assumes "kernel_ok ar (s, (q, t))"
  shows "\<exists>p s'. yield_now dbg s = (Ret (Ok p), s') \<and> kernel_ok ar (s', (q, t)) \<and>
    mset (runnable s') = mset (runnable s) \<and> sch_states s' = sch_states s"
proof -
  have wf: "sched_wf s" "sch_current s \<noteq> None" "wait_inv ar q s" using assms by (simp_all add: kernel_ok_def)
  from wf(1) show ?thesis
  proof (cases rule: yield_cases [where dbg = dbg])
    case none
    with wf(2) show ?thesis by simp
  next
    case (alone h s')
    then show ?thesis using assms wait_inv_same [OF wf(3) alone(7) refl]
      by (auto simp: kernel_ok_def runnable_def)
  next
    case (switch h n ns s')
    then show ?thesis using assms wait_inv_same [OF wf(3) switch(7) refl]
      by (auto simp: kernel_ok_def runnable_def)
  qed
qed

lemma bridge_call_inv:
  assumes inv: "sys_inv ar \<sigma>" and cur: "sch_current (sy_sched \<sigma>) = Some h"
  shows "\<exists>r \<sigma>'. bridge_call dbg ar call (hidx h) \<sigma> = (Ret r, \<sigma>') \<and> sys_inv ar \<sigma>'"
proof (cases call)
  case SysYield
  then show ?thesis
    using yield_bridge [OF sys_inv_kernel [OF assms], of dbg] settle_call_inv [OF inv]
    by (auto simp: bridge_call_def simp del: settle_call.simps)
next
  case (SysSend c m x)
  have "\<exists>r s q t. ipc_send_and_yield dbg ar c m x (sy_sched \<sigma>, (sy_queues \<sigma>, sy_tables \<sigma> ! hidx h)) =
      (Ret r, (s, (q, t))) \<and> kernel_ok ar (s, (q, t))"
    by (rule send_bridge_cases [OF sys_inv_kernel [OF assms], of dbg c m x]) blast+
  then show ?thesis
    using SysSend settle_call_inv [OF inv] by (auto simp: bridge_call_def simp del: settle_call.simps)
next
  case (SysRecv c)
  have "\<exists>r s q t. ipc_recv_and_yield dbg ar c (sy_sched \<sigma>, (sy_queues \<sigma>, sy_tables \<sigma> ! hidx h)) =
      (Ret r, (s, (q, t))) \<and> kernel_ok ar (s, (q, t))"
    by (rule recv_bridge_cases [OF sys_inv_kernel [OF assms], of dbg c]) blast+
  then show ?thesis
    using SysRecv settle_call_inv [OF inv] by (auto simp: bridge_call_def simp del: settle_call.simps)
qed

text \<open>A resumed receive: the delivered message, an error, or nothing there any more.\<close>

lemma recv_resume_cases:
  assumes ok: "kernel_ok ar (s, (q, t))"
  obtains (err) e q' where "ipc_recv_resume dbg ar c (q, t) = (Ret (Err (IpcErr e)), (q', t))"
      "kernel_ok ar (s, (q', t))"
  | (message) m xfer q' t' where "ipc_recv_resume dbg ar c (q, t) = (Ret (Ok (Received m xfer)), (q', t'))"
      "kernel_ok ar (s, (q', t'))"
proof -
  have wf: "queues_wf ar q" "drained ar q" "cap_wf t" "wait_inv ar q s" and rest: "sched_wf s" "sch_current s \<noteq> None"
    using ok by (simp_all add: kernel_ok_def)
  have dr: "dbg \<longrightarrow> drained ar q" using wf(2) by simp
  from wf(3,1) dr show thesis
  proof (cases rule: ipc_recv_cases [where ep_cap = c])
    case (err e q')
    then show thesis
      using that(1) [of e q'] wf rest wait_inv_same [OF wf(4) refl err(3)]
      by (simp add: ipc_recv_resume_def kernel_ok_def)
  next
    case (pending h q')
    have "wait_inv ar q' s"
      by (rule wait_inv_set [OF wf(4) refl pending(5)])
        (use endpoints_live [OF recv_verdict_Ok(2) [OF pending(1)]] pending(3) in simp)
    then show thesis
      using that(1) [of PendingAfterResume q'] wf rest pending by (simp add: ipc_recv_resume_def kernel_ok_def)
  next
    case (message h msg cap xfer q' t')
    note v = recv_verdict_Ok [OF message(1)]
    have "wait_inv ar q' s"
      by (rule wait_inv_set [OF wf(4) refl message(6)]) (use endpoints_live [OF v(2)] v(4) in simp)
    then show thesis
      using that(2) [of msg xfer q' t'] wf rest message by (simp add: ipc_recv_resume_def kernel_ok_def)
  qed
qed

lemma bridge_resume_inv:
  assumes inv: "sys_inv ar \<sigma>" and cur: "sch_current (sy_sched \<sigma>) = Some h"
  shows "\<exists>r \<sigma>'. bridge_resume dbg ar k (hidx h) \<sigma> = (Ret r, \<sigma>') \<and> sys_inv ar \<sigma>' \<and>
    sy_sched \<sigma>' = sy_sched \<sigma> \<and> r \<noteq> RepErr Deadlock"
proof (cases k)
  case (ResumeRecv c)
  have tabs: "cap_wf t \<Longrightarrow> \<forall>u \<in> set ((sy_tables \<sigma>)[hidx h := t]). cap_wf u" for t
    using inv set_update_subset_insert [of "sy_tables \<sigma>" "hidx h" t] by (auto simp: sys_inv_def)
  from sys_inv_kernel [OF assms] show ?thesis
  proof (cases rule: recv_resume_cases [where dbg = dbg and c = c])
    case (err e q')
    then show ?thesis using ResumeRecv inv by (simp add: bridge_resume_def sys_inv_def kernel_ok_def)
  next
    case (message m xfer q' t')
    then have "\<forall>u \<in> set ((sy_tables \<sigma>)[hidx h := t']). cap_wf u" by (intro tabs) (simp add: kernel_ok_def)
    then show ?thesis using message ResumeRecv inv by (simp add: bridge_resume_def sys_inv_def kernel_ok_def)
  qed
qed (use inv in \<open>simp_all add: bridge_resume_def sys_inv_def\<close>)

lemma task_step_inv:
  assumes inv: "sys_inv ar \<sigma>"
  shows "\<exists>r \<sigma>'. task_step dbg ar call \<sigma> = (Ret r, \<sigma>') \<and> sys_inv ar \<sigma>'"
proof -
  obtain h where h: "sch_current (sy_sched \<sigma>) = Some h" using inv by (auto simp: sys_inv_def)
  show ?thesis
  proof (cases "sy_point \<sigma>")
    case Running
    then show ?thesis using bridge_call_inv [OF inv h, of dbg call] h by (simp add: task_step_def)
  next
    case (Suspended k)
    then show ?thesis using bridge_resume_inv [OF inv h, of dbg k] h by (auto simp: task_step_def)
  qed
qed

lemma kstep_inv: "kstep dbg ar \<sigma> \<sigma>' \<Longrightarrow> sys_inv ar \<sigma> \<Longrightarrow> sys_inv ar \<sigma>'"
  by (erule kstepE) (metis task_step_inv Pair_inject)

lemma ksteps_inv: "(kstep dbg ar)\<^sup>*\<^sup>* \<sigma> \<sigma>' \<Longrightarrow> sys_inv ar \<sigma> \<Longrightarrow> sys_inv ar \<sigma>'"
  by (induction rule: rtranclp_induct) (auto intro: kstep_inv)

section \<open>Properties\<close>

text \<open>C4. The kernel never panics and is never stuck: from a state with the invariant, however the
  tasks call yield, send and receive, with whatever handles, in a debug or a release build, every
  step returns, and the invariant holds after it: the ready tasks are exactly those in the queue
  or running, and every blocked task is the single receiver registered on a live endpoint.\<close>

theorem kernel_never_panics:
  assumes "sys_inv ar \<sigma>" and "(kstep dbg ar)\<^sup>*\<^sup>* \<sigma> \<sigma>'"
  shows "sys_inv ar \<sigma>' \<and> (\<exists>r \<sigma>''. task_step dbg ar call \<sigma>' = (Ret r, \<sigma>'') \<and> sys_inv ar \<sigma>'')"
  using ksteps_inv [OF assms(2,1)] task_step_inv by blast


text \<open>C5. No wake-up is lost: when a send through the bridge finds a task blocked on the endpoint,
  then, in the same step, that task is made ready and put behind the tasks already waiting to run,
  the message waits for it in the endpoint, and nobody is left blocked there.\<close>

theorem no_lost_wakeup:
  assumes "sys_inv ar \<sigma>" and "sch_current (sy_sched \<sigma>) = Some h" and "blocked_on ep (sy_sched \<sigma>) i"
    and "ipc_send_and_yield dbg ar c m x (sy_sched \<sigma>, (sy_queues \<sigma>, sy_tables \<sigma> ! hidx h)) = (Ret (Ok p), (s', (q', t')))"
    and "ep_of (sy_tables \<sigma> ! hidx h) c SEND = Some ep"
  shows "\<exists>th cap. sch_handles (sy_sched \<sigma>) ! i = Some th \<and> hidx th = i \<and>
    runnable s' = ready_list (sy_sched \<sigma>) @ [th, h] \<and> sch_states s' ! i = TaskReady \<and>
    endpoints ar q' ep = Some (RecvComplete m cap) \<and> (\<forall>k. \<not> blocked_on ep s' k)"
proof -
  let ?s = "sy_sched \<sigma>" and ?q = "sy_queues \<sigma>"
  have w: "wait_inv ar ?q ?s" and wf: "sched_wf ?s" using assms(1) by (simp_all add: sys_inv_def)
  have waiting: "endpoints ar ?q ep = Some RecvWaiting" using w assms(3) by (auto simp: wait_inv_def)
  from sys_inv_kernel [OF assms(1,2)] show ?thesis
  proof (cases rule: send_bridge_cases [where dbg = dbg and c = c and m = m and x = x])
    case (err e q'')
    with assms(4) show ?thesis by simp
  next
    case (queued h' q'' t'')
    with assms(5) waiting show ?thesis by simp
  next
    case (delivered h' q'' t'' s1 s2 p' owned)
    have eq: "h' = ep" "s' = s2" "q'' = q'" using delivered(1,10) assms(4,5) by auto
    from wf obtain th where th: "sch_handles ?s ! i = Some th" "hidx th = i"
      and s1: "ready_list s1 = ready_list ?s @ [th]" "sch_states s1 = (sch_states ?s)[i := TaskReady]"
    proof (cases rule: unblock_cases [where ep = ep])
      case nobody
      with assms(3) show thesis by simp
    next
      case (woken j th s'')
      moreover have "j = i" using w woken(1) assms(3) by (auto simp: wait_inv_def)
      ultimately show thesis using that delivered(5) eq(1) by simp
    qed
    have i: "i < length (sch_states ?s)"
      using assms(3) sched_wfD(1) [OF wf] by (simp add: blocked_on_def sized_def)
    have "runnable s2 = ready_list ?s @ [th, h] \<and> sch_states s2 = sch_states s1"
      using delivered(6)
    proof (cases rule: yield_cases [where dbg = dbg])
      case none
      then show ?thesis using delivered(7) assms(2) by simp
    next
      case (alone h'' s'')
      then show ?thesis using s1 by simp
    next
      case (switch h'' n ns s'')
      then have "s'' = s2" "h'' = h" using delivered(7,9) assms(2) by auto
      then show ?thesis using switch s1(1) by (simp add: runnable_def)
    qed
    then show ?thesis
      using th s1(2) i delivered(4,8) eq by (auto simp: blocked_on_def)
  qed
qed

text \<open>C35. A refused block rolls the scheduler back but not the endpoint: when a receive finds
  nothing to run instead (\<open>Deadlock\<close>), the scheduler is exactly as before, the endpoint is left
  with a registered receiver although nobody is blocked on it, and the same receive repeated
  returns \<open>QueueFull\<close>.\<close>

theorem deadlock_keeps_registration:
  assumes "kernel_ok ar (s, (q, t))"
    and "ipc_recv_and_yield dbg ar c (s, (q, t)) = (Ret (Err Deadlock), (s', (q', t')))"
  shows "s' = s \<and> t' = t \<and> ready_list s = [] \<and>
    (\<exists>ep. ep_of t c RECV = Some ep \<and> endpoints ar q' = (endpoints ar q)(ep \<mapsto> RecvWaiting) \<and>
      (\<forall>i. \<not> blocked_on ep s' i)) \<and>
    fst (ipc_recv_and_yield dbg ar c (s', (q', t'))) = Ret (Err (IpcErr QueueFull))"
  using assms(1)
proof (cases rule: recv_bridge_cases [where dbg = dbg and c = c])
  case (deadlock ep q'')
  have eq: "s' = s" "t' = t" "q' = q''" using deadlock(6) assms(2) by auto
  have "\<not> blocked_on ep s i" for i
    using assms(1) deadlock(3) by (auto simp: kernel_ok_def wait_inv_def)
  moreover have "fst (ipc_recv_and_yield dbg ar c (s', (q', t'))) = Ret (Err (IpcErr QueueFull))"
  proof -
    have k: "cap_wf t" "queues_wf ar q''" "drained ar q''" using deadlock(7) by (simp_all add: kernel_ok_def)
    have "eff q'' ep = RecvWaiting" using eff_endpoints [OF deadlock(4,2)] by simp
    then have v: "recv_verdict ar q'' t c = Err QueueFull"
      using deadlock(1,2) by (simp add: recv_verdict_def)
    from ipc_recv_err [OF k(2) _ v, of dbg] k(3) obtain q3 where
      "ipc_recv dbg ar c (q'', t) = (Ret (Err QueueFull), (q3, t))" by blast
    then show ?thesis using eq resolve_ep_cap_of [OF deadlock(1)] by (simp add: ipc_recv_and_yield_def)
  qed
  ultimately show ?thesis using deadlock eq by blast
qed (use assms(2) in \<open>auto\<close>)

section \<open>The idle task\<close>

text \<open>Runs in which a given task only yields, as the idle task registered at boot does.\<close>

inductive idle_step :: "bool \<Rightarrow> EndpointArena \<Rightarrow> TaskHandle \<Rightarrow> sys \<Rightarrow> sys \<Rightarrow> bool" for dbg ar idle where
  step: "task_step dbg ar call \<sigma> = (Ret r, \<sigma>') \<Longrightarrow>
    sch_current (sy_sched \<sigma>) = Some idle \<longrightarrow> call = SysYield \<Longrightarrow> idle_step dbg ar idle \<sigma> \<sigma>'"

inductive_cases idle_stepE: "idle_step dbg ar idle \<sigma> \<sigma>'"

lemma settle_call_runnable:
  assumes "settle_call f i \<sigma> (Ret r, (s, qt)) = (Ret r', \<sigma>')"
  shows "runnable (sy_sched \<sigma>') = runnable s"
  using assms by (cases qt) (auto simp: Let_def guarded_switch_def context_switch_def runnable_def ready_list_def
      split: result.splits progress.splits)


lemma unblock_runnable:
  assumes "sched_wf s" and "unblock_receiver_on ep s = (Ret (), s1)"
  shows "set (runnable s) \<subseteq> set (runnable s1)"
  using assms(1) by (cases rule: unblock_cases [where ep = ep]) (use assms(2) in \<open>auto simp: runnable_def\<close>)

lemma yield_runnable:
  assumes "sched_wf s" and "yield_now dbg s = (r, s1)"
  shows "set (runnable s1) = set (runnable s)"
  using assms(1) by (cases rule: yield_cases [where dbg = dbg]) (use assms(2) in \<open>auto simp: runnable_def\<close>)

lemma send_keeps_runnable:
  assumes "kernel_ok ar (s, (q, t))" and "ipc_send_and_yield dbg ar c m x (s, (q, t)) = (r, (s', qt'))"
  shows "set (runnable s) \<subseteq> set (runnable s')"
  using assms(1)
proof (cases rule: send_bridge_cases [where dbg = dbg and c = c and m = m and x = x])
  case (delivered h q' t' s1 s2 p owned)
  have "sched_wf s" using assms(1) by (simp add: kernel_ok_def)
  with delivered have "set (runnable s) \<subseteq> set (runnable s1)" by (intro unblock_runnable)
  also have "\<dots> = set (runnable s2)" using yield_runnable [OF delivered(6,9)] by simp
  finally show ?thesis using delivered(10) assms(2) by simp
qed (use assms(2) in auto)

lemma recv_keeps_others_runnable:
  assumes "kernel_ok ar (s, (q, t))" and "ipc_recv_and_yield dbg ar c (s, (q, t)) = (r, (s', qt'))"
    and "h \<in> set (runnable s)" and "sch_current s \<noteq> Some h"
  shows "h \<in> set (runnable s') \<and> r \<noteq> Ret (Err Deadlock)"
  using assms(1)
proof (cases rule: recv_bridge_cases [where dbg = dbg and c = c])
  case (deadlock ep q')
  then have "sch_current s = Some h" using assms(1,3) by (auto simp: runnable_def kernel_ok_def)
  with assms(4) show ?thesis by simp
next
  case (blocks ep q' th n ns s'')
  then show ?thesis using assms(2-4) by (auto simp: runnable_def)
qed (use assms(2,3) in auto)

lemma bridge_call_idle:
  assumes inv: "sys_inv ar \<sigma>" and cur: "sch_current (sy_sched \<sigma>) = Some h"
    and run: "idle \<in> set (runnable (sy_sched \<sigma>))" and only: "h = idle \<longrightarrow> call = SysYield"
    and st: "bridge_call dbg ar call (hidx h) \<sigma> = (Ret r, \<sigma>')"
  shows "idle \<in> set (runnable (sy_sched \<sigma>')) \<and> r \<noteq> RepErr Deadlock"
proof -
  note k = sys_inv_kernel [OF inv cur]
  have wf: "sched_wf (sy_sched \<sigma>)" using inv by (simp add: sys_inv_def)
  let ?k = "(sy_sched \<sigma>, (sy_queues \<sigma>, sy_tables \<sigma> ! hidx h))"
  show ?thesis
  proof (cases call)
    case SysYield
    obtain p s' where y: "yield_now dbg (sy_sched \<sigma>) = (Ret (Ok p), s')"
      using yield_bridge [OF k, of dbg] by blast
    then have "settle_call (\<lambda>_. RepDone) (hidx h) \<sigma> (Ret (Ok p), (s', snd ?k)) = (Ret r, \<sigma>')"
      using st SysYield by (simp add: bridge_call_def del: settle_call.simps)
    moreover from this have "r \<noteq> RepErr Deadlock"
      by (cases p) (auto simp: Let_def guarded_switch_def context_switch_def)
    ultimately show ?thesis
      using settle_call_runnable yield_runnable [OF wf y] run by fastforce
  next
    case (SysSend c m x)
    obtain r0 s' q' t' where b: "ipc_send_and_yield dbg ar c m x ?k = (Ret r0, (s', (q', t')))"
      and nd: "r0 \<noteq> Err Deadlock"
      by (rule send_bridge_cases [OF k, of dbg c m x]) blast+
    from b have "settle_call RepSend (hidx h) \<sigma> (Ret r0, (s', (q', t'))) = (Ret r, \<sigma>')"
      using st SysSend by (simp add: bridge_call_def del: settle_call.simps)
    moreover from this nd have "r \<noteq> RepErr Deadlock"
      by (auto simp: Let_def guarded_switch_def context_switch_def split: result.splits progress.splits)
    ultimately show ?thesis
      using settle_call_runnable send_keeps_runnable [OF k b] run by fastforce
  next
    case (SysRecv c)
    then have other: "sch_current (sy_sched \<sigma>) \<noteq> Some idle" using cur only by auto
    obtain r0 s' q' t' where b: "ipc_recv_and_yield dbg ar c ?k = (Ret r0, (s', (q', t')))"
      by (rule recv_bridge_cases [OF k, of dbg c]) blast+
    note keep = recv_keeps_others_runnable [OF k b run other]
    from b have "settle_call RepRecv (hidx h) \<sigma> (Ret r0, (s', (q', t'))) = (Ret r, \<sigma>')"
      using st SysRecv by (simp add: bridge_call_def del: settle_call.simps)
    moreover from this keep have "r \<noteq> RepErr Deadlock"
      by (auto simp: Let_def guarded_switch_def context_switch_def split: result.splits progress.splits)
    ultimately show ?thesis using settle_call_runnable keep by fastforce
  qed
qed


lemma idle_step_inv:
  assumes st: "idle_step dbg ar idle \<sigma> \<sigma>'" and inv: "sys_inv ar \<sigma>" and run: "idle \<in> set (runnable (sy_sched \<sigma>))"
  shows "sys_inv ar \<sigma>' \<and> idle \<in> set (runnable (sy_sched \<sigma>'))"
  using st
proof (rule idle_stepE)
  fix call r assume step: "task_step dbg ar call \<sigma> = (Ret r, \<sigma>')"
    and only: "sch_current (sy_sched \<sigma>) = Some idle \<longrightarrow> call = SysYield"
  obtain h where h: "sch_current (sy_sched \<sigma>) = Some h" using inv by (auto simp: sys_inv_def)
  have "idle \<in> set (runnable (sy_sched \<sigma>'))"
  proof (cases "sy_point \<sigma>")
    case Running
    then show ?thesis using bridge_call_idle [OF inv h run] only step h by (auto simp: task_step_def)
  next
    case (Suspended k)
    then show ?thesis using bridge_resume_inv [OF inv h, of dbg k] step h run by (auto simp: task_step_def)
  qed
  moreover have "sys_inv ar \<sigma>'" using task_step_inv [OF inv, of dbg call] step by auto
  ultimately show ?thesis by simp
qed

lemma idle_steps_inv:
  "(idle_step dbg ar idle)\<^sup>*\<^sup>* \<sigma> \<sigma>' \<Longrightarrow> sys_inv ar \<sigma> \<Longrightarrow> idle \<in> set (runnable (sy_sched \<sigma>)) \<Longrightarrow>
   sys_inv ar \<sigma>' \<and> idle \<in> set (runnable (sy_sched \<sigma>'))"
  by (induction rule: rtranclp_induct) (auto dest: idle_step_inv)

text \<open>C11. An idle task rules out deadlock: if a task that only ever yields is registered, then along
  every run it stays in the queue or running, and no call of any task returns \<open>Deadlock\<close>.\<close>

theorem idle_prevents_deadlock:
  assumes "sys_inv ar \<sigma>" and "idle \<in> set (runnable (sy_sched \<sigma>))" and "(idle_step dbg ar idle)\<^sup>*\<^sup>* \<sigma> \<sigma>'"
    and "sch_current (sy_sched \<sigma>') = Some idle \<longrightarrow> call = SysYield"
  shows "idle \<in> set (runnable (sy_sched \<sigma>')) \<and> fst (task_step dbg ar call \<sigma>') \<noteq> Ret (RepErr Deadlock)"
proof -
  have inv: "sys_inv ar \<sigma>'" and run: "idle \<in> set (runnable (sy_sched \<sigma>'))"
    using idle_steps_inv [OF assms(3,1,2)] by auto
  obtain h where h: "sch_current (sy_sched \<sigma>') = Some h" using inv by (auto simp: sys_inv_def)
  have "fst (task_step dbg ar call \<sigma>') \<noteq> Ret (RepErr Deadlock)"
  proof (cases "sy_point \<sigma>'")
    case Running
    obtain r \<sigma>'' where b: "bridge_call dbg ar call (hidx h) \<sigma>' = (Ret r, \<sigma>'')"
      using bridge_call_inv [OF inv h] by blast
    have "r \<noteq> RepErr Deadlock" using bridge_call_idle [OF inv h run _ b] assms(4) h by auto
    then show ?thesis using Running b h by (simp add: task_step_def)
  next
    case (Suspended k)
    then show ?thesis using bridge_resume_inv [OF inv h, of dbg k] h by (auto simp: task_step_def)
  qed
  with run show ?thesis by simp
qed

section \<open>A delivered message is not reserved for the woken receiver\<close>

text \<open>C34. A task woken by a send can find the endpoint empty: if another holder of \<open>RECV\<close> has
  taken the message between the wake-up and the woken task's turn, the resumed receive returns
  \<open>PendingAfterResume\<close>, and the endpoint is left with a registered receiver although no task is
  blocked on it.\<close>

theorem stolen_message:
  assumes "sys_inv ar \<sigma>" and "sch_current (sy_sched \<sigma>) = Some h" and "sy_point \<sigma> = Suspended (ResumeRecv c)"
    and "ep_of (sy_tables \<sigma> ! hidx h) c RECV = Some ep" and "endpoints ar (sy_queues \<sigma>) ep = Some Idle"
  shows "\<exists>\<sigma>'. task_step dbg ar call \<sigma> = (Ret (RepErr (IpcErr PendingAfterResume)), \<sigma>') \<and>
    endpoints ar (sy_queues \<sigma>') ep = Some RecvWaiting \<and> (\<forall>i. \<not> blocked_on ep (sy_sched \<sigma>') i)"
proof -
  let ?q = "sy_queues \<sigma>" and ?t = "sy_tables \<sigma> ! hidx h"
  have k: "kernel_ok ar (sy_sched \<sigma>, (?q, ?t))" by (rule sys_inv_kernel [OF assms(1,2)])
  then have wf: "queues_wf ar ?q" "drained ar ?q" "wait_inv ar ?q (sy_sched \<sigma>)" by (simp_all add: kernel_ok_def)
  have live: "live_ep ar ep" "eff ?q ep = Idle" using assms(5) by (auto simp: endpoints_def split: if_splits)
  have v: "recv_verdict ar ?q ?t c = Ok ep" using assms(4) live by (simp add: recv_verdict_def)
  let ?q' = "set_state (ep_idx ep) RecvWaiting (settle ep ?q)"
  have "ipc_recv dbg ar c (?q, ?t) = (Ret (Ok Pending), (?q', ?t))"
    by (rule ipc_recv_pending [OF wf(1) _ v]) (use wf(2) live in simp_all)
  then have "task_step dbg ar call \<sigma> = (Ret (RepErr (IpcErr PendingAfterResume)),
      \<sigma>\<lparr>sy_queues := ?q', sy_tables := (sy_tables \<sigma>)[hidx h := ?t], sy_point := Running\<rparr>)"
    using assms(2,3) by (simp add: task_step_def bridge_resume_def ipc_recv_resume_def Let_def)
  moreover have "endpoints ar ?q' ep = Some RecvWaiting"
    using endpoints_set_state [OF wf(1) live(1)] by simp
  moreover have "\<not> blocked_on ep (sy_sched \<sigma>) i" for i
    using wf(3) assms(5) by (auto simp: wait_inv_def)
  ultimately show ?thesis by simp
qed

end
