(* ===== verification/Boot.thy ===== *)
theory Boot
  imports System
begin

text \<open>
  The board's boot path and the three tasks of its demo, \<open>bsp-qemu-virt/src/main.rs\<close>: creation of
  the kernel objects, the two capability tables, the scheduler with tasks B, A and idle in that
  order, and the tasks' programs as sequences of bridge calls. The hardware half of \<open>kernel_entry\<close> and
  the console output are in \<open>Kernel_Main\<close>.
\<close>

section \<open>Boot\<close>

record boot_image =
  bi_sys :: sys
  bi_arena :: EndpointArena
  bi_cap_a :: CapHandle
  bi_cap_b :: CapHandle
  bi_handle_a :: TaskHandle
  bi_handle_b :: TaskHandle
  bi_handle_idle :: TaskHandle

text \<open>Slot numbers are fixed by the order of creation: A is task 0, B is task 1, idle is task 2.
  Every \<open>expect\<close> is a branch to \<open>Panic\<close>.\<close>

definition create_demo_tasks :: "bool \<Rightarrow> (TaskHandle \<times> TaskHandle \<times> TaskHandle) run" where
  "create_demo_tasks dbg = (case create_task dbg task_arena_new (task_new 0) of
     (Ret (Ok ha), ar1) \<Rightarrow> (case create_task dbg ar1 (task_new 1) of
       (Ret (Ok hb), ar2) \<Rightarrow> (case create_task dbg ar2 (task_new 2) of
         (Ret (Ok hi), ar3) \<Rightarrow> Ret (ha, hb, hi)
       | _ \<Rightarrow> Panic)
     | _ \<Rightarrow> Panic)
   | _ \<Rightarrow> Panic)"

text \<open>The context a new task is given: it starts in its own code.\<close>

definition fresh_context :: "point \<Rightarrow> unit \<Rightarrow> unit \<Rightarrow> point" where
  "fresh_context c entry stack_top = Running"

text \<open>A task is registered with its context constructor, its entry point and the top of its stack:
  B first, then A, then idle.\<close>

definition register_demo_tasks ::
  "('c \<Rightarrow> 'e \<Rightarrow> 'p \<Rightarrow> 'c) \<Rightarrow> 'c \<Rightarrow> TaskHandle \<times> 'e \<times> 'p \<Rightarrow> TaskHandle \<times> 'e \<times> 'p \<Rightarrow>
   TaskHandle \<times> 'e \<times> 'p \<Rightarrow> 'c Scheduler run" where
  "register_demo_tasks init dflt a b i =
     (case add_task init (fst b) (fst (snd b)) (snd (snd b)) (scheduler_new dflt) of
        (Ret (Ok _), s1) \<Rightarrow> (case add_task init (fst a) (fst (snd a)) (snd (snd a)) s1 of
          (Ret (Ok _), s2) \<Rightarrow> (case add_task init (fst i) (fst (snd i)) (snd (snd i)) s2 of
            (Ret (Ok _), s3) \<Rightarrow> Ret s3
          | _ \<Rightarrow> Panic)
        | _ \<Rightarrow> Panic)
      | _ \<Rightarrow> Panic)"

definition ep_rights :: CapRights where
  "ep_rights = rights_union SEND RECV"

text \<open>The kernel objects, tables and scheduler that \<open>kernel_entry\<close> publishes before it starts the
  scheduler. Each task's table is stored at the task's slot number; idle has none.\<close>

definition kernel_setup :: "bool \<Rightarrow> boot_image run" where
  "kernel_setup dbg = (case create_demo_tasks dbg of
     Ret (ha, hb, hi) \<Rightarrow>
       (case create_endpoint dbg endpoint_arena_new (endpoint_new 0) of
          (Ret (Ok ep), ep_arena) \<Rightarrow>
            (case (insert_root (capability_new ep_rights (ObjEndpoint ep)) table_new,
                   insert_root (capability_new ep_rights (ObjEndpoint ep)) table_new) of
               ((Ret (Ok ep_cap_a), table_a), (Ret (Ok ep_cap_b), table_b)) \<Rightarrow>
                 (case register_demo_tasks fresh_context Running (ha, (), ()) (hb, (), ()) (hi, (), ()) of
                    Ret sched \<Rightarrow>
                      Ret \<lparr>bi_sys = \<lparr>sy_sched = sched, sy_point = Running, sy_queues = queues_new,
                             sy_tables = (replicate TASK_ARENA_CAPACITY table_new)
                               [hidx ha := table_a, hidx hb := table_b]\<rparr>,
                           bi_arena = ep_arena, bi_cap_a = ep_cap_a, bi_cap_b = ep_cap_b,
                           bi_handle_a = ha, bi_handle_b = hb, bi_handle_idle = hi\<rparr>
                  | _ \<Rightarrow> Panic)
             | _ \<Rightarrow> Panic)
        | _ \<Rightarrow> Panic)
   | _ \<Rightarrow> Panic)"

text \<open>The final call of \<open>kernel_entry\<close>: \<open>start\<close> switches to the first ready task.\<close>

definition start_kernel :: "boot_image \<Rightarrow> boot_image run" where
  "start_kernel b = (case start (Pair ()) (\<lambda>c m. c) (sy_sched (bi_sys b), sy_point (bi_sys b)) of
     (Ret _, (sched', p)) \<Rightarrow> Ret (b\<lparr>bi_sys := (bi_sys b)\<lparr>sy_sched := sched', sy_point := p\<rparr>\<rparr>)
   | (Panic, _) \<Rightarrow> Panic
   | (Diverge, _) \<Rightarrow> Diverge)"

section \<open>The tasks\<close>

text \<open>The next thing a task does: a bridge call, \<open>wfi\<close>, or its final \<open>spin_loop\<close>.\<close>

datatype action = Call syscall | Wfi | Spin

definition msg_a :: Message where
  "msg_a = \<lparr>msg_label = 0xAAAA, msg_params = (1, 2, 3)\<rparr>"

definition reply_b :: Message where
  "reply_b = \<lparr>msg_label = 0xBBBB, msg_params = (0, 0, 0)\<rparr>"

definition task_a :: "CapHandle \<Rightarrow> nat \<Rightarrow> action" where
  "task_a ep_cap pc = (if pc = 0 then Call (SysSend ep_cap msg_a None)
     else if pc = 1 then Call (SysRecv ep_cap) else Spin)"

definition task_b :: "CapHandle \<Rightarrow> nat \<Rightarrow> action" where
  "task_b ep_cap pc = (if pc = 0 then Call (SysRecv ep_cap)
     else if pc = 1 then Call (SysSend ep_cap reply_b None)
     else if pc = 2 then Call SysYield else Spin)"

definition idle_entry :: "nat \<Rightarrow> action" where
  "idle_entry pc = (if even pc then Wfi else Call SysYield)"

definition demo_action :: "boot_image \<Rightarrow> TaskHandle \<Rightarrow> nat \<Rightarrow> action" where
  "demo_action b h pc =
     (if h = bi_handle_a b then task_a (bi_cap_a b) pc
      else if h = bi_handle_b b then task_b (bi_cap_b b) pc
      else idle_entry pc)"

text \<open>\<open>wait_for_interrupt\<close> returns as soon as the interrupt controller signals a line to the processor,
  masked or not; \<open>signals\<close> are the lines it signals.\<close>

definition wfi_returns :: "'i set \<Rightarrow> bool" where
  "wfi_returns signals \<longleftrightarrow> signals \<noteq> {}"

text \<open>A demo state is the system, the tasks' program counters, and the replies of finished calls,
  newest first. What the running task does next: it gets on, waits in \<open>wfi\<close>, spins for good, or
  fails, that is, an \<open>expect\<close> or a \<open>panic!\<close> of its code ends the run.\<close>

type_synonym demo = "sys \<times> (TaskHandle \<Rightarrow> nat) \<times> (TaskHandle \<times> reply) list"

datatype demo_next = Next demo | Waits | Spins | Fails

definition demo_step :: "bool \<Rightarrow> 'i set \<Rightarrow> boot_image \<Rightarrow> demo \<Rightarrow> demo_next" where
  "demo_step dbg signals b d = (case d of (\<sigma>, pc, done) \<Rightarrow>
     (case sch_current (sy_sched \<sigma>) of
        None \<Rightarrow> Fails
      | Some h \<Rightarrow>
          (case (sy_point \<sigma>, demo_action b h (pc h)) of
             (Running, Wfi) \<Rightarrow> if wfi_returns signals then Next (\<sigma>, pc(h := pc h + 1), done) else Waits
           | (Running, Spin) \<Rightarrow> Spins
           | (p, act) \<Rightarrow>
               (case task_step dbg (bi_arena b) (case act of Call c \<Rightarrow> c | _ \<Rightarrow> SysYield) \<sigma> of
                  (Ret Switched, \<sigma>') \<Rightarrow> Next (\<sigma>', pc, done)
                | (Ret (RepErr e), \<sigma>') \<Rightarrow> Fails
                | (Ret (RepRecv Pending), \<sigma>') \<Rightarrow> Fails
                | (Ret r, \<sigma>') \<Rightarrow> Next (\<sigma>', pc(h := pc h + 1), (h, r) # done)
                | (_, \<sigma>') \<Rightarrow> Fails))))"

text \<open>A run sees one set of signalled lines per step; a task that waits looks again at the next one.\<close>

fun demo_run :: "bool \<Rightarrow> boot_image \<Rightarrow> 'i set list \<Rightarrow> demo \<Rightarrow> demo" where
  "demo_run dbg b [] d = d"
| "demo_run dbg b (signals # rest) d =
     (case demo_step dbg signals b d of Next d' \<Rightarrow> demo_run dbg b rest d' | _ \<Rightarrow> demo_run dbg b rest d)"

text \<open>The demo as \<open>start\<close> leaves it: no task has done anything.\<close>

definition demo_init :: "boot_image \<Rightarrow> demo" where
  "demo_init b = (bi_sys b, (\<lambda>_. 0), [])"


section \<open>The booted system\<close>

lemma replicates:
  "replicate 16 x = [x, x, x, x, x, x, x, x, x, x, x, x, x, x, x, x]"
  "replicate 14 x = [x, x, x, x, x, x, x, x, x, x, x, x, x, x]"
  "replicate 13 x = [x, x, x, x, x, x, x, x, x, x, x, x, x]"
  "replicate 3 x = [x, x, x]"
  by (simp_all add: numeral_eq_Suc)

definition handle_a :: TaskHandle where
  "handle_a = TaskHandle \<lparr>sid_index = 0, sid_generation = 0\<rparr>"

definition handle_b :: TaskHandle where
  "handle_b = TaskHandle \<lparr>sid_index = 1, sid_generation = 0\<rparr>"

definition handle_idle :: TaskHandle where
  "handle_idle = TaskHandle \<lparr>sid_index = 2, sid_generation = 0\<rparr>"

lemma demo_handles:
  "hidx handle_a = 0" "hidx handle_b = 1" "hidx handle_idle = 2"
  "handle_a \<noteq> handle_b" "handle_b \<noteq> handle_a" "handle_a \<noteq> handle_idle" "handle_idle \<noteq> handle_a"
  "handle_b \<noteq> handle_idle" "handle_idle \<noteq> handle_b"
  by (simp_all add: hidx_def handle_a_def handle_b_def handle_idle_def)

definition boot_table :: CapabilityTable where
  "boot_table = table_run True [InsertRoot (capability_new ep_rights (ObjEndpoint sample_ep))] table_new"

lemma boot_table_insert:
  "insert_root (capability_new ep_rights (ObjEndpoint sample_ep)) table_new = (Ret (Ok sample_root), boot_table)"
  by (simp add: boot_table_def table_eval sample_root_def)

lemma boot_table_lookup:
  "lookup boot_table sample_root = Ret (Ok (capability_new ep_rights (ObjEndpoint sample_ep)))"
  by (simp add: boot_table_def table_eval sample_root_def lookup_def)

lemma boot_table_wf: "cap_wf boot_table"
  by (simp add: boot_table_def table_run_wf table_new_wf del: table_run_simps)

lemma sample_ep_fields:
  "sid_index (endpoint_slot sample_ep) = 0" "sid_generation (endpoint_slot sample_ep) = 0"
  "get sample_arena (endpoint_slot sample_ep) = Some (endpoint_new 0)"
  by (simp_all add: sample_ep_def sample_arena_def endpoint_arena_new_def allocate_def
      arena_new_def arena_capacities get_def)

lemma ep_rights_contains: "rights_contains ep_rights SEND" "rights_contains ep_rights RECV"
  by (simp_all add: ep_rights_def rights_contains_def rights_union_def rights_consts)

text \<open>The value that \<open>kernel_setup\<close> and \<open>start_kernel\<close> compute: what \<open>start\<close> hands over to task B. The lemmas
  \<open>kernel_setup_eval\<close> and \<open>start_kernel_eval\<close> below show it.\<close>

definition demo_boot :: boot_image where
  "demo_boot = \<lparr>bi_sys = \<lparr>
       sy_sched = \<lparr>
         sch_ready = \<lparr>sq_buf = [None, Some handle_a, Some handle_idle] @ replicate 13 None,
           sq_head = 1, sq_len = 2\<rparr>,
         sch_states = replicate 3 TaskReady @ replicate 13 TaskIdle,
         sch_handles = [Some handle_a, Some handle_b, Some handle_idle] @ replicate 13 None,
         sch_current = Some handle_b, sch_contexts = replicate 16 Running\<rparr>,
       sy_point = Running, sy_queues = queues_new,
       sy_tables = [boot_table, boot_table] @ replicate 14 table_new\<rparr>,
     bi_arena = sample_arena, bi_cap_a = sample_root, bi_cap_b = sample_root,
     bi_handle_a = handle_a, bi_handle_b = handle_b, bi_handle_idle = handle_idle\<rparr>"

lemmas sched_eval = add_task_def Let_def scheduler_new_def queue_new_def enqueue_def start_def
  start_prelude_def dequeue_def dispatch_def arena_capacities replicates

lemma create_demo_tasks_eval: "create_demo_tasks dbg = Ret (handle_a, handle_b, handle_idle)"
  by (simp add: create_demo_tasks_def create_task_def allocate_def task_arena_new_def arena_new_def
      arena_capacities handle_a_def handle_b_def handle_idle_def)

lemma create_endpoint_eval:
  "create_endpoint dbg endpoint_arena_new (endpoint_new 0) = (Ret (Ok sample_ep), sample_arena)"
  by (simp add: create_endpoint_def allocate_def endpoint_arena_new_def arena_new_def arena_capacities
      sample_ep_def sample_arena_def)

definition demo_setup :: boot_image where
  "demo_setup = demo_boot\<lparr>bi_sys := (bi_sys demo_boot)\<lparr>sy_sched := (sy_sched (bi_sys demo_boot))\<lparr>
     sch_ready := \<lparr>sq_buf = [Some handle_b, Some handle_a, Some handle_idle] @ replicate 13 None,
       sq_head = 0, sq_len = 3\<rparr>, sch_current := None\<rparr>\<rparr>\<rparr>"

lemma kernel_setup_eval: "kernel_setup dbg = Ret demo_setup"
  by (simp add: kernel_setup_def create_demo_tasks_eval create_endpoint_eval boot_table_insert
      register_demo_tasks_def sched_eval fresh_context_def demo_handles demo_setup_def demo_boot_def)

lemma start_kernel_eval: "start_kernel demo_setup = Ret demo_boot"
  by (simp add: start_kernel_def demo_setup_def sched_eval demo_handles demo_boot_def)

text \<open>Snapshots of the demo: the ready queue (position of its head and contents), task B's state,
  the running task and its point, the saved contexts of A, B and idle, and the endpoint.\<close>

definition demo_snap ::
  "nat \<Rightarrow> TaskHandle list \<Rightarrow> TaskState \<Rightarrow> TaskHandle \<Rightarrow> point \<Rightarrow> point list \<Rightarrow> EndpointState \<Rightarrow> sys" where
  "demo_snap head items st_b cur p cs est = \<lparr>
     sy_sched = \<lparr>
       sch_ready = \<lparr>sq_buf = replicate head None @ map Some items @ replicate (16 - head - length items) None,
         sq_head = head, sq_len = length items\<rparr>,
       sch_states = [TaskReady, st_b, TaskReady] @ replicate 13 TaskIdle,
       sch_handles = [Some handle_a, Some handle_b, Some handle_idle] @ replicate 13 None,
       sch_current = Some cur, sch_contexts = cs @ replicate 13 Running\<rparr>,
     sy_point = p, sy_queues = queues_new\<lparr>iq_states := est # replicate 15 Idle\<rparr>,
     sy_tables = [boot_table, boot_table] @ replicate 14 table_new\<rparr>"

lemma replicates_small:
  "replicate 15 x = [x, x, x, x, x, x, x, x, x, x, x, x, x, x, x]"
  "replicate 12 x = [x, x, x, x, x, x, x, x, x, x, x, x]" "replicate 11 x = [x, x, x, x, x, x, x, x, x, x, x]"
  "replicate 10 x = [x, x, x, x, x, x, x, x, x, x]" "replicate 9 x = [x, x, x, x, x, x, x, x, x]"
  "replicate 2 x = [x, x]" "replicate 4 x = [x, x, x, x]" "replicate 5 x = [x, x, x, x, x]"
  by (simp_all add: numeral_eq_Suc)

lemma demo_start_snap:
  "bi_sys demo_boot = demo_snap 1 [handle_a, handle_idle] TaskReady handle_b Running [Running, Running, Running] Idle"
  by (simp add: demo_boot_def demo_snap_def queues_new_def arena_capacities replicates replicates_small)

lemma demo_boot_simps:
  "bi_arena demo_boot = sample_arena" "bi_cap_a demo_boot = sample_root" "bi_cap_b demo_boot = sample_root"
  "bi_handle_a demo_boot = handle_a" "bi_handle_b demo_boot = handle_b" "bi_handle_idle demo_boot = handle_idle"
  by (simp_all add: demo_boot_def)

lemmas demo_eval = demo_step_def demo_snap_def demo_boot_simps task_step_def bridge_call_def
  bridge_resume_def ipc_recv_and_yield_def ipc_recv_resume_def resolve_ep_cap_def boot_table_lookup
  ipc_recv_def ipc_send_and_yield_def ipc_send_def check_transfer_def take_cap_if_some_def
  install_cap_if_some_def validate_ep_cap_def ep_rights_contains sample_ep_fields peek_state_def
  state_of_def reset_if_stale_generation_def set_state_def queues_new_def block_current_def
  switch_window_def guarded_switch_def context_switch_def unblock_receiver_on_def yield_now_def demo_action_def
  task_a_def task_b_def idle_entry_def demo_handles sched_eval replicates_small

lemma demo_step_1:
  "pc handle_b = 0 \<Longrightarrow>
   demo_step dbg sg demo_boot
     (demo_snap 1 [handle_a, handle_idle] TaskReady handle_b Running [Running, Running, Running] Idle, pc, done) =
   Next (demo_snap 2 [handle_idle] (TaskBlocked sample_ep) handle_a Running
     [Running, Suspended (ResumeRecv sample_root), Running] RecvWaiting, pc, done)"
  by (simp add: demo_eval)

lemma demo_step_2:
  "pc handle_a = 0 \<Longrightarrow>
   demo_step dbg sg demo_boot
     (demo_snap 2 [handle_idle] (TaskBlocked sample_ep) handle_a Running
       [Running, Suspended (ResumeRecv sample_root), Running] RecvWaiting, pc, done) =
   Next (demo_snap 3 [handle_b, handle_a] TaskReady handle_idle Running
     [Suspended (ResumeSend Delivered), Suspended (ResumeRecv sample_root), Running] (RecvComplete msg_a None), pc, done)"
  by (simp add: demo_eval upt_rec)


lemma demo_step_3:
  "pc handle_idle = 0 \<Longrightarrow>
   demo_step dbg sg demo_boot
     (demo_snap 3 [handle_b, handle_a] TaskReady handle_idle Running
       [Suspended (ResumeSend Delivered), Suspended (ResumeRecv sample_root), Running] (RecvComplete msg_a None), pc, done) =
   (if sg = {} then Waits else Next (demo_snap 3 [handle_b, handle_a] TaskReady handle_idle Running
       [Suspended (ResumeSend Delivered), Suspended (ResumeRecv sample_root), Running] (RecvComplete msg_a None),
       pc(handle_idle := 1), done))"
  by (simp add: demo_step_def wfi_returns_def demo_snap_def demo_boot_simps demo_action_def idle_entry_def demo_handles)

lemma demo_step_4:
  "pc handle_idle = 1 \<Longrightarrow>
   demo_step dbg sg demo_boot
     (demo_snap 3 [handle_b, handle_a] TaskReady handle_idle Running
       [Suspended (ResumeSend Delivered), Suspended (ResumeRecv sample_root), Running] (RecvComplete msg_a None), pc, done) =
   Next (demo_snap 4 [handle_a, handle_idle] TaskReady handle_b (Suspended (ResumeRecv sample_root))
     [Suspended (ResumeSend Delivered), Suspended (ResumeRecv sample_root), Suspended ResumeYield]
     (RecvComplete msg_a None), pc, done)"
  by (simp add: demo_eval)

lemma demo_step_5:
  "pc handle_b = 0 \<Longrightarrow>
   demo_step dbg sg demo_boot
     (demo_snap 4 [handle_a, handle_idle] TaskReady handle_b (Suspended (ResumeRecv sample_root))
       [Suspended (ResumeSend Delivered), Suspended (ResumeRecv sample_root), Suspended ResumeYield]
       (RecvComplete msg_a None), pc, done) =
   Next (demo_snap 4 [handle_a, handle_idle] TaskReady handle_b Running
     [Suspended (ResumeSend Delivered), Suspended (ResumeRecv sample_root), Suspended ResumeYield] Idle,
     pc(handle_b := 1), (handle_b, RepRecv (Received msg_a None)) # done)"
  by (simp add: demo_eval)

lemma demo_step_6:
  "pc handle_b = 1 \<Longrightarrow>
   demo_step dbg sg demo_boot
     (demo_snap 4 [handle_a, handle_idle] TaskReady handle_b Running
       [Suspended (ResumeSend Delivered), Suspended (ResumeRecv sample_root), Suspended ResumeYield] Idle, pc, done) =
   Next (demo_snap 4 [handle_a, handle_idle] TaskReady handle_b Running
     [Suspended (ResumeSend Delivered), Suspended (ResumeRecv sample_root), Suspended ResumeYield]
     (SendPending reply_b None), pc(handle_b := 2), (handle_b, RepSend Enqueued) # done)"
  by (simp add: demo_eval numeral_2_eq_2)

lemma demo_step_7:
  "pc handle_b = 2 \<Longrightarrow>
   demo_step dbg sg demo_boot
     (demo_snap 4 [handle_a, handle_idle] TaskReady handle_b Running
       [Suspended (ResumeSend Delivered), Suspended (ResumeRecv sample_root), Suspended ResumeYield]
       (SendPending reply_b None), pc, done) =
   Next (demo_snap 5 [handle_idle, handle_b] TaskReady handle_a (Suspended (ResumeSend Delivered))
     [Suspended (ResumeSend Delivered), Suspended ResumeYield, Suspended ResumeYield]
     (SendPending reply_b None), pc, done)"
  by (simp add: demo_eval)

lemma demo_step_8:
  "pc handle_a = 0 \<Longrightarrow>
   demo_step dbg sg demo_boot
     (demo_snap 5 [handle_idle, handle_b] TaskReady handle_a (Suspended (ResumeSend Delivered))
       [Suspended (ResumeSend Delivered), Suspended ResumeYield, Suspended ResumeYield]
       (SendPending reply_b None), pc, done) =
   Next (demo_snap 5 [handle_idle, handle_b] TaskReady handle_a Running
     [Suspended (ResumeSend Delivered), Suspended ResumeYield, Suspended ResumeYield]
     (SendPending reply_b None), pc(handle_a := 1), (handle_a, RepSend Delivered) # done)"
  by (simp add: demo_eval)

lemma demo_step_9:
  "pc handle_a = 1 \<Longrightarrow>
   demo_step dbg sg demo_boot
     (demo_snap 5 [handle_idle, handle_b] TaskReady handle_a Running
       [Suspended (ResumeSend Delivered), Suspended ResumeYield, Suspended ResumeYield]
       (SendPending reply_b None), pc, done) =
   Next (demo_snap 5 [handle_idle, handle_b] TaskReady handle_a Running
     [Suspended (ResumeSend Delivered), Suspended ResumeYield, Suspended ResumeYield]
     Idle, pc(handle_a := 2), (handle_a, RepRecv (Received reply_b None)) # done)"
  by (simp add: demo_eval numeral_2_eq_2)

lemma demo_step_10:
  "pc handle_a = 2 \<Longrightarrow>
   demo_step dbg sg demo_boot
     (demo_snap 5 [handle_idle, handle_b] TaskReady handle_a Running
       [Suspended (ResumeSend Delivered), Suspended ResumeYield, Suspended ResumeYield] Idle, pc, done) = Spins"
  by (simp add: demo_step_def demo_snap_def demo_boot_simps demo_action_def task_a_def demo_handles)

lemma demo_snap_current: "sch_current (sy_sched (demo_snap hd0 items st c p cs e)) = Some c"
  by (simp add: demo_snap_def)

end
