(* ===== verification/Boot_Properties.thy ===== *)
theory Boot_Properties
  imports Boot
begin

text \<open>
  What the booted demo does, with and without a wake-up, and that boot establishes the
  invariant of \<open>System\<close>. The states of the demo also serve as the concrete runs at which the
  scheduler's and the kernel's theorems are applied.
\<close>

section \<open>Boot establishes the invariant\<close>

lemma less_16: "(\<forall>i < 16. P i) \<longleftrightarrow> P 0 \<and> P 1 \<and> P 2 \<and> P 3 \<and> P 4 \<and> P 5 \<and> P 6 \<and> P 7 \<and> P 8 \<and>
   P 9 \<and> P 10 \<and> P 11 \<and> P 12 \<and> P 13 \<and> P 14 \<and> P (15::nat)"
  by (simp add: numeral_eq_Suc All_less_Suc ac_simps)

lemma less_2: "(\<forall>i < 2. P i) \<longleftrightarrow> P 0 \<and> P (1::nat)"
  by (simp add: numeral_2_eq_2 All_less_Suc ac_simps)

lemma demo_sched_wf: "sched_wf (sy_sched (bi_sys demo_boot))"
  unfolding sched_wf_def less_16 arena_capacities sized_def 
  by (simp add: demo_boot_def runnable_def ready_list_def queue_items_def upt_rec replicates replicates_small demo_handles
    queue_wf_def less_2)

lemma demo_boot_fields:
  "sy_queues (bi_sys demo_boot) = queues_new" "sch_current (sy_sched (bi_sys demo_boot)) = Some handle_b"
  "sch_states (sy_sched (bi_sys demo_boot)) = replicate 3 TaskReady @ replicate 13 TaskIdle"
  "sy_tables (bi_sys demo_boot) = [boot_table, boot_table] @ replicate 14 table_new"
  "sy_point (bi_sys demo_boot) = Running"
  "runnable (sy_sched (bi_sys demo_boot)) = [handle_b, handle_a, handle_idle]"
  by (simp_all add: demo_boot_def runnable_def ready_list_def queue_items_def upt_rec)

lemma demo_boot_unblocked: "\<not> blocked_on ep (sy_sched (bi_sys demo_boot)) i"
  by (auto simp: blocked_on_def demo_boot_fields nth_append arena_capacities)

lemma demo_boot_inv: "sys_inv sample_arena (bi_sys demo_boot)"
  using boot_table_wf table_new_wf sample_ipc_wf demo_boot_unblocked
  by (simp add: sys_inv_def demo_sched_wf wait_inv_def demo_boot_fields arena_capacities)


section \<open>Runs of the demo\<close>

text \<open>Two states at which the demo comes to rest: the idle task waits in \<open>wfi\<close> with A's message
  delivered but not received, and task A spins after both messages have been received.\<close>

definition demo_waiting :: demo where
  "demo_waiting = (demo_snap 3 [handle_b, handle_a] TaskReady handle_idle Running
     [Suspended (ResumeSend Delivered), Suspended (ResumeRecv sample_root), Running] (RecvComplete msg_a None), (\<lambda>_. 0), [])"

definition demo_done :: demo where
  "demo_done = (demo_snap 5 [handle_idle, handle_b] TaskReady handle_a Running
     [Suspended (ResumeSend Delivered), Suspended ResumeYield, Suspended ResumeYield] Idle,
     (\<lambda>_. 0)(handle_idle := 1, handle_b := 2, handle_a := 2),
     [(handle_a, RepRecv (Received reply_b None)), (handle_a, RepSend Delivered),
      (handle_b, RepSend Enqueued), (handle_b, RepRecv (Received msg_a None))])"

lemma demo_run_2: "demo_run dbg demo_boot (S1 # S2 # Ss) (demo_init demo_boot) = demo_run dbg demo_boot Ss demo_waiting"
  by (simp add: demo_init_def demo_start_snap demo_step_1 demo_step_2 demo_waiting_def del: One_nat_def)

lemmas demo_steps = demo_step_3 demo_step_4 demo_step_5 demo_step_6 demo_step_7 demo_step_8 demo_step_9

lemma demo_waiting_step: "demo_step dbg {} demo_boot demo_waiting = Waits"
  by (simp add: demo_waiting_def demo_step_3)

lemma demo_done_step: "demo_step dbg S demo_boot demo_done = Spins"
  by (simp add: demo_done_def demo_step_10 demo_handles)

lemma demo_waits: "\<forall>S \<in> set Ss. S = {} \<Longrightarrow> demo_run dbg demo_boot Ss demo_waiting = demo_waiting"
  by (induction Ss) (simp_all add: demo_waiting_step)

lemma demo_stays: "demo_run dbg demo_boot Ss demo_done = demo_done"
  by (induction Ss) (simp_all add: demo_done_step)

lemma demo_woken:
  "S \<noteq> {} \<Longrightarrow> demo_run dbg demo_boot (S # S4 # S5 # S6 # S7 # S8 # S9 # Ss) demo_waiting = demo_run dbg demo_boot Ss demo_done"
  by (simp add: demo_waiting_def demo_done_def demo_steps demo_handles del: One_nat_def)

text \<open>Seven further sets of signals, where a list is long enough.\<close>

lemma seven_more:
  assumes "7 \<le> length Ss"
  obtains a b c d e f g r where "Ss = a # b # c # d # e # f # g # r"
  using assms by (auto simp: numeral_eq_Suc Suc_le_length_iff)

text \<open>As soon as a line is signalled, the demo gets from the first state to the second.\<close>

lemma demo_completes:
  assumes "n + 7 < length Ss" and "Ss ! n \<noteq> {}"
  shows "demo_run dbg demo_boot Ss demo_waiting = demo_done"
  using assms
proof (induction Ss arbitrary: n)
  case (Cons S Ss)
  show ?case
  proof (cases "S = {}")
    case True
    with Cons.prems obtain k where "n = Suc k" by (cases n) simp_all
    with Cons.prems True show ?thesis using Cons.IH [of k] by (simp add: demo_waiting_step)
  next
    case False
    have "7 \<le> length Ss" using Cons.prems(1) by simp
    then obtain a b c d e f g r where "Ss = a # b # c # d # e # f # g # r" by (rule seven_more)
    with False show ?thesis by (simp add: demo_woken demo_stays del: demo_run.simps)
  qed
qed simp

lemma demo_waiting_fields:
  "\<exists>\<sigma>. demo_waiting = (\<sigma>, \<lambda>_. 0, []) \<and> sch_current (sy_sched \<sigma>) = Some handle_idle \<and>
     ready_list (sy_sched \<sigma>) = [handle_b, handle_a] \<and> sy_tables \<sigma> ! hidx handle_b = boot_table \<and>
     endpoints sample_arena (sy_queues \<sigma>) sample_ep = Some (RecvComplete msg_a None)"
  by (simp add: demo_waiting_def demo_snap_def demo_handles ready_list_def queue_items_def upt_rec nth_append
      endpoints_def live_ep_def eff_def sample_ep_fields ep_idx_def ep_gen_def queues_new_def arena_capacities)

section \<open>Witnesses of the scheduler and kernel theorems\<close>

text \<open>The first steps of the demo as steps of the kernel.\<close>

lemma demo_task_step_1:
  "task_step dbg sample_arena (SysRecv sample_root) (bi_sys demo_boot) =
   (Ret Switched, demo_snap 2 [handle_idle] (TaskBlocked sample_ep) handle_a Running
     [Running, Suspended (ResumeRecv sample_root), Running] RecvWaiting)"
  by (simp add: demo_start_snap demo_eval)

definition demo_blocked :: sys where
  "demo_blocked = demo_snap 2 [handle_idle] (TaskBlocked sample_ep) handle_a Running
     [Running, Suspended (ResumeRecv sample_root), Running] RecvWaiting"

lemma demo_blocked_inv: "sys_inv sample_arena demo_blocked"
  using task_step_inv [OF demo_boot_inv, of True "SysRecv sample_root"]
  by (simp add: demo_task_step_1 demo_blocked_def)

lemma boot_table_ep: "ep_of boot_table sample_root SEND = Some sample_ep" "ep_of boot_table sample_root RECV = Some sample_ep"
  using boot_table_lookup ep_rights_contains
  by (auto simp: ep_of_def lookup_peek capability_new_def split: option.splits)

theorem yield_round_robin_witness:
  "sched_wf (sy_sched (bi_sys demo_boot)) \<and>
   sch_current (yield_times True 2 (sy_sched (bi_sys demo_boot))) = Some handle_idle"
  using yield_round_robin [OF demo_sched_wf, of handle_b 2 True] demo_sched_wf by (simp add: demo_boot_fields)

theorem kernel_never_panics_witness:
  "sys_inv sample_arena (bi_sys demo_boot) \<and> (kstep True sample_arena)\<^sup>*\<^sup>* (bi_sys demo_boot) demo_blocked \<and>
   (\<exists>r \<sigma>. task_step True sample_arena (SysSend sample_root msg_a None) demo_blocked = (Ret r, \<sigma>))"
proof -
  have "kstep True sample_arena (bi_sys demo_boot) demo_blocked"
    by (rule kstep.step [OF demo_task_step_1 [folded demo_blocked_def]])
  then have r: "(kstep True sample_arena)\<^sup>*\<^sup>* (bi_sys demo_boot) demo_blocked" by simp
  show ?thesis using kernel_never_panics [OF demo_boot_inv r] demo_boot_inv r by blast
qed

theorem no_lost_wakeup_witness:
  "\<exists>s' q' t'. ipc_send_and_yield True sample_arena sample_root msg_a None
      (sy_sched demo_blocked, (sy_queues demo_blocked, sy_tables demo_blocked ! hidx handle_a)) =
      (Ret (Ok (SwitchTo 0 2 (ResumeSend Delivered))), (s', (q', t'))) \<and>
    blocked_on sample_ep (sy_sched demo_blocked) 1 \<and> runnable s' = [handle_idle, handle_b, handle_a]"
proof -
  have run: "\<exists>s' q' t'. ipc_send_and_yield True sample_arena sample_root msg_a None
      (sy_sched demo_blocked, (sy_queues demo_blocked, sy_tables demo_blocked ! hidx handle_a)) =
      (Ret (Ok (SwitchTo 0 2 (ResumeSend Delivered))), (s', (q', t')))"
    by (simp add: demo_blocked_def demo_eval upt_rec)
  then obtain s' q' t' where run: "ipc_send_and_yield True sample_arena sample_root msg_a None
      (sy_sched demo_blocked, (sy_queues demo_blocked, sy_tables demo_blocked ! hidx handle_a)) =
      (Ret (Ok (SwitchTo 0 2 (ResumeSend Delivered))), (s', (q', t')))" by blast
  have b: "blocked_on sample_ep (sy_sched demo_blocked) 1"
    by (simp add: demo_blocked_def demo_snap_def blocked_on_def arena_capacities)
  have e: "ep_of (sy_tables demo_blocked ! hidx handle_a) sample_root SEND = Some sample_ep"
    by (simp add: demo_blocked_def demo_snap_def boot_table_ep demo_handles)
  have c: "sch_current (sy_sched demo_blocked) = Some handle_a" by (simp add: demo_blocked_def demo_snap_current)
  show ?thesis
    using no_lost_wakeup [OF demo_blocked_inv c b run e] run b
    by (auto simp: demo_blocked_def demo_snap_def ready_list_def queue_items_def nth_append)
qed

theorem idle_prevents_deadlock_witness:
  "handle_idle \<in> set (runnable (sy_sched (bi_sys demo_boot))) \<and>
   (idle_step True sample_arena handle_idle)\<^sup>*\<^sup>* (bi_sys demo_boot) demo_blocked \<and>
   fst (task_step True sample_arena (SysRecv sample_root) demo_blocked) \<noteq> Ret (RepErr Deadlock)"
proof -
  have "idle_step True sample_arena handle_idle (bi_sys demo_boot) demo_blocked"
    by (rule idle_step.step [OF demo_task_step_1 [folded demo_blocked_def]]) (simp add: demo_boot_fields demo_handles)
  then have r: "(idle_step True sample_arena handle_idle)\<^sup>*\<^sup>* (bi_sys demo_boot) demo_blocked" by simp
  have i: "handle_idle \<in> set (runnable (sy_sched (bi_sys demo_boot)))" by (simp add: demo_boot_fields)
  show ?thesis using idle_prevents_deadlock [OF demo_boot_inv i r, of "SysRecv sample_root"] r i
    by (simp add: demo_blocked_def demo_snap_current demo_handles)
qed

definition lone_sched :: "point Scheduler" where
  "lone_sched = \<lparr>sch_ready = \<lparr>sq_buf = replicate 16 None, sq_head = 1, sq_len = 0\<rparr>,
     sch_states = TaskReady # replicate 15 TaskIdle,
     sch_handles = Some handle_a # replicate 15 None, sch_current = Some handle_a,
     sch_contexts = replicate 16 Running\<rparr>"

lemma lone_sched_reached:
  "snd (start_prelude (snd (add_task fresh_context handle_a () () (scheduler_new Running)))) = lone_sched"
  by (simp add: lone_sched_def sched_eval fresh_context_def demo_handles replicates_small)

lemma lone_sched_ok: "kernel_ok sample_arena (lone_sched, (queues_new, boot_table))"
proof -
  have "sched_wf lone_sched"
    unfolding sched_wf_def less_16 arena_capacities sized_def
    by (simp add: lone_sched_def runnable_def ready_list_def queue_items_def replicates replicates_small
        demo_handles queue_wf_def)
  moreover have "\<not> blocked_on ep lone_sched i" for ep i
    by (auto simp: blocked_on_def lone_sched_def nth_Cons' arena_capacities)
  ultimately show ?thesis
    using boot_table_wf sample_ipc_wf by (simp add: kernel_ok_def wait_inv_def lone_sched_def)
qed

theorem deadlock_keeps_registration_witness:
  "\<exists>q'. ipc_recv_and_yield True sample_arena sample_root (lone_sched, (queues_new, boot_table)) =
      (Ret (Err Deadlock), (lone_sched, (q', boot_table))) \<and>
     fst (ipc_recv_and_yield True sample_arena sample_root (lone_sched, (q', boot_table))) = Ret (Err (IpcErr QueueFull))"
proof -
  obtain s' q' t' where run: "ipc_recv_and_yield True sample_arena sample_root (lone_sched, (queues_new, boot_table)) =
      (Ret (Err Deadlock), (s', (q', t')))"
    by (simp add: demo_eval lone_sched_def)
  show ?thesis using deadlock_keeps_registration [OF lone_sched_ok run] run by auto
qed

text \<open>The demo with a third task that also holds the endpoint: it runs between A's send and B's
  turn and receives in B's place.\<close>

definition thief_boot :: sys where
  "thief_boot = (bi_sys demo_boot)\<lparr>sy_tables := replicate 16 boot_table\<rparr>"

definition thief_end :: sys where
  "thief_end = (demo_snap 4 [handle_a, handle_idle] TaskReady handle_b (Suspended (ResumeRecv sample_root))
       [Suspended (ResumeSend Delivered), Suspended (ResumeRecv sample_root), Suspended ResumeYield]
       Idle)\<lparr>sy_tables := replicate 16 boot_table\<rparr>"

lemma thief_run: "(kstep dbg sample_arena)\<^sup>*\<^sup>* thief_boot thief_end"
proof -
  let ?t = "\<lambda>\<sigma>. \<sigma>\<lparr>sy_tables := replicate 16 boot_table\<rparr>"
  let ?s1 = "?t (demo_snap 2 [handle_idle] (TaskBlocked sample_ep) handle_a Running
     [Running, Suspended (ResumeRecv sample_root), Running] RecvWaiting)"
  let ?s2 = "\<lambda>e. ?t (demo_snap 3 [handle_b, handle_a] TaskReady handle_idle Running
     [Suspended (ResumeSend Delivered), Suspended (ResumeRecv sample_root), Running] e)"
  have "task_step dbg sample_arena (SysRecv sample_root) thief_boot = (Ret Switched, ?s1)"
    by (simp add: thief_boot_def demo_start_snap demo_eval)
  moreover have "task_step dbg sample_arena (SysSend sample_root msg_a None) ?s1 =
      (Ret Switched, ?s2 (RecvComplete msg_a None))"
    by (simp add: demo_eval upt_rec)
  moreover have "task_step dbg sample_arena (SysRecv sample_root) (?s2 (RecvComplete msg_a None)) =
      (Ret (RepRecv (Received msg_a None)), ?s2 Idle)"
    by (simp add: demo_eval)
  moreover have "task_step dbg sample_arena SysYield (?s2 Idle) = (Ret Switched, thief_end)"
    by (simp add: demo_eval thief_end_def)
  ultimately show ?thesis by (meson kstep.step converse_rtranclp_into_rtranclp rtranclp.rtrancl_refl)
qed

lemma thief_end_inv: "sys_inv sample_arena thief_end"
proof -
  have "sys_inv sample_arena thief_boot"
    using demo_boot_inv boot_table_wf by (simp add: sys_inv_def thief_boot_def arena_capacities)
  then show ?thesis using ksteps_inv [OF thief_run] by blast
qed

theorem stolen_message_witness:
  "(kstep True sample_arena)\<^sup>*\<^sup>* thief_boot thief_end \<and>
   (\<exists>\<sigma>. task_step True sample_arena SysYield thief_end = (Ret (RepErr (IpcErr PendingAfterResume)), \<sigma>) \<and>
     endpoints sample_arena (sy_queues \<sigma>) sample_ep = Some RecvWaiting \<and> (\<forall>i. \<not> blocked_on sample_ep (sy_sched \<sigma>) i))"
proof (rule conjI [OF thief_run])
  have cur: "sch_current (sy_sched thief_end) = Some handle_b" "sy_point thief_end = Suspended (ResumeRecv sample_root)"
    by (simp_all add: thief_end_def demo_snap_def)
  have ep: "ep_of (sy_tables thief_end ! hidx handle_b) sample_root RECV = Some sample_ep"
    by (simp add: thief_end_def demo_handles boot_table_ep)
  have idle: "endpoints sample_arena (sy_queues thief_end) sample_ep = Some Idle"
    by (simp add: thief_end_def demo_snap_def endpoints_def live_ep_def eff_def sample_ep_fields
      ep_idx_def ep_gen_def queues_new_def arena_capacities)
  from stolen_message [OF thief_end_inv cur ep idle]
  show "\<exists>\<sigma>. task_step True sample_arena SysYield thief_end = (Ret (RepErr (IpcErr PendingAfterResume)), \<sigma>) \<and>
     endpoints sample_arena (sy_queues \<sigma>) sample_ep = Some RecvWaiting \<and> (\<forall>i. \<not> blocked_on sample_ep (sy_sched \<sigma>) i)" .
qed
end
