(* ===== verification/Hal_Contracts.thy ===== *)
theory Hal_Contracts
  imports Scheduler
begin

text \<open>
  The contracts of the hardware interfaces, \<open>hal/src\<close>, as locales: interrupt masking
  (\<open>Cpu\<close>, with \<open>IrqGuard\<close> on top), interrupt lines (\<open>IrqController\<close>), saved task contexts
  (\<open>ContextSwitch\<close>), the one-shot timer (\<open>Timer\<close>) and address spaces (\<open>Mmu\<close>). What the
  kernel's side needs of them is proved here once; the boards and the test doubles interpret
  them.
\<close>

section \<open>Interrupt masking\<close>

text \<open>\<open>IrqGuard::new\<close> and \<open>drop\<close>: the body runs between them. A critical section contains other
  critical sections, in order.\<close>

datatype critical = Critical "critical list"

fun run_section :: "('m \<Rightarrow> 's \<times> 'm) \<Rightarrow> ('s \<Rightarrow> 'm \<Rightarrow> 'm) \<Rightarrow> critical \<Rightarrow> 'm \<Rightarrow> 'm" where
  "run_section dis res (Critical cs) m =
     (case dis m of (prev, m') \<Rightarrow> res prev (fold (run_section dis res) cs m'))"

locale irq_masking =
  fixes disable_irqs :: "'m \<Rightarrow> 's \<times> 'm"
    and restore_irq_state :: "'s \<Rightarrow> 'm \<Rightarrow> 'm"
    and irqs_enabled :: "'m \<Rightarrow> bool"
  assumes masks: "\<not> irqs_enabled (snd (disable_irqs m))"
    and restores: "irqs_enabled (restore_irq_state (fst (disable_irqs m)) m') = irqs_enabled m"
begin

lemma section_keeps_mask: "irqs_enabled (run_section disable_irqs restore_irq_state c m) = irqs_enabled m"
proof (cases c)
  case (Critical cs)
  then show ?thesis using restores [of m] by (cases "disable_irqs m") simp
qed

lemma sections_keep_mask:
  "irqs_enabled (fold (run_section disable_irqs restore_irq_state) cs m) = irqs_enabled m"
  by (induction cs arbitrary: m) (simp_all add: section_keeps_mask)

lemma masked_throughout:
  "\<not> irqs_enabled (fold (run_section disable_irqs restore_irq_state) cs (snd (disable_irqs m)))"
  using masks by (simp add: sections_keep_mask)

end

section \<open>Interrupt lines\<close>

datatype IrqNumber = IrqNumber (irq_num: u32)

datatype line_op = LineEnable IrqNumber | LineDisable IrqNumber

fun lines_after :: "line_op list \<Rightarrow> IrqNumber set \<Rightarrow> IrqNumber set" where
  "lines_after [] S = S"
| "lines_after (LineEnable i # ops) S = lines_after ops (insert i S)"
| "lines_after (LineDisable i # ops) S = lines_after ops (S - {i})"

fun run_lines :: "(IrqNumber \<Rightarrow> 'c \<Rightarrow> 'c) \<Rightarrow> (IrqNumber \<Rightarrow> 'c \<Rightarrow> 'c) \<Rightarrow> line_op list \<Rightarrow> 'c \<Rightarrow> 'c" where
  "run_lines en dis [] c = c"
| "run_lines en dis (LineEnable i # ops) c = run_lines en dis ops (en i c)"
| "run_lines en dis (LineDisable i # ops) c = run_lines en dis ops (dis i c)"

fun op_line :: "line_op \<Rightarrow> IrqNumber" where
  "op_line (LineEnable i) = i"
| "op_line (LineDisable i) = i"

locale irq_lines =
  fixes enable :: "IrqNumber \<Rightarrow> 'c \<Rightarrow> 'c"
    and disable :: "IrqNumber \<Rightarrow> 'c \<Rightarrow> 'c"
    and enabled :: "'c \<Rightarrow> IrqNumber set"
    and valid :: "IrqNumber \<Rightarrow> bool"
  assumes enable_sets: "valid i \<Longrightarrow> enabled (enable i c) = insert i (enabled c)"
    and disable_clears: "valid i \<Longrightarrow> enabled (disable i c) = enabled c - {i}"
begin

lemma enabled_after_ops:
  "\<forall>op \<in> set ops. valid (op_line op) \<Longrightarrow> enabled (run_lines enable disable ops c) = lines_after ops (enabled c)"
proof (induction ops arbitrary: c)
  case (Cons op ops)
  then show ?case by (cases op) (simp_all add: enable_sets disable_clears)
qed simp

lemma enable_idempotent: "valid i \<Longrightarrow> enabled (enable i (enable i c)) = enabled (enable i c)"
  by (simp add: enable_sets)

end

section \<open>Task contexts\<close>

text \<open>A sequence of switches; before each, the running task has changed the machine.\<close>

fun switches ::
  "('m \<Rightarrow> 'c) \<Rightarrow> ('c \<Rightarrow> 'm \<Rightarrow> 'm) \<Rightarrow> (nat \<times> nat \<times> ('m \<Rightarrow> 'm)) list \<Rightarrow> 'c Scheduler \<times> 'm \<Rightarrow> 'c Scheduler \<times> 'm" where
  "switches save load [] sm = sm"
| "switches save load ((cur, nxt, f) # ops) sm =
     switches save load ops (context_switch save load cur nxt (fst sm, f (snd sm)))"

locale task_contexts =
  fixes save :: "'m \<Rightarrow> 'c" and load :: "'c \<Rightarrow> 'm \<Rightarrow> 'm" and wf :: "'c \<Rightarrow> bool"
  assumes save_load: "wf c \<Longrightarrow> save (load c m) = c"
    and save_wf: "wf (save m)"
begin

lemma switches_keep:
  "\<forall>(cur, nxt, f) \<in> set ops. cur \<noteq> i \<Longrightarrow>
   sch_contexts (fst (switches save load ops sm)) ! i = sch_contexts (fst sm) ! i \<and>
   length (sch_contexts (fst (switches save load ops sm))) = length (sch_contexts (fst sm))"
  by (induction ops arbitrary: sm) (auto simp: context_switch_def split: prod.split)

text \<open>A task that is switched out and later switched in again has the registers it had.\<close>

lemma switched_back:
  assumes "i < length (sch_contexts s)" and "\<forall>(cur, nxt, f) \<in> set ops. cur \<noteq> i" and "k \<noteq> i"
  shows "save (snd (switches save load ((i, j, f) # ops @ [(k, i, g)]) (s, m))) = save (f m)"
proof -
  let ?sm = "context_switch save load i j (s, f m)"
  have app: "switches save load (ops @ [(k, i, g)]) sm =
      context_switch save load k i (fst (switches save load ops sm), g (snd (switches save load ops sm)))" for sm
    by (induction save load ops sm rule: switches.induct) simp_all
  have "sch_contexts (fst ?sm) ! i = save (f m)" "length (sch_contexts (fst ?sm)) = length (sch_contexts s)"
    using assms(1) by (simp_all add: context_switch_def)
  with switches_keep [OF assms(2), of ?sm]
  have "sch_contexts (fst (switches save load ops ?sm)) ! i = save (f m)" by simp
  then show ?thesis
    by (simp add: app) (simp add: context_switch_def save_load save_wf)
qed

end

section \<open>One-shot timer\<close>

text \<open>\<open>asserts t c\<close>: with the counter at \<open>c\<close> the timer of state \<open>t\<close> asserts its interrupt.\<close>

locale one_shot_timer =
  fixes now_ns :: "'n \<Rightarrow> u64" and arm_deadline :: "u64 \<Rightarrow> 't \<Rightarrow> 't" and cancel_deadline :: "'t \<Rightarrow> 't"
    and asserts :: "'t \<Rightarrow> 'n \<Rightarrow> bool"
  assumes arm_fires: "asserts (arm_deadline d t) c \<longleftrightarrow> d \<le> now_ns c"
    and cancel_clears: "\<not> asserts (cancel_deadline t) c"
begin

lemma rearm_replaces: "asserts (arm_deadline d (arm_deadline d' t)) c = asserts (arm_deadline d t) c"
  by (simp add: arm_fires)

lemma past_deadline_fires: "d \<le> now_ns c \<Longrightarrow> asserts (arm_deadline d t) c"
  by (simp add: arm_fires)

end

end
