(* ===== verification/Aarch64.thy ===== *)
theory Aarch64
  imports Hal_Contracts
begin

text \<open>
  The register-level half of the board, \<open>bsp-qemu-virt/src/cpu.rs\<close>: the context-switch assembly as
  a list of instructions over registers and memory, the initial context of a task, and the
  interrupt mask. The assembly is shown to implement the context switch the scheduler assumes.
\<close>

section \<open>Machine\<close>

text \<open>The registers and the memory the board code touches. Memory is read and written in aligned
  doublewords, named by their address; \<open>d\<close> registers are the low halves of the vector registers.\<close>

record machine =
  m_x :: "nat \<Rightarrow> u64"
  m_d :: "nat \<Rightarrow> u64"
  m_sp :: u64
  m_pc :: u64
  m_daif :: u64
  m_mem :: "u64 \<Rightarrow> u64"

datatype reg = X nat | D nat

datatype instr =
    Stp reg reg nat nat
  | Str nat nat nat
  | Ldp reg reg nat nat
  | Ldr nat nat nat
  | MovFromSp nat
  | MovToSp nat
  | RetLr

fun reg_get :: "reg \<Rightarrow> 'a machine_scheme \<Rightarrow> u64" where
  "reg_get (X n) m = m_x m n"
| "reg_get (D n) m = m_d m n"

fun reg_put :: "reg \<Rightarrow> u64 \<Rightarrow> 'a machine_scheme \<Rightarrow> 'a machine_scheme" where
  "reg_put (X n) v m = m\<lparr>m_x := (m_x m)(n := v)\<rparr>"
| "reg_put (D n) v m = m\<lparr>m_d := (m_d m)(n := v)\<rparr>"

fun exec :: "instr \<Rightarrow> 'a machine_scheme \<Rightarrow> 'a machine_scheme" where
  "exec (Stp a b n off) m = (let p = m_x m n + of_nat off in
     m\<lparr>m_mem := (m_mem m)(p := reg_get a m, p + 8 := reg_get b m)\<rparr>)"
| "exec (Str a n off) m = m\<lparr>m_mem := (m_mem m)(m_x m n + of_nat off := m_x m a)\<rparr>"
| "exec (Ldp a b n off) m = (let p = m_x m n + of_nat off in
     reg_put b (m_mem m (p + 8)) (reg_put a (m_mem m p) m))"
| "exec (Ldr a n off) m = reg_put (X a) (m_mem m (m_x m n + of_nat off)) m"
| "exec (MovFromSp a) m = reg_put (X a) (m_sp m) m"
| "exec (MovToSp a) m = m\<lparr>m_sp := m_x m a\<rparr>"
| "exec RetLr m = m\<lparr>m_pc := m_x m 30\<rparr>"

definition execs :: "instr list \<Rightarrow> machine \<Rightarrow> machine" where
  "execs is m = fold exec is m"

section \<open>Task contexts\<close>

record Aarch64TaskContext =
  x19_x28 :: "u64 list"
  ctx_fp :: u64
  ctx_lr :: u64
  ctx_sp :: u64
  d8_d15 :: "u64 list"

definition context_default :: Aarch64TaskContext where
  "context_default = \<lparr>x19_x28 = replicate 10 0, ctx_fp = 0, ctx_lr = 0, ctx_sp = 0, d8_d15 = replicate 8 0\<rparr>"

definition context_switch_asm :: "instr list" where
  "context_switch_asm = [
     Stp (X 19) (X 20) 0 0,
     Stp (X 21) (X 22) 0 16,
     Stp (X 23) (X 24) 0 32,
     Stp (X 25) (X 26) 0 48,
     Stp (X 27) (X 28) 0 64,
     Stp (X 29) (X 30) 0 80,
     MovFromSp 8,
     Str 8 0 96,
     Stp (D 8) (D 9) 0 104,
     Stp (D 10) (D 11) 0 120,
     Stp (D 12) (D 13) 0 136,
     Stp (D 14) (D 15) 0 152,
     Ldp (D 14) (D 15) 1 152,
     Ldp (D 12) (D 13) 1 136,
     Ldp (D 10) (D 11) 1 120,
     Ldp (D 8) (D 9) 1 104,
     Ldr 8 1 96,
     MovToSp 8,
     Ldp (X 29) (X 30) 1 80,
     Ldp (X 27) (X 28) 1 64,
     Ldp (X 25) (X 26) 1 48,
     Ldp (X 23) (X 24) 1 32,
     Ldp (X 21) (X 22) 1 16,
     Ldp (X 19) (X 20) 1 0,
     RetLr]"

text \<open>The call passes the two contexts in x0 and x1.\<close>

definition switch_call :: "u64 \<Rightarrow> u64 \<Rightarrow> machine \<Rightarrow> machine" where
  "switch_call current next m = execs context_switch_asm (m\<lparr>m_x := (m_x m)(0 := current, 1 := next)\<rparr>)"

text \<open>The states the processor goes through on the way: before each instruction, and after the last.\<close>

definition switch_states :: "u64 \<Rightarrow> u64 \<Rightarrow> machine \<Rightarrow> machine list" where
  "switch_states current next m =
     map (\<lambda>k. execs (take k context_switch_asm) (m\<lparr>m_x := (m_x m)(0 := current, 1 := next)\<rparr>))
       [0..<Suc (length context_switch_asm)]"

definition init_context :: "Aarch64TaskContext \<Rightarrow> u64 \<Rightarrow> u64 \<Rightarrow> Aarch64TaskContext" where
  "init_context ctx entry stack_top = ctx\<lparr>ctx_lr := entry, ctx_sp := stack_top\<rparr>"

text \<open>The board's interrupt mask: \<open>DAIF\<close> holds the four mask bits at positions 6 to 9, the one for
  interrupts at 7.\<close>

definition cpu_disable_irqs :: "'a machine_scheme \<Rightarrow> u64 \<times> 'a machine_scheme" where
  "cpu_disable_irqs m = (m_daif m, m\<lparr>m_daif := m_daif m OR 0x3C0\<rparr>)"

definition cpu_restore_irq_state :: "u64 \<Rightarrow> 'a machine_scheme \<Rightarrow> 'a machine_scheme" where
  "cpu_restore_irq_state state m = m\<lparr>m_daif := state AND 0x3C0\<rparr>"

definition cpu_irqs_enabled :: "'a machine_scheme \<Rightarrow> bool" where
  "cpu_irqs_enabled m \<longleftrightarrow> \<not> bit (m_daif m) 7"

text \<open>A context in memory, in \<open>repr(C)\<close> layout; the scheduler's array of them.\<close>

definition ctx_at :: "(u64 \<Rightarrow> u64) \<Rightarrow> u64 \<Rightarrow> Aarch64TaskContext" where
  "ctx_at mem p = \<lparr>
     x19_x28 = [mem p, mem (p + 8), mem (p + 16), mem (p + 24), mem (p + 32), mem (p + 40),
       mem (p + 48), mem (p + 56), mem (p + 64), mem (p + 72)],
     ctx_fp = mem (p + 80), ctx_lr = mem (p + 88), ctx_sp = mem (p + 96),
     d8_d15 = [mem (p + 104), mem (p + 112), mem (p + 120), mem (p + 128), mem (p + 136),
       mem (p + 144), mem (p + 152), mem (p + 160)]\<rparr>"

definition ctx_addr :: "u64 \<Rightarrow> nat \<Rightarrow> u64" where
  "ctx_addr base i = base + of_nat (168 * i)"

definition contexts_at :: "(u64 \<Rightarrow> u64) \<Rightarrow> u64 \<Rightarrow> nat \<Rightarrow> Aarch64TaskContext list" where
  "contexts_at mem base n = map (\<lambda>i. ctx_at mem (ctx_addr base i)) [0..<n]"

text \<open>What the machine's registers say as a context, and the registers set from one.\<close>

definition ctx_save :: "machine \<Rightarrow> Aarch64TaskContext" where
  "ctx_save m = \<lparr>x19_x28 = map (m_x m) [19..<29], ctx_fp = m_x m 29, ctx_lr = m_x m 30, ctx_sp = m_sp m,
     d8_d15 = map (m_d m) [8..<16]\<rparr>"

fun put_list :: "nat \<Rightarrow> u64 list \<Rightarrow> (nat \<Rightarrow> u64) \<Rightarrow> nat \<Rightarrow> u64" where
  "put_list k [] f = f"
| "put_list k (x # xs) f = put_list (k + 1) xs (f(k := x))"

definition ctx_load :: "Aarch64TaskContext \<Rightarrow> 'a machine_scheme \<Rightarrow> 'a machine_scheme" where
  "ctx_load c m = m\<lparr>
     m_x := put_list 19 (x19_x28 c) ((m_x m)(8 := ctx_sp c, 29 := ctx_fp c, 30 := ctx_lr c)),
     m_d := put_list 8 (d8_d15 c) (m_d m),
     m_sp := ctx_sp c, m_pc := ctx_lr c\<rparr>"

definition ctx_wf :: "Aarch64TaskContext \<Rightarrow> bool" where
  "ctx_wf c \<longleftrightarrow> length (x19_x28 c) = 10 \<and> length (d8_d15 c) = 8"

section \<open>The assembly saves and loads contexts\<close>

lemma put_list_apply: "put_list k xs f n = (if k \<le> n \<and> n < k + length xs then xs ! (n - k) else f n)"
  by (induction xs arbitrary: k f) (auto simp: nth_Cons' Suc_diff_le)

lemma map_put_list: "map (put_list k xs f) [k..<k + length xs] = xs"
  by (rule nth_equalityI) (simp_all add: put_list_apply)

lemma save_load: "ctx_wf c \<Longrightarrow> ctx_save (ctx_load c m) = c"
  using map_put_list [of 19 "x19_x28 c"] map_put_list [of 8 "d8_d15 c"]
  by (simp add: ctx_wf_def ctx_save_def ctx_load_def put_list_apply del: upt_rec_numeral upt_Suc)

definition save_asm :: "instr list" where
  "save_asm = take 12 context_switch_asm"

definition load_asm :: "instr list" where
  "load_asm = drop 12 context_switch_asm"

lemma load_asm_load:
  assumes "m_x m 1 = q"
  shows "execs load_asm m = ctx_load (ctx_at (m_mem m) q) m"
  using assms
  by (simp add: load_asm_def context_switch_asm_def execs_def ctx_load_def ctx_at_def Let_def add.assoc)
    (simp add: fun_eq_iff)

definition ctx_cells :: "u64 \<Rightarrow> u64 set" where
  "ctx_cells p = (\<lambda>i. p + of_nat (8 * i)) ` {..<21}"

lemma ctx_cells_eq: "ctx_cells p = {p, p + 8, p + 16, p + 24, p + 32, p + 40, p + 48, p + 56, p + 64, p + 72,
    p + 80, p + 88, p + 96, p + 104, p + 112, p + 120, p + 128, p + 136, p + 144, p + 152, p + 160}"
  by (simp add: ctx_cells_def lessThan_nat_numeral lessThan_Suc insert_commute)

lemma ctx_at_cong: "(\<And>a. a \<in> ctx_cells q \<Longrightarrow> mem a = mem' a) \<Longrightarrow> ctx_at mem q = ctx_at mem' q"
  by (simp add: ctx_at_def ctx_cells_eq)

lemma save_asm_eval:
  assumes "m_x m 0 = p"
  shows "execs save_asm m = m\<lparr>m_x := (m_x m)(8 := m_sp m), m_mem := (m_mem m)(
    p := m_x m 19, p + 8 := m_x m 20, p + 16 := m_x m 21, p + 24 := m_x m 22, p + 32 := m_x m 23,
    p + 40 := m_x m 24, p + 48 := m_x m 25, p + 56 := m_x m 26, p + 64 := m_x m 27, p + 72 := m_x m 28,
    p + 80 := m_x m 29, p + 88 := m_x m 30, p + 96 := m_sp m, p + 104 := m_d m 8, p + 112 := m_d m 9,
    p + 120 := m_d m 10, p + 128 := m_d m 11, p + 136 := m_d m 12, p + 144 := m_d m 13,
    p + 152 := m_d m 14, p + 160 := m_d m 15)\<rparr>"
  using assms by (simp add: save_asm_def context_switch_asm_def execs_def Let_def add.assoc)

lemma save_asm_save:
  assumes "m_x m 0 = p" and "execs save_asm m = m'"
  shows "ctx_at (m_mem m') p = ctx_save m" "a \<notin> ctx_cells p \<Longrightarrow> m_mem m' a = m_mem m a"
    "m' = m\<lparr>m_x := (m_x m)(8 := m_sp m), m_mem := m_mem m'\<rparr>"
  using save_asm_eval [OF assms(1)] assms(2)
  by (auto simp: ctx_at_def ctx_save_def ctx_cells_eq)

lemma switch_call_effect:
  assumes "ctx_cells p \<inter> ctx_cells q = {}" and "switch_call p q m = m'"
  shows "ctx_at (m_mem m') p = ctx_save m" "a \<notin> ctx_cells p \<Longrightarrow> m_mem m' a = m_mem m a"
    "m' = ctx_load (ctx_at (m_mem m) q) (m\<lparr>m_x := (m_x m)(0 := p, 1 := q), m_mem := m_mem m'\<rparr>)"
proof -
  define m0 where "m0 = m\<lparr>m_x := (m_x m)(0 := p, 1 := q)\<rparr>"
  define m1 where "m1 = execs save_asm m0"
  have split: "context_switch_asm = save_asm @ load_asm" by (simp add: save_asm_def load_asm_def)
  have m': "m' = execs load_asm m1"
    using assms(2) by (simp add: switch_call_def split m0_def m1_def execs_def)
  note s = save_asm_save [of m0 p m1, OF _ m1_def [symmetric]]
  have m1: "m1 = m0\<lparr>m_x := (m_x m0)(8 := m_sp m0), m_mem := m_mem m1\<rparr>" using s(3) by (simp add: m0_def)
  have x1: "m_x m1 1 = q" by (subst m1) (simp add: m0_def)
  have load: "m' = ctx_load (ctx_at (m_mem m1) q) m1" using load_asm_load [OF x1] m' by simp
  then have mem: "m_mem m' = m_mem m1" by (simp add: ctx_load_def)
  have keep: "a \<notin> ctx_cells p \<Longrightarrow> m_mem m1 a = m_mem m a" for a using s(2) [of a] by (simp add: m0_def)
  then have "ctx_at (m_mem m1) q = ctx_at (m_mem m) q"
    using assms(1) by (intro ctx_at_cong) blast
  with load show "m' = ctx_load (ctx_at (m_mem m) q) (m\<lparr>m_x := (m_x m)(0 := p, 1 := q), m_mem := m_mem m'\<rparr>)"
    unfolding mem by (subst (asm) m1) (simp add: ctx_load_def m0_def fun_upd_twist)
  show "ctx_at (m_mem m') p = ctx_save m" using s(1) unfolding mem by (simp add: m0_def ctx_save_def)
  show "a \<notin> ctx_cells p \<Longrightarrow> m_mem m' a = m_mem m a" using keep mem by simp
qed

lemma switch_states_last: "last (switch_states p q m) = switch_call p q m"
  by (simp add: switch_states_def switch_call_def)

text \<open>No instruction of the switch touches the interrupt mask.\<close>

lemma exec_daif: "m_daif (exec i m) = m_daif m"
proof -
  have "m_daif (reg_put r v m) = m_daif m" for r v and m :: "'a machine_scheme" by (cases r) simp_all
  then show ?thesis by (cases i) (simp_all add: Let_def del: reg_put.simps)
qed

lemma switch_states_daif: "w \<in> set (switch_states p q m) \<Longrightarrow> m_daif w = m_daif m"
proof -
  have "m_daif (execs is m) = m_daif m" for "is" m by (induction "is" arbitrary: m) (simp_all add: execs_def exec_daif)
  then show "w \<in> set (switch_states p q m) \<Longrightarrow> m_daif w = m_daif m" by (auto simp: switch_states_def)
qed

section \<open>The scheduler's context array\<close>

lemma ctx_addr_disjoint:
  assumes "i \<noteq> j" and "i < TASK_ARENA_CAPACITY" and "j < TASK_ARENA_CAPACITY"
  shows "ctx_cells (ctx_addr base i) \<inter> ctx_cells (ctx_addr base j) = {}"
proof -
  have False if "ctx_addr base i + of_nat (8 * k) = ctx_addr base j + of_nat (8 * l)" "k < 21" "l < 21" for k l
  proof -
    define a b where "a = 168 * i + 8 * k" and "b = 168 * j + 8 * l"
    have "(of_nat a :: u64) = of_nat b"
      using that(1) by (simp add: a_def b_def ctx_addr_def add.assoc)
    then have "unat (of_nat a :: u64) = unat (of_nat b :: u64)" by simp
    moreover have "a < 2 ^ 64" "b < 2 ^ 64"
      using assms(2,3) that(2,3) by (simp_all add: a_def b_def arena_capacities)
    ultimately have "a = b" by (simp add: unat_of_nat)
    moreover have "a div 168 = i" "b div 168 = j" using that(2,3) by (simp_all add: a_def b_def)
    ultimately show False using assms(1) by simp
  qed
  then show ?thesis by (auto simp: ctx_cells_def)
qed

lemma contexts_at_nth: "i < n \<Longrightarrow> contexts_at mem base n ! i = ctx_at mem (ctx_addr base i)"
  and contexts_at_length [simp]: "length (contexts_at mem base n) = n"
  by (simp_all add: contexts_at_def)

lemma ctx_at_wf: "ctx_wf (ctx_at mem p)" and ctx_save_wf: "ctx_wf (ctx_save m)"
  by (simp_all add: ctx_wf_def ctx_at_def ctx_save_def)

interpretation aarch64_contexts: task_contexts ctx_save ctx_load ctx_wf
  by unfold_locales (simp_all add: save_load ctx_save_wf)

lemma daif_mask_bit: "bit (0x3C0 :: u64) 7"
  by simp

interpretation qemu_irqs: irq_masking cpu_disable_irqs cpu_restore_irq_state cpu_irqs_enabled
  by unfold_locales (simp_all add: cpu_disable_irqs_def cpu_restore_irq_state_def cpu_irqs_enabled_def
      bit_or_iff bit_and_iff daif_mask_bit)

lemma switch_call_refines:
  assumes "i \<noteq> j" and "i < TASK_ARENA_CAPACITY" and "j < TASK_ARENA_CAPACITY"
    and "sch_contexts s = contexts_at (m_mem m) base TASK_ARENA_CAPACITY"
    and "switch_call (ctx_addr base i) (ctx_addr base j) m = m'"
    and "context_switch ctx_save ctx_load i j (s, m) = (s', r)"
  shows "sch_contexts s' = contexts_at (m_mem m') base TASK_ARENA_CAPACITY \<and>
    ctx_save m' = ctx_save r \<and> m_pc m' = m_pc r \<and> m_daif m' = m_daif m \<and>
    (\<forall>a. a \<notin> ctx_cells (ctx_addr base i) \<longrightarrow> m_mem m' a = m_mem m a)"
proof -
  let ?p = "ctx_addr base i" and ?q = "ctx_addr base j"
  note e = switch_call_effect [OF ctx_addr_disjoint [OF assms(1-3)] assms(5)]
  have sr: "sch_contexts s' = (contexts_at (m_mem m) base TASK_ARENA_CAPACITY)[i := ctx_save m]"
    "r = ctx_load (ctx_at (m_mem m) ?q) m"
    using assms(3,4,6) by (auto simp: context_switch_def contexts_at_nth)
  have other: "ctx_at (m_mem m') (ctx_addr base k) = ctx_at (m_mem m) (ctx_addr base k)"
    if "k \<noteq> i" "k < TASK_ARENA_CAPACITY" for k
    using ctx_addr_disjoint [OF that(1,2) assms(2)] e(2) by (intro ctx_at_cong) blast
  have "sch_contexts s' = contexts_at (m_mem m') base TASK_ARENA_CAPACITY"
  proof (rule nth_equalityI)
    fix k assume "k < length (sch_contexts s')"
    then have "k < TASK_ARENA_CAPACITY" by (simp add: sr(1))
    then show "sch_contexts s' ! k = contexts_at (m_mem m') base TASK_ARENA_CAPACITY ! k"
      by (cases "k = i") (simp_all add: sr(1) contexts_at_nth e(1) other)
  qed (simp add: sr(1))
  moreover have "ctx_save m' = ctx_save r"
    unfolding sr(2) by (subst e(3)) (simp add: save_load ctx_at_wf)
  moreover have "m_pc m' = m_pc r" "m_daif m' = m_daif m"
    unfolding sr(2) by (subst e(3), simp add: ctx_load_def)+
  ultimately show ?thesis using e(2) by blast
qed

section \<open>Properties\<close>

text \<open>C12. The assembly switch implements the scheduler's context switch: on two different slots of
  the context array it stores the running task's callee-saved registers in its slot, leaves every
  other slot and all other memory alone, loads the next task's, and continues at that task's
  return address.\<close>

theorem context_switch_asm_refines:
  assumes "i \<noteq> j" and "i < TASK_ARENA_CAPACITY" and "j < TASK_ARENA_CAPACITY"
    and "sch_contexts s = contexts_at (m_mem m) base TASK_ARENA_CAPACITY"
    and "switch_call (ctx_addr base i) (ctx_addr base j) m = m'"
    and "context_switch ctx_save ctx_load i j (s, m) = (s', r)"
  shows "sch_contexts s' = contexts_at (m_mem m') base TASK_ARENA_CAPACITY \<and>
    ctx_save m' = ctx_save r \<and> m_pc m' = m_pc r \<and> m_daif m' = m_daif m \<and>
    (\<forall>a. a \<notin> ctx_cells (ctx_addr base i) \<longrightarrow> m_mem m' a = m_mem m a)"
  by (rule switch_call_refines [OF assms])

text \<open>A task's registers survive being switched out: after any number of switches among other
  tasks, with the other tasks changing registers at will, the switch back to it restores its
  callee-saved registers, frame pointer, return address and stack pointer exactly.\<close>

theorem registers_survive_switches:
  assumes "i < length (sch_contexts s)" and "\<forall>(cur, nxt, f) \<in> set ops. cur \<noteq> i" and "k \<noteq> i"
  shows "ctx_save (snd (switches ctx_save ctx_load ((i, j, f) # ops @ [(k, i, g)]) (s, m))) = ctx_save (f m)"
  by (rule aarch64_contexts.switched_back [OF assms])

text \<open>A task that has just been registered starts at its entry point with its own stack: the
  first switch to it jumps to \<open>entry\<close> with \<open>sp = stack_top\<close>; nothing of the previous task's
  callee-saved registers is visible to it.\<close>

theorem fresh_task_starts_at_entry:
  assumes "i \<noteq> j" and "i < TASK_ARENA_CAPACITY" and "j < TASK_ARENA_CAPACITY"
    and "ctx_at (m_mem m) (ctx_addr base j) = init_context context_default entry stack_top"
    and "switch_call (ctx_addr base i) (ctx_addr base j) m = m'"
  shows "m_pc m' = entry \<and> m_sp m' = stack_top \<and>
    ctx_save m' = \<lparr>x19_x28 = replicate 10 0, ctx_fp = 0, ctx_lr = entry, ctx_sp = stack_top, d8_d15 = replicate 8 0\<rparr>"
proof -
  note e = switch_call_effect(3) [OF ctx_addr_disjoint [OF assms(1-3)] assms(5)]
  have "ctx_wf (init_context context_default entry stack_top)"
    by (simp add: ctx_wf_def init_context_def context_default_def)
  then have "ctx_save m' = init_context context_default entry stack_top"
    by (subst e) (simp add: assms(4) save_load)
  moreover have "m_pc m' = entry" "m_sp m' = stack_top"
    by (subst e, simp add: assms(4) ctx_load_def init_context_def)+
  ultimately show ?thesis by (simp add: init_context_def context_default_def)
qed

text \<open>Interrupt guards nest: however critical sections are nested and sequenced, interrupts are
  masked inside and, when the outermost guard is dropped, exactly as enabled as before.\<close>

theorem guards_nest:
  "cpu_irqs_enabled (run_section cpu_disable_irqs cpu_restore_irq_state c m) = cpu_irqs_enabled m \<and>
   \<not> cpu_irqs_enabled (fold (run_section cpu_disable_irqs cpu_restore_irq_state) cs (snd (cpu_disable_irqs m)))"
  using qemu_irqs.section_keeps_mask qemu_irqs.masked_throughout by blast

section \<open>Witnesses\<close>

definition sample_machine :: machine where
  "sample_machine = \<lparr>m_x = of_nat, m_d = (\<lambda>n. of_nat (100 + n)), m_sp = 4096, m_pc = 0, m_daif = 0, m_mem = (\<lambda>a. a)\<rparr>"

definition sample_sched :: "Aarch64TaskContext Scheduler" where
  "sample_sched = (scheduler_new context_default)\<lparr>sch_contexts := contexts_at (m_mem sample_machine) 0 TASK_ARENA_CAPACITY\<rparr>"

theorem context_switch_asm_refines_witness:
  "m_pc (switch_call (ctx_addr 0 0) (ctx_addr 0 1) sample_machine) = 256 \<and>
   contexts_at (m_mem (switch_call (ctx_addr 0 0) (ctx_addr 0 1) sample_machine)) 0 TASK_ARENA_CAPACITY ! 0 = ctx_save sample_machine"
proof -
  let ?m' = "switch_call (ctx_addr 0 0) (ctx_addr 0 1) sample_machine"
  obtain s' r where c: "context_switch ctx_save ctx_load 0 1 (sample_sched, sample_machine) = (s', r)" by fastforce
  have n: "0 < TASK_ARENA_CAPACITY" "1 < TASK_ARENA_CAPACITY" by (simp_all add: arena_capacities)
  have "sch_contexts sample_sched = contexts_at (m_mem sample_machine) 0 TASK_ARENA_CAPACITY" by (simp add: sample_sched_def)
  from context_switch_asm_refines [OF _ n this refl c]
  have "sch_contexts s' = contexts_at (m_mem ?m') 0 TASK_ARENA_CAPACITY" "m_pc ?m' = m_pc r" by simp_all
  moreover have "m_pc r = 256" "sch_contexts s' ! 0 = ctx_save sample_machine"
    using c n by (auto simp: context_switch_def sample_sched_def contexts_at_nth ctx_load_def ctx_at_def
        ctx_addr_def sample_machine_def)
  ultimately show ?thesis by simp
qed

theorem registers_survive_switches_witness:
  "ctx_save (snd (switches ctx_save ctx_load [(0, 1, id), (1, 2, \<lambda>m. m\<lparr>m_sp := 7\<rparr>), (2, 0, id)] (sample_sched, sample_machine))) =
   ctx_save sample_machine"
  using registers_survive_switches [of 0 sample_sched "[(1, 2, \<lambda>m. m\<lparr>m_sp := 7\<rparr>)]" 2 1 id id sample_machine]
  by (simp add: sample_sched_def arena_capacities)

lemma replicate_regs:
  "replicate 10 x = [x, x, x, x, x, x, x, x, x, x]" "replicate 8 x = [x, x, x, x, x, x, x, x]"
  by (simp_all add: numeral_eq_Suc)

theorem fresh_task_starts_at_entry_witness:
  "\<exists>m m'. ctx_at (m_mem m) (ctx_addr 0 1) = init_context context_default 0x40000 0x80000 \<and>
     switch_call (ctx_addr 0 0) (ctx_addr 0 1) m = m' \<and> m_pc m' = 0x40000 \<and> m_sp m' = 0x80000"
proof -
  define m where "m = sample_machine\<lparr>m_mem := (\<lambda>_. 0)(256 := 0x40000, 264 := 0x80000)\<rparr>"
  have f: "ctx_at (m_mem m) (ctx_addr 0 1) = init_context context_default 0x40000 0x80000"
    by (simp add: m_def ctx_at_def ctx_addr_def init_context_def context_default_def replicate_regs)
  have n: "0 < TASK_ARENA_CAPACITY" "1 < TASK_ARENA_CAPACITY" by (simp_all add: arena_capacities)
  from fresh_task_starts_at_entry [OF zero_neq_one n f refl] show ?thesis using f by blast
qed
end
