(* ===== verification/Mmio.thy ===== *)
theory Mmio
  imports Tyrne_Prelude
begin

text \<open>
  Device registers as the board's drivers use them: \<open>read_volatile\<close> and \<open>write_volatile\<close> on
  addresses, recorded in a log, and the saturating address arithmetic. Devices are outside the
  program; what they answer is a parameter.
\<close>

section \<open>Memory-mapped access\<close>

datatype mmio_event = MRead nat u32 | MWrite nat u32

type_synonym mmio_log = "mmio_event list"

definition USIZE_MAX :: nat where
  "USIZE_MAX = 2 ^ 64 - 1"

definition sat_add :: "nat \<Rightarrow> nat \<Rightarrow> nat" where
  "sat_add a b = min USIZE_MAX (a + b)"

definition sat_mul :: "nat \<Rightarrow> nat \<Rightarrow> nat" where
  "sat_mul a b = min USIZE_MAX (a * b)"

definition read_volatile :: "(mmio_log \<Rightarrow> nat \<Rightarrow> u32) \<Rightarrow> nat \<Rightarrow> mmio_log \<Rightarrow> u32 \<times> mmio_log" where
  "read_volatile dev addr l = (let v = dev l addr in (v, l @ [MRead addr v]))"

definition write_volatile :: "nat \<Rightarrow> u32 \<Rightarrow> mmio_log \<Rightarrow> mmio_log" where
  "write_volatile addr v l = l @ [MWrite addr v]"

end
