(* ===== verification/Gic.thy ===== *)
theory Gic
  imports Hal_Contracts Mmio
begin

text \<open>
  The GICv2 driver of \<open>bsp-qemu-virt/src/gic.rs\<close> as sequences of memory-mapped accesses. The
  device is outside the program: a read is answered by a parameter \<open>dev\<close> from the log of all
  accesses so far. What the enable registers mean is stated separately, on the log
  (\<open>line_enabled\<close>): a one bit written to a set-enable register enables that line, one written
  to a clear-enable register disables it.
\<close>

section \<open>Registers and constants\<close>

definition QEMU_VIRT_GIC_DISTRIBUTOR_BASE :: nat where "QEMU_VIRT_GIC_DISTRIBUTOR_BASE = 0x08000000"
definition QEMU_VIRT_GIC_CPU_INTERFACE_BASE :: nat where "QEMU_VIRT_GIC_CPU_INTERFACE_BASE = 0x08010000"
definition GICD_CTLR :: nat where "GICD_CTLR = 0x000"
definition GICD_TYPER :: nat where "GICD_TYPER = 0x004"
definition GICD_ISENABLER_BASE :: nat where "GICD_ISENABLER_BASE = 0x100"
definition GICD_ICENABLER_BASE :: nat where "GICD_ICENABLER_BASE = 0x180"
definition GICD_IPRIORITYR_BASE :: nat where "GICD_IPRIORITYR_BASE = 0x400"
definition GICD_ITARGETSR_BASE :: nat where "GICD_ITARGETSR_BASE = 0x800"
definition GICC_CTLR :: nat where "GICC_CTLR = 0x000"
definition GICC_PMR :: nat where "GICC_PMR = 0x004"
definition GICC_IAR :: nat where "GICC_IAR = 0x00C"
definition GICC_EOIR :: nat where "GICC_EOIR = 0x010"
definition GIC_SPURIOUS_INTID :: u32 where "GIC_SPURIOUS_INTID = 1023"
definition GICC_IAR_INTID_MASK :: u32 where "GICC_IAR_INTID_MASK = 0x3FF"
definition FIRST_SPI :: nat where "FIRST_SPI = 32"
definition DEFAULT_PRIORITY_BYTE :: u32 where "DEFAULT_PRIORITY_BYTE = 0xA0"
definition TARGET_CPU0_BYTE :: u32 where "TARGET_CPU0_BYTE = 0x01"
definition GIC_MAX_IRQ :: u32 where "GIC_MAX_IRQ = 1020"

lemmas gic_consts = QEMU_VIRT_GIC_DISTRIBUTOR_BASE_def QEMU_VIRT_GIC_CPU_INTERFACE_BASE_def
  GICD_CTLR_def GICD_TYPER_def GICD_ISENABLER_BASE_def GICD_ICENABLER_BASE_def
  GICD_IPRIORITYR_BASE_def GICD_ITARGETSR_BASE_def GICC_CTLR_def GICC_PMR_def GICC_IAR_def
  GICC_EOIR_def GIC_SPURIOUS_INTID_def GICC_IAR_INTID_MASK_def FIRST_SPI_def
  DEFAULT_PRIORITY_BYTE_def TARGET_CPU0_BYTE_def GIC_MAX_IRQ_def

section \<open>The driver\<close>

record QemuVirtGic =
  distributor_base :: nat
  cpu_interface_base :: nat

definition gic_new :: "nat \<Rightarrow> nat \<Rightarrow> QemuVirtGic" where
  "gic_new dist cpu = \<lparr>distributor_base = dist, cpu_interface_base = cpu\<rparr>"

definition read_distributor ::
  "(mmio_log \<Rightarrow> nat \<Rightarrow> u32) \<Rightarrow> QemuVirtGic \<Rightarrow> nat \<Rightarrow> mmio_log \<Rightarrow> u32 \<times> mmio_log" where
  "read_distributor dev g off = read_volatile dev (sat_add (distributor_base g) off)"

definition write_distributor :: "QemuVirtGic \<Rightarrow> nat \<Rightarrow> u32 \<Rightarrow> mmio_log \<Rightarrow> mmio_log" where
  "write_distributor g off v = write_volatile (sat_add (distributor_base g) off) v"

definition read_cpu_interface ::
  "(mmio_log \<Rightarrow> nat \<Rightarrow> u32) \<Rightarrow> QemuVirtGic \<Rightarrow> nat \<Rightarrow> mmio_log \<Rightarrow> u32 \<times> mmio_log" where
  "read_cpu_interface dev g off = read_volatile dev (sat_add (cpu_interface_base g) off)"

definition write_cpu_interface :: "QemuVirtGic \<Rightarrow> nat \<Rightarrow> u32 \<Rightarrow> mmio_log \<Rightarrow> mmio_log" where
  "write_cpu_interface g off v = write_volatile (sat_add (cpu_interface_base g) off) v"

definition irq_count :: "u32 \<Rightarrow> nat" where
  "irq_count typer = sat_mul (sat_add (unat (typer AND 0x1F)) 1) 32"

lemma irq_count_eq: "irq_count typer = 32 * (unat (typer AND 0x1F) + 1)"
  and irq_count_le: "irq_count typer \<le> 1024"
proof -
  have "typer AND 0x1F \<le> 0x1F" by (rule word_and_le1)
  then have "unat (typer AND 0x1F) \<le> 31" by (simp add: word_le_nat_alt)
  then show "irq_count typer = 32 * (unat (typer AND 0x1F) + 1)" "irq_count typer \<le> 1024"
    by (simp_all add: irq_count_def sat_mul_def sat_add_def USIZE_MAX_def)
qed

text \<open>The three loops of \<open>init\<close>, over the enable words and over the priority and target words.\<close>

function mask_spis :: "QemuVirtGic \<Rightarrow> u32 \<Rightarrow> nat \<Rightarrow> mmio_log \<Rightarrow> mmio_log" where
  "mask_spis g typer n l =
     (if sat_mul n 32 < irq_count typer
      then mask_spis g typer (sat_add n 1)
        (write_distributor g (sat_add GICD_ICENABLER_BASE (sat_mul n 4)) 0xFFFFFFFF l)
      else l)"
  by pat_completeness auto
termination
proof (relation "measure (\<lambda>(g, typer, n, l). irq_count typer - n)")
  fix g typer n l
  assume "sat_mul n 32 < irq_count typer"
  moreover have "irq_count typer \<le> 1024" by (rule irq_count_le)
  ultimately show "((g, typer, sat_add n 1, write_distributor g (sat_add GICD_ICENABLER_BASE (sat_mul n 4)) 0xFFFFFFFF l),
      (g, typer, n, l)) \<in> measure (\<lambda>(g, typer, n, l). irq_count typer - n)"
    by (auto simp: sat_mul_def sat_add_def USIZE_MAX_def min_def split: if_splits)
qed simp

function fill_spis :: "QemuVirtGic \<Rightarrow> nat \<Rightarrow> u32 \<Rightarrow> u32 \<Rightarrow> nat \<Rightarrow> mmio_log \<Rightarrow> mmio_log" where
  "fill_spis g reg_base w typer byte_idx l =
     (if byte_idx < irq_count typer
      then fill_spis g reg_base w typer (sat_add byte_idx 4)
        (write_distributor g (sat_add reg_base byte_idx) w l)
      else l)"
  by pat_completeness auto
termination
proof (relation "measure (\<lambda>(g, reg_base, w, typer, byte_idx, l). irq_count typer - byte_idx)")
  fix g reg_base w typer byte_idx l
  assume "byte_idx < irq_count typer"
  moreover have "irq_count typer \<le> 1024" by (rule irq_count_le)
  ultimately show "((g, reg_base, w, typer, sat_add byte_idx 4, write_distributor g (sat_add reg_base byte_idx) w l),
      (g, reg_base, w, typer, byte_idx, l)) \<in> measure (\<lambda>(g, reg_base, w, typer, byte_idx, l). irq_count typer - byte_idx)"
    by (auto simp: sat_add_def USIZE_MAX_def)
qed simp

declare mask_spis.simps [simp del] fill_spis.simps [simp del]

definition word_of_byte :: "u32 \<Rightarrow> u32" where
  "word_of_byte b = b OR push_bit 8 b OR push_bit 16 b OR push_bit 24 b"

definition gic_init :: "(mmio_log \<Rightarrow> nat \<Rightarrow> u32) \<Rightarrow> QemuVirtGic \<Rightarrow> mmio_log \<Rightarrow> mmio_log" where
  "gic_init dev g l =
     (let l = write_distributor g GICD_CTLR 0 l;
          (typer, l) = read_distributor dev g GICD_TYPER l;
          l = mask_spis g typer 1 l;
          l = fill_spis g GICD_IPRIORITYR_BASE (word_of_byte DEFAULT_PRIORITY_BYTE) typer FIRST_SPI l;
          l = fill_spis g GICD_ITARGETSR_BASE (word_of_byte TARGET_CPU0_BYTE) typer FIRST_SPI l;
          l = write_distributor g GICD_CTLR 1 l;
          l = write_cpu_interface g GICC_PMR 0xFF l
      in write_cpu_interface g GICC_CTLR 1 l)"

definition gic_enable :: "QemuVirtGic \<Rightarrow> IrqNumber \<Rightarrow> mmio_log \<Rightarrow> unit run \<times> mmio_log" where
  "gic_enable g irq l =
     (if \<not> irq_num irq < GIC_MAX_IRQ then (Panic, l)
      else
        let n = unat (irq_num irq);
            reg_offset = sat_add GICD_ISENABLER_BASE (sat_mul (n div 32) 4);
            b = push_bit (n mod 32) 1
        in (Ret (), write_distributor g reg_offset b l))"

definition gic_disable :: "QemuVirtGic \<Rightarrow> IrqNumber \<Rightarrow> mmio_log \<Rightarrow> unit run \<times> mmio_log" where
  "gic_disable g irq l =
     (if \<not> irq_num irq < GIC_MAX_IRQ then (Panic, l)
      else
        let n = unat (irq_num irq);
            reg_offset = sat_add GICD_ICENABLER_BASE (sat_mul (n div 32) 4);
            b = push_bit (n mod 32) 1
        in (Ret (), write_distributor g reg_offset b l))"

definition gic_acknowledge ::
  "(mmio_log \<Rightarrow> nat \<Rightarrow> u32) \<Rightarrow> QemuVirtGic \<Rightarrow> mmio_log \<Rightarrow> IrqNumber option \<times> mmio_log" where
  "gic_acknowledge dev g l =
     (let (raw, l) = read_cpu_interface dev g GICC_IAR l;
          intid = raw AND GICC_IAR_INTID_MASK
      in (if intid = GIC_SPURIOUS_INTID then None else Some (IrqNumber intid), l))"

definition gic_end_of_interrupt :: "QemuVirtGic \<Rightarrow> IrqNumber \<Rightarrow> mmio_log \<Rightarrow> mmio_log" where
  "gic_end_of_interrupt g irq l = write_cpu_interface g GICC_EOIR (irq_num irq) l"

section \<open>What the registers mean\<close>

definition enable_effect :: "nat \<Rightarrow> nat \<Rightarrow> mmio_event \<Rightarrow> bool \<Rightarrow> bool" where
  "enable_effect base n ev en = (case ev of
     MWrite a v \<Rightarrow>
       if a = base + 0x100 + 4 * (n div 32) \<and> bit v (n mod 32) then True
       else if a = base + 0x180 + 4 * (n div 32) \<and> bit v (n mod 32) then False
       else en
   | MRead _ _ \<Rightarrow> en)"

definition line_enabled :: "nat \<Rightarrow> mmio_log \<Rightarrow> nat \<Rightarrow> bool" where
  "line_enabled base l n = fold (enable_effect base n) l False"

text \<open>The value last written to a register.\<close>

definition last_write :: "mmio_log \<Rightarrow> nat \<Rightarrow> u32 option" where
  "last_write l a = fold (\<lambda>ev v. case ev of MWrite a' w \<Rightarrow> if a' = a then Some w else v | MRead _ _ \<Rightarrow> v) l None"

text \<open>A distributor whose 4 KiB window lies below the end of the address space.\<close>

definition gic_wf :: "QemuVirtGic \<Rightarrow> bool" where
  "gic_wf g \<longleftrightarrow> distributor_base g + 0x1000 \<le> cpu_interface_base g \<and> cpu_interface_base g + 0x1000 < 2 ^ 64"

lemma line_enabled_append: "line_enabled base (l @ l') n = fold (enable_effect base n) l' (line_enabled base l n)"
  by (simp add: line_enabled_def)

lemma sat_simps:
  "gic_wf g \<Longrightarrow> off < 0x1000 \<Longrightarrow> sat_add (distributor_base g) off = distributor_base g + off"
  "gic_wf g \<Longrightarrow> off < 0x1000 \<Longrightarrow> sat_add (cpu_interface_base g) off = cpu_interface_base g + off"
  "a + b < 0x1000 \<Longrightarrow> sat_add a b = a + b" "a * b < 0x1000 \<Longrightarrow> sat_mul a b = a * b"
  by (simp_all add: gic_wf_def sat_add_def sat_mul_def USIZE_MAX_def)

lemma bit_one_shift: "k < 32 \<Longrightarrow> bit (2 ^ k :: u32) j \<longleftrightarrow> j = k"
  by (auto simp: bit_exp_iff)

lemma same_line: "m div 32 = n div 32 \<Longrightarrow> m mod 32 = n mod 32 \<Longrightarrow> m = (n :: nat)"
  by (metis div_mult_mod_eq)

lemma enable_event:
  assumes "m < 1024" and "n < 1024"
  shows "enable_effect base m (MWrite (base + 0x100 + 4 * (n div 32)) (2 ^ (n mod 32))) en \<longleftrightarrow> m = n \<or> en"
    and "enable_effect base m (MWrite (base + 0x180 + 4 * (n div 32)) (2 ^ (n mod 32))) en \<longleftrightarrow> m \<noteq> n \<and> en"
  using assms same_line [of m n] by (auto simp: enable_effect_def bit_one_shift)

section \<open>The initialisation sequence\<close>

lemma last_write_append:
  "last_write (l @ l') a =
   fold (\<lambda>ev v. case ev of MWrite a' w \<Rightarrow> if a' = a then Some w else v | MRead _ _ \<Rightarrow> v) l' (last_write l a)"
  by (simp add: last_write_def)

text \<open>A run of equal writes to consecutive words.\<close>

definition run_of :: "nat \<Rightarrow> u32 \<Rightarrow> nat \<Rightarrow> nat \<Rightarrow> mmio_log" where
  "run_of c w i j = map (\<lambda>k. MWrite (c + 4 * k) w) [i..<j]"

lemma run_of_simps:
  "j \<le> i \<Longrightarrow> run_of c w i j = []" "i < j \<Longrightarrow> run_of c w i j = MWrite (c + 4 * i) w # run_of c w (Suc i) j"
  by (simp_all add: run_of_def upt_conv_Cons)

lemma mask_spis_run:
  assumes "gic_wf g" and "n \<le> 32"
  shows "mask_spis g typer n l = l @ run_of (distributor_base g + 0x180) 0xFFFFFFFF n (irq_count typer div 32)"
  using assms
proof (induction g typer n l rule: mask_spis.induct)
  case (1 g typer n l)
  have "n * 32 < irq_count typer \<longleftrightarrow> n < irq_count typer div 32" unfolding irq_count_eq by simp linarith
  moreover have "n + 1 \<le> 32" if "n * 32 < irq_count typer" using that irq_count_le [of typer] by simp
  ultimately show ?case
    using 1 by (subst mask_spis.simps, cases "n < irq_count typer div 32")
      (simp_all add: sat_simps run_of_simps write_distributor_def write_volatile_def gic_consts ac_simps)
qed

lemma fill_spis_run:
  assumes "gic_wf g" and "reg_base + 0x400 \<le> 0x1000" and "j \<le> 256"
  shows "fill_spis g reg_base w typer (4 * j) l = l @ run_of (distributor_base g + reg_base) w j (irq_count typer div 4)"
  using assms(3)
proof (induction "256 - j" arbitrary: j l)
  case 0
  then show ?case using irq_count_le [of typer] by (subst fill_spis.simps) (simp add: run_of_simps)
next
  case (Suc x)
  have "4 * j < irq_count typer \<longleftrightarrow> j < irq_count typer div 4" unfolding irq_count_eq by simp linarith
  moreover have "sat_add (4 * j) 4 = 4 * Suc j" using Suc by (simp add: sat_simps)
  moreover have "sat_add reg_base (4 * j) = reg_base + 4 * j" using Suc assms(2) by (simp add: sat_simps)
  ultimately show ?case
    using Suc assms(1,2) by (subst fill_spis.simps)
      (simp add: sat_simps run_of_simps write_distributor_def write_volatile_def add.assoc del: mult_Suc_right)
qed

section \<open>Properties\<close>

text \<open>\<open>enable\<close> and \<open>disable\<close> change exactly the line they name: a valid line number gives one
  register write, after which that line is enabled (disabled) and every other line is as it was;
  repeating the call changes nothing; an invalid number panics before any access.\<close>

theorem gic_enable_disable_exact:
  assumes "gic_wf g"
  shows "if irq_num irq < GIC_MAX_IRQ
    then \<exists>a v b w. gic_enable g irq l = (Ret (), l @ [MWrite a v]) \<and> gic_disable g irq l = (Ret (), l @ [MWrite b w]) \<and>
      (\<forall>n < 1020.
        line_enabled (distributor_base g) (l @ [MWrite a v]) n =
          (n = unat (irq_num irq) \<or> line_enabled (distributor_base g) l n) \<and>
        line_enabled (distributor_base g) (l @ [MWrite b w]) n =
          (n \<noteq> unat (irq_num irq) \<and> line_enabled (distributor_base g) l n))
    else gic_enable g irq l = (Panic, l) \<and> gic_disable g irq l = (Panic, l)"
proof (cases "irq_num irq < GIC_MAX_IRQ")
  case False
  then show ?thesis by (simp add: gic_enable_def gic_disable_def)
next
  case True
  define n where "n = unat (irq_num irq)"
  have n: "n < 1020" using True by (simp add: n_def word_less_nat_alt gic_consts)
  let ?b = "distributor_base g" and ?v = "2 ^ (n mod 32) :: u32"
  have "gic_enable g irq l = (Ret (), l @ [MWrite (?b + 0x100 + 4 * (n div 32)) ?v])"
    "gic_disable g irq l = (Ret (), l @ [MWrite (?b + 0x180 + 4 * (n div 32)) ?v])"
    using assms True n
    by (simp_all add: gic_enable_def gic_disable_def Let_def write_distributor_def write_volatile_def
        gic_consts sat_simps flip: n_def)
  with True n show ?thesis
    by (simp only: if_True) (rule exI conjI | assumption | simp add: line_enabled_append enable_event flip: n_def)+
qed

lemma run_of_Suc: "i \<le> j \<Longrightarrow> run_of c w i (Suc j) = run_of c w i j @ [MWrite (c + 4 * j) w]"
  by (simp add: run_of_def)

lemma last_write_run:
  "last_write (l @ run_of c w i j) a = (if \<exists>k. i \<le> k \<and> k < j \<and> a = c + 4 * k then Some w else last_write l a)"
proof (induction j)
  case (Suc j)
  have "last_write (l @ run_of c w i (Suc j)) a =
      (if i \<le> j \<and> a = c + 4 * j then Some w else last_write (l @ run_of c w i j) a)"
    by (cases "i \<le> j") (simp_all add: run_of_Suc run_of_simps(1) last_write_append)
  then show ?case using Suc by (auto simp: less_Suc_eq)
qed (simp add: run_of_def)

lemma line_enabled_run:
  assumes "0x180 \<le> c" and "n < 1024"
  shows "line_enabled base (l @ run_of (base + c) w i j) n =
    (line_enabled base l n \<and> \<not> (\<exists>k. i \<le> k \<and> k < j \<and> c + 4 * k = 0x180 + 4 * (n div 32) \<and> bit w (n mod 32)))"
proof (induction j)
  case (Suc j)
  have "n div 32 < 32" using assms(2) by auto
  then have "enable_effect base n (MWrite (base + c + 4 * j) w) en =
      (en \<and> \<not> (c + 4 * j = 0x180 + 4 * (n div 32) \<and> bit w (n mod 32)))" for en
    using assms(1) by (auto simp: enable_effect_def)
  then have "line_enabled base (l @ run_of (base + c) w i (Suc j)) n =
      (line_enabled base (l @ run_of (base + c) w i j) n \<and>
       \<not> (i \<le> j \<and> c + 4 * j = 0x180 + 4 * (n div 32) \<and> bit w (n mod 32)))"
    by (cases "i \<le> j") (simp_all add: run_of_Suc run_of_simps(1) line_enabled_append)
  then show ?case using Suc by (auto simp: less_Suc_eq)
qed (simp add: run_of_def)

text \<open>An access to an aligned register of the distributor other than its control register.\<close>

definition in_window :: "nat \<Rightarrow> mmio_event \<Rightarrow> bool" where
  "in_window base ev = (case ev of
     MWrite a _ \<Rightarrow> base < a \<and> a < base + 0x1000 \<and> (a - base) mod 4 = 0
   | MRead a _ \<Rightarrow> base < a \<and> a < base + 0x1000 \<and> (a - base) mod 4 = 0)"

lemma run_of_window:
  "4 * j + c \<le> 0x1000 \<Longrightarrow> 0 < c \<Longrightarrow> c mod 4 = 0 \<Longrightarrow> list_all (in_window base) (run_of (base + c) w i j)"
  by (auto simp: run_of_def list_all_iff in_window_def)

lemma gic_init_run:
  assumes "gic_wf g"
    and base: "base = distributor_base g" and typer: "typer = dev (l @ [MWrite base 0]) (base + 4)"
  shows "gic_init dev g l = l @ [MWrite base 0, MRead (base + 4) typer] @
    run_of (base + 0x180) 0xFFFFFFFF 1 (irq_count typer div 32) @
    run_of (base + 0x400) 0xA0A0A0A0 8 (irq_count typer div 4) @
    run_of (base + 0x800) 0x01010101 8 (irq_count typer div 4) @
    [MWrite base 1, MWrite (cpu_interface_base g + 4) 0xFF, MWrite (cpu_interface_base g) 1]"
proof -
  have f: "FIRST_SPI = 4 * 8" by (simp add: FIRST_SPI_def)
  have w: "word_of_byte DEFAULT_PRIORITY_BYTE = 0xA0A0A0A0" "word_of_byte TARGET_CPU0_BYTE = 0x01010101"
    by (simp_all add: word_of_byte_def gic_consts)
  show ?thesis
    unfolding gic_init_def Let_def f w
    using assms(1)
    by (simp add: mask_spis_run fill_spis_run [where j = 8, simplified] gic_consts sat_simps write_distributor_def write_volatile_def
        read_distributor_def read_volatile_def write_cpu_interface_def base typer Let_def)
qed

text \<open>Initialisation disables the shared lines the device has and enables none.\<close>

lemma gic_init_line:
  assumes "gic_wf g" and "base = distributor_base g" and "typer = dev (l @ [MWrite base 0]) (base + 4)" and "n < 1024"
  shows "line_enabled base (gic_init dev g l) n =
    (line_enabled base l n \<and> \<not> (1 \<le> n div 32 \<and> n div 32 < irq_count typer div 32))"
proof -
  let ?c = "cpu_interface_base g"
  have c: "base + 0x1000 \<le> ?c" using assms(1,2) by (simp add: gic_wf_def)
  have ends: "line_enabled base (m @ [MWrite base 1, MWrite (?c + 4) 0xFF, MWrite ?c 1]) n = line_enabled base m n" for m
    using c assms(4) by (auto simp: line_enabled_append enable_effect_def)
  have "(0xFFFFFFFF :: u32) = - 1" by simp
  then have "bit (0xFFFFFFFF :: u32) (n mod 32)" by (simp only: bit_minus_1_iff) simp
  moreover have "0x400 + 4 * k \<noteq> 0x180 + 4 * (n div 32)" "0x800 + 4 * k \<noteq> 0x180 + 4 * (n div 32)" for k
    using assms(4) by auto
  moreover have "line_enabled base (l @ [MWrite base 0, MRead (base + 4) typer]) n = line_enabled base l n"
    by (simp add: line_enabled_append enable_effect_def)
  ultimately show ?thesis
    using assms(4) unfolding gic_init_run [of g base typer dev l, OF assms(1-3)] append_assoc [symmetric]
    by (simp add: ends line_enabled_run del: append_assoc)
qed

text \<open>C22. The boot sequence of the controller. Whatever the device reports as its number of lines:
  every shared line it has ends up disabled, at the default priority and routed to CPU 0; the
  enable state of the banked lines 0 to 31 is untouched; the distributor is off while it is
  reconfigured and on at the end, as is the CPU interface with its mask open; and every access is
  to an aligned register inside the two 4 KiB windows.\<close>

theorem gic_init_configures:
  assumes "gic_wf g" and "base = distributor_base g" and "typer = dev (l @ [MWrite base 0]) (base + 4)"
    and "gic_init dev g l = l'"
  shows "(\<forall>n. 32 \<le> n \<and> n < irq_count typer \<longrightarrow> \<not> line_enabled base l' n \<and>
      last_write l' (base + 0x400 + 4 * (n div 4)) = Some 0xA0A0A0A0 \<and>
      last_write l' (base + 0x800 + 4 * (n div 4)) = Some 0x01010101) \<and>
    (\<forall>n < 32. line_enabled base l' n = line_enabled base l n) \<and>
    (\<exists>mid. l' = l @ [MWrite base 0] @ mid @ [MWrite base 1, MWrite (cpu_interface_base g + 4) 0xFF, MWrite (cpu_interface_base g) 1] \<and>
      list_all (in_window base) mid)"
proof -
  let ?N = "irq_count typer" and ?c = "cpu_interface_base g"
  let ?e = "run_of (base + 0x180) 0xFFFFFFFF 1 (?N div 32)" and ?p = "run_of (base + 0x400) 0xA0A0A0A0 8 (?N div 4)"
    and ?t = "run_of (base + 0x800) 0x01010101 8 (?N div 4)"
  let ?fin = "[MWrite base 1, MWrite (?c + 4) 0xFF, MWrite ?c 1]"
  have run: "l' = (((l @ [MWrite base 0, MRead (base + 4) typer]) @ ?e) @ ?p) @ ?t @ ?fin"
    using gic_init_run [of g base typer dev l] assms by simp
  have c: "base + 0x1000 \<le> ?c" using assms(1,2) by (simp add: gic_wf_def)
  have N: "?N \<le> 1024" by (rule irq_count_le)
  have ends: "line_enabled base (m @ ?fin) n = line_enabled base m n"
    "a < base + 0x1000 \<Longrightarrow> base < a \<Longrightarrow> last_write (m @ ?fin) a = last_write m a" if "n < 1024" for m n a
    using c that by (auto simp: line_enabled_append enable_effect_def last_write_append)
  have en: "line_enabled base l' n = (line_enabled base l n \<and> \<not> (1 \<le> n div 32 \<and> n div 32 < ?N div 32))" if "n < 1024" for n
    using gic_init_line [of g base typer dev l n, OF assms(1,2,3) that] assms(4) by simp
  have lw: "last_write l' a = (if \<exists>k. 8 \<le> k \<and> k < ?N div 4 \<and> a = base + 0x800 + 4 * k then Some 0x01010101
      else if \<exists>k. 8 \<le> k \<and> k < ?N div 4 \<and> a = base + 0x400 + 4 * k then Some 0xA0A0A0A0
      else last_write ((l @ [MWrite base 0, MRead (base + 4) typer]) @ ?e) a)" if "base < a" "a < base + 0x1000" for a
  proof -
    have "last_write l' a = last_write ((((l @ [MWrite base 0, MRead (base + 4) typer]) @ ?e) @ ?p) @ ?t) a"
      using ends(2) [of 0 a "(((l @ [MWrite base 0, MRead (base + 4) typer]) @ ?e) @ ?p) @ ?t"] that run by simp
    then show ?thesis by (simp only: last_write_run)
  qed
  have spi: "\<not> line_enabled base l' n \<and> last_write l' (base + 0x400 + 4 * (n div 4)) = Some 0xA0A0A0A0 \<and>
      last_write l' (base + 0x800 + 4 * (n div 4)) = Some 0x01010101" if "32 \<le> n" "n < ?N" for n
  proof -
    have q: "8 \<le> n div 4" "n div 4 < ?N div 4" "n < 1024" "n div 4 < 256" "1 \<le> n div 32" "n div 32 < ?N div 32"
      using that N by (simp_all add: irq_count_eq)
    have "last_write l' (base + 0x400 + 4 * (n div 4)) = Some 0xA0A0A0A0"
      using q by (subst lw) auto
    moreover have "last_write l' (base + 0x800 + 4 * (n div 4)) = Some 0x01010101"
      using q by (subst lw) auto
    ultimately show ?thesis using q by (simp add: en)
  qed
  let ?mid = "[MRead (base + 4) typer] @ ?e @ ?p @ ?t"
  have "list_all (in_window base) ?mid" using N by (simp add: run_of_window, simp add: in_window_def)
  then show ?thesis using spi en N unfolding run by (intro conjI allI impI exI [of _ ?mid]) simp_all
qed

definition qemu_gic :: QemuVirtGic where
  "qemu_gic = gic_new QEMU_VIRT_GIC_DISTRIBUTOR_BASE QEMU_VIRT_GIC_CPU_INTERFACE_BASE"

lemma qemu_gic_wf: "gic_wf qemu_gic"
  by (simp add: qemu_gic_def gic_new_def gic_wf_def gic_consts)

text \<open>The driver as a set of enabled lines.\<close>

definition gic_enabled :: "QemuVirtGic \<Rightarrow> mmio_log \<Rightarrow> IrqNumber set" where
  "gic_enabled g l = {i. irq_num i < GIC_MAX_IRQ \<and> line_enabled (distributor_base g) l (unat (irq_num i))}"

lemma gic_enabled_ops:
  assumes "gic_wf g" and "irq_num i < GIC_MAX_IRQ"
  shows "gic_enabled g (snd (gic_enable g i l)) = insert i (gic_enabled g l)"
    and "gic_enabled g (snd (gic_disable g i l)) = gic_enabled g l - {i}"
proof -
  define n where "n = unat (irq_num i)"
  have n: "n < 1020" using assms(2) by (simp add: n_def word_less_nat_alt gic_consts)
  have eq: "unat (irq_num j) = n \<longleftrightarrow> j = i" for j
    by (cases i; cases j) (simp add: n_def word_unat_eq_iff)
  have lt: "irq_num j < GIC_MAX_IRQ \<Longrightarrow> unat (irq_num j) < 1024" for j
    by (simp add: word_less_nat_alt gic_consts)
  let ?b = "distributor_base g"
  have "snd (gic_enable g i l) = l @ [MWrite (?b + 0x100 + 4 * (n div 32)) (2 ^ (n mod 32))]"
    "snd (gic_disable g i l) = l @ [MWrite (?b + 0x180 + 4 * (n div 32)) (2 ^ (n mod 32))]"
    using assms n
    by (simp_all add: gic_enable_def gic_disable_def Let_def write_distributor_def write_volatile_def
        gic_consts sat_simps flip: n_def)
  then show "gic_enabled g (snd (gic_enable g i l)) = insert i (gic_enabled g l)"
    "gic_enabled g (snd (gic_disable g i l)) = gic_enabled g l - {i}"
    using n assms(2) lt by (auto simp: gic_enabled_def line_enabled_append enable_event eq)
qed

interpretation qemu_lines: irq_lines "\<lambda>i l. snd (gic_enable qemu_gic i l)" "\<lambda>i l. snd (gic_disable qemu_gic i l)"
  "gic_enabled qemu_gic" "\<lambda>i. irq_num i < GIC_MAX_IRQ"
  by unfold_locales (simp_all add: gic_enabled_ops qemu_gic_wf)

theorem gic_enable_disable_exact_witness:
  "gic_wf qemu_gic \<and> (\<exists>a v. gic_enable qemu_gic (IrqNumber 27) [] = (Ret (), [MWrite a v]) \<and>
     line_enabled (distributor_base qemu_gic) [MWrite a v] 27 \<and> \<not> line_enabled (distributor_base qemu_gic) [MWrite a v] 28)"
proof -
  have "\<not> line_enabled (distributor_base qemu_gic) [] 28" by (simp add: line_enabled_def)
  then show ?thesis
    using gic_enable_disable_exact [OF qemu_gic_wf, of "IrqNumber 27" "[]"] qemu_gic_wf
    by (auto simp: gic_consts)
qed

text \<open>A device with 64 lines.\<close>

theorem gic_init_configures_witness:
  "gic_wf qemu_gic \<and> irq_count 1 = 64 \<and>
   (let l = gic_init (\<lambda>_ _. 1) qemu_gic [] in
     \<not> line_enabled 0x08000000 l 63 \<and> last_write l (0x08000400 + 4 * (63 div 4)) = Some 0xA0A0A0A0)"
proof -
  have n: "irq_count 1 = 64" by (simp add: irq_count_def sat_mul_def sat_add_def USIZE_MAX_def)
  have b: "0x08000000 = distributor_base qemu_gic" by (simp add: qemu_gic_def gic_new_def gic_consts)
  have "32 \<le> (63 :: nat) \<and> 63 < irq_count 1" using n by simp
  with gic_init_configures [OF qemu_gic_wf b, of 1 "\<lambda>_ _. 1" "[]" "gic_init (\<lambda>_ _. 1) qemu_gic []"]
  have "\<not> line_enabled 0x08000000 (gic_init (\<lambda>_ _. 1) qemu_gic []) 63 \<and>
      last_write (gic_init (\<lambda>_ _. 1) qemu_gic []) (0x08000000 + 0x400 + 4 * (63 div 4)) = Some 0xA0A0A0A0"
    by (metis (no_types, lifting))
  then show ?thesis using n qemu_gic_wf by (simp add: Let_def)
qed
end
