(* ===== verification/Timer_Arith.thy ===== *)
theory Timer_Arith
  imports Tyrne_Prelude
begin

text \<open>
  Tick arithmetic of \<open>hal/src/timer.rs\<close>: conversion between counter ticks and nanoseconds with
  128-bit intermediates and saturation at 64 bits, and the rounded resolution.
\<close>

section \<open>Definitions\<close>

definition NANOS_PER_SECOND :: "u64" where
  "NANOS_PER_SECOND = 1000000000"

definition saturate :: "u128 \<Rightarrow> u64" where
  "saturate v = (if v > ucast (- 1 :: u64) then - 1 else ucast v)"

text \<open>\<open>u128::div_ceil\<close>\<close>

definition div_ceil :: "u128 \<Rightarrow> u128 \<Rightarrow> u128" where
  "div_ceil a b = (let d = a div b; r = a mod b in if r > 0 then d + 1 else d)"

definition ticks_to_ns :: "u64 \<Rightarrow> u64 \<Rightarrow> u64 run" where
  "ticks_to_ns cnt frequency_hz =
     (if frequency_hz = 0 then Panic
      else
        let intermediate = ucast cnt * ucast NANOS_PER_SECOND;
            ns = intermediate div ucast frequency_hz
        in Ret (saturate ns))"

definition resolution_ns_for_freq :: "u64 \<Rightarrow> u64 run" where
  "resolution_ns_for_freq frequency_hz =
     (if frequency_hz = 0 then Panic
      else let raw = (NANOS_PER_SECOND + frequency_hz div 2) div frequency_hz in
        Ret (if raw = 0 then 1 else raw))"

definition ns_to_ticks :: "u64 \<Rightarrow> u64 \<Rightarrow> u64 run" where
  "ns_to_ticks ns frequency_hz =
     (if frequency_hz = 0 then Panic
      else
        let intermediate = ucast ns * ucast frequency_hz;
            nanos = ucast NANOS_PER_SECOND;
            ticks = div_ceil intermediate nanos
        in Ret (saturate ticks))"

section \<open>The conversions over the natural numbers\<close>

lemma u64_less: "unat (x :: u64) < 2 ^ 64"
  using unsigned_less [of x, where ?'a = nat] by simp

lemma unat_u128: "unat (ucast (x :: u64) :: u128) = unat x"
proof -
  have "unat x < 2 ^ 128" using u64_less [of x] by simp
  then show ?thesis by (simp add: unsigned_ucast_eq take_bit_nat_eq_self)
qed

lemma u64_max: "unat (- 1 :: u64) = 2 ^ 64 - 1"
  by (simp add: unsigned_minus_1_eq_mask mask_eq_exp_minus_1)

lemma unat_mult_u128: "unat (ucast (x :: 64 word) * ucast (y :: 64 word) :: 128 word) = unat x * unat y"
proof -
  have "unat x * unat y < 2 ^ 64 * 2 ^ 64" by (intro mult_strict_mono u64_less) simp_all
  then show ?thesis by (simp add: unat_word_ariths unat_u128)
qed

lemma unat_saturate: "unat (saturate v) = min (2 ^ 64 - 1) (unat v)"
proof -
  have "unat v \<le> 2 ^ 64 - 1 \<Longrightarrow> unat (ucast v :: u64) = unat v"
    by (simp add: unsigned_ucast_eq take_bit_nat_eq_self)
  then show ?thesis
    by (auto simp: saturate_def word_less_nat_alt unat_u128 u64_max min_def)
qed

lemma unat_nanos: "unat NANOS_PER_SECOND = 10 ^ 9"
  by (simp add: NANOS_PER_SECOND_def)

lemma unat_div_ceil:
  assumes "0 < unat b" and "unat a div unat b + 1 < 2 ^ 128"
  shows "unat (div_ceil a b) = (unat a + unat b - 1) div unat b"
proof -
  have "(unat a + unat b - 1) div unat b = unat a div unat b + (if unat a mod unat b = 0 then 0 else 1)"
  proof -
    have "unat a + unat b - 1 = unat a div unat b * unat b + (unat a mod unat b + unat b - 1)"
      using assms(1) by (simp add: mult.commute)
    then have "(unat a + unat b - 1) div unat b = unat a div unat b + (unat a mod unat b + unat b - 1) div unat b"
      using assms(1) by (metis div_mult_self3 not_gr0)
    also have "(unat a mod unat b + unat b - 1) div unat b = (if unat a mod unat b = 0 then 0 else 1)"
      using assms(1) mod_less_divisor [OF assms(1), of "unat a"] by (auto simp: div_nat_eqI)
    finally show ?thesis .
  qed
  moreover have "a mod b > 0 \<longleftrightarrow> unat a mod unat b \<noteq> 0"
    by (simp add: word_less_nat_alt unat_mod)
  moreover have "unat (a div b + 1) = unat a div unat b + 1"
    using assms(2) by (simp add: unat_word_ariths unat_div)
  ultimately show ?thesis by (simp add: div_ceil_def Let_def unat_div)
qed

lemma ticks_to_ns_nat:
  "f \<noteq> 0 \<Longrightarrow> \<exists>r. ticks_to_ns c f = Ret r \<and> unat r = min (2 ^ 64 - 1) (unat c * 10 ^ 9 div unat f)"
  by (simp add: ticks_to_ns_def Let_def unat_saturate unat_div unat_mult_u128 unat_u128 unat_nanos)

lemma ns_to_ticks_nat:
  assumes "f \<noteq> 0"
  shows "\<exists>r. ns_to_ticks n f = Ret r \<and> unat r = min (2 ^ 64 - 1) ((unat n * unat f + (10 ^ 9 - 1)) div 10 ^ 9)"
proof -
  let ?i = "ucast n * ucast f :: u128" and ?N = "ucast NANOS_PER_SECOND :: u128"
  have b: "unat ?N = 10 ^ 9" by (simp add: unat_u128 unat_nanos)
  have "unat ?i div 10 ^ 9 + 1 < 2 ^ 128" using unsigned_less [of ?i, where ?'a = nat] by simp
  then have "unat (div_ceil ?i ?N) = (unat n * unat f + (10 ^ 9 - 1)) div 10 ^ 9"
    using unat_div_ceil [of ?N ?i] b by (simp add: unat_mult_u128)
  then show ?thesis using assms by (simp add: ns_to_ticks_def Let_def unat_saturate)
qed

lemma div_ceil_le_iff: "0 < (b :: nat) \<Longrightarrow> (a + (b - 1)) div b \<le> c \<longleftrightarrow> a \<le> c * b"
proof -
  assume b: "0 < b"
  have "(a + (b - 1)) div b < Suc c \<longleftrightarrow> a + (b - 1) < Suc c * b" by (rule div_less_iff_less_mult [OF b])
  then show ?thesis using b by (auto simp: less_Suc_eq_le)
qed

lemma le_div_iff: "0 < (b :: nat) \<Longrightarrow> c \<le> a div b \<longleftrightarrow> c * b \<le> a"
  by (rule less_eq_div_iff_mult_less_eq)

text \<open>When the clock shows \<open>n\<close> or later, in counter ticks; up to 1 GHz the tick count fits.\<close>

lemma clock_reaches:
  assumes "f \<noteq> 0"
  shows "\<exists>now. ticks_to_ns c f = Ret now \<and>
    (n \<le> now \<longleftrightarrow> (unat n * unat f + (10 ^ 9 - 1)) div 10 ^ 9 \<le> unat c)"
proof -
  have f: "0 < unat f" using assms by (simp add: unat_gt_0)
  obtain r where r: "ticks_to_ns c f = Ret r" "unat r = min (2 ^ 64 - 1) (unat c * 10 ^ 9 div unat f)"
    using ticks_to_ns_nat [OF assms] by blast
  have "n \<le> r \<longleftrightarrow> unat n \<le> unat c * 10 ^ 9 div unat f"
    using r(2) u64_less [of n] by (auto simp: word_le_nat_alt)
  also have "\<dots> \<longleftrightarrow> (unat n * unat f + (10 ^ 9 - 1)) div 10 ^ 9 \<le> unat c"
    using f by (simp add: le_div_iff div_ceil_le_iff [of "10 ^ 9", simplified] mult.commute)
  finally show ?thesis using r(1) by blast
qed

lemma comparator_fits:
  assumes "f \<le> NANOS_PER_SECOND"
  shows "(unat (n :: u64) * unat f + (10 ^ 9 - 1)) div 10 ^ 9 \<le> 2 ^ 64 - 1"
proof -
  have "unat n * unat f \<le> unat n * 10 ^ 9" using assms by (simp add: word_le_nat_alt unat_nanos)
  then have "(unat n * unat f + (10 ^ 9 - 1)) div 10 ^ 9 \<le> unat n"
    by (simp add: div_ceil_le_iff [of "10 ^ 9", simplified])
  then show ?thesis using u64_less [of n] by simp
qed

lemma deadline_exact:
  assumes "f \<noteq> 0" and "f \<le> NANOS_PER_SECOND" and "ns_to_ticks n f = Ret t"
  shows "\<exists>now. ticks_to_ns c f = Ret now \<and> (n \<le> now \<longleftrightarrow> t \<le> c)"
proof -
  have "unat t = (unat n * unat f + (10 ^ 9 - 1)) div 10 ^ 9"
    using ns_to_ticks_nat [OF assms(1), of n] assms(3) comparator_fits [OF assms(2), of n] by auto
  then show ?thesis using clock_reaches [OF assms(1), of c n] by (simp add: word_le_nat_alt)
qed

section \<open>Properties\<close>

text \<open>C38. Deadlines are exact: for a comparator value \<open>t\<close> computed from a deadline, the clock shows the
  deadline or later exactly when the counter has reached \<open>t\<close>, so the timer fires neither early nor a
  tick late. The exception needs a counter above 1 GHz and a deadline the clock never shows: then
  \<open>t\<close> is saturated.\<close>

theorem deadline_reached_iff_comparator:
  assumes "f \<noteq> 0"
  shows "\<exists>t. ns_to_ticks n f = Ret t \<and>
    ((\<forall>c. \<exists>now. ticks_to_ns c f = Ret now \<and> (n \<le> now \<longleftrightarrow> t \<le> c)) \<or>
     f > NANOS_PER_SECOND \<and> t = - 1 \<and> (\<forall>c. \<exists>now. ticks_to_ns c f = Ret now \<and> now < n))"
proof -
  let ?T = "(unat n * unat f + (10 ^ 9 - 1)) div 10 ^ 9"
  obtain t where t: "ns_to_ticks n f = Ret t" "unat t = min (2 ^ 64 - 1) ?T" using ns_to_ticks_nat [OF assms] by blast
  have reach: "\<exists>now. ticks_to_ns c f = Ret now \<and> (n \<le> now \<longleftrightarrow> ?T \<le> unat c)" for c
    by (rule clock_reaches [OF assms])
  show ?thesis
  proof (cases "?T \<le> 2 ^ 64 - 1")
    case True
    then have "unat t = ?T" using t(2) by simp
    then show ?thesis using t(1) reach by (auto simp: word_le_nat_alt)
  next
    case False
    have "\<not> ?T \<le> unat c" for c :: u64 using False u64_less [of c] by simp
    with reach have "\<forall>c. \<exists>now. ticks_to_ns c f = Ret now \<and> now < n" by (metis not_le)
    moreover have "t = - 1" using t(2) False by (simp add: word_unat_eq_iff u64_max)
    moreover have "f > NANOS_PER_SECOND"
    proof (rule ccontr)
      assume "\<not> f > NANOS_PER_SECOND"
      then show False using comparator_fits [of f n] False by simp
    qed
    ultimately show ?thesis using t(1) by blast
  qed
qed

text \<open>The clock is monotone, never runs ahead of the counter, and is less than one nanosecond
  behind it, until it saturates; the multiplication does not overflow.\<close>

theorem clock_exact_and_monotone:
  assumes "f \<noteq> 0" and "c \<le> c'"
  shows "\<exists>r r'. ticks_to_ns c f = Ret r \<and> ticks_to_ns c' f = Ret r' \<and> r \<le> r' \<and>
    unat r * unat f \<le> unat c * 10 ^ 9 \<and> (r \<noteq> - 1 \<longrightarrow> unat c * 10 ^ 9 < (unat r + 1) * unat f)"
proof -
  obtain r where r: "ticks_to_ns c f = Ret r" "unat r = min (2 ^ 64 - 1) (unat c * 10 ^ 9 div unat f)"
    using ticks_to_ns_nat [OF assms(1)] by blast
  obtain r' where r': "ticks_to_ns c' f = Ret r'" "unat r' = min (2 ^ 64 - 1) (unat c' * 10 ^ 9 div unat f)"
    using ticks_to_ns_nat [OF assms(1)] by blast
  have f: "0 < unat f" using assms by (simp add: unat_gt_0)
  have "unat c * 10 ^ 9 div unat f \<le> unat c' * 10 ^ 9 div unat f"
    using assms(2) by (intro div_le_mono) (simp add: word_le_nat_alt)
  then have "r \<le> r'" using r(2) r'(2) by (simp add: word_le_nat_alt)
  moreover have "unat r \<le> unat c * 10 ^ 9 div unat f" using r(2) by simp
  then have "unat r * unat f \<le> unat c * 10 ^ 9" using f by (simp add: le_div_iff)
  moreover have "unat c * 10 ^ 9 < (unat r + 1) * unat f" if "r \<noteq> - 1"
  proof -
    have "unat r \<noteq> 2 ^ 64 - 1" using that by (simp add: word_unat_eq_iff u64_max)
    then have "unat r = unat c * 10 ^ 9 div unat f" using r(2) by (auto simp: min_def split: if_splits)
    then show ?thesis using f by (metis Suc_eq_plus1 dividend_less_div_times mult.commute mult_Suc_right add.commute)
  qed
  ultimately show ?thesis using r(1) r'(1) by blast
qed


text \<open>The resolution is the period rounded to the nearest nanosecond, within half a counter
  period's worth of frequency either way, and never zero; above 2 GHz it is 1. Rounding goes both ways: at 19.2 MHz the
  result, 52, is below the period.\<close>

theorem resolution_nearest:
  assumes "f \<noteq> 0"
  shows "\<exists>r. resolution_ns_for_freq f = Ret r \<and> 1 \<le> r \<and>
    (if unat f \<le> 2 * 10 ^ 9 then 2 * \<bar>int (unat r * unat f) - 10 ^ 9\<bar> \<le> int (unat f) else r = 1)"
proof -
  let ?n = "unat f"
  have f: "0 < ?n" using assms by (simp add: unat_gt_0)
  have half: "unat (f div 2) = ?n div 2" by (simp add: unat_div)
  have raw: "unat ((NANOS_PER_SECOND + f div 2) div f) = (10 ^ 9 + ?n div 2) div ?n"
    using u64_less [of f] by (simp add: unat_div unat_word_ariths half unat_nanos)
  define q where "q = (10 ^ 9 + ?n div 2) div ?n"
  have lo: "q * ?n \<le> 10 ^ 9 + ?n div 2" and hi: "10 ^ 9 + ?n div 2 < q * ?n + ?n"
    using dividend_less_div_times [OF f, of "10 ^ 9 + ?n div 2"] by (simp_all add: q_def)
  show ?thesis
  proof (cases "q = 0")
    case True
    then have "(NANOS_PER_SECOND + f div 2) div f = 0" using raw by (simp add: q_def unat_eq_zero)
    moreover have "\<not> ?n \<le> 2 * 10 ^ 9" using hi True by simp
    ultimately show ?thesis using assms by (simp add: resolution_ns_for_freq_def Let_def)
  next
    case False
    let ?r = "(NANOS_PER_SECOND + f div 2) div f"
    have r: "unat ?r = q" using raw by (simp add: q_def)
    then have nz: "?r \<noteq> 0" using False by auto
    have near: "m \<le> 10 ^ 9 + k div 2 \<Longrightarrow> 10 ^ 9 + k div 2 < m + k \<Longrightarrow> 2 * \<bar>int m - 10 ^ 9\<bar> \<le> int k" for m k :: nat
      by (auto simp: abs_if)
    have "2 * \<bar>int (q * ?n) - 10 ^ 9\<bar> \<le> int ?n" by (rule near [OF lo hi])
    moreover have "q = 1" if "\<not> ?n \<le> 2 * 10 ^ 9"
    proof -
      have "q * ?n < 2 * ?n" using lo that by linarith
      then show ?thesis using False by simp
    qed
    then have "?r = 1" if "\<not> ?n \<le> 2 * 10 ^ 9" using r that by (simp add: word_unat_eq_iff)
    moreover have "1 \<le> ?r" using nz by (simp add: word_le_nat_alt Suc_leI unat_gt_0)
    ultimately show ?thesis using assms nz r by (simp add: resolution_ns_for_freq_def Let_def)
  qed
qed

theorem deadline_reached_iff_comparator_witness:
  "\<exists>t. ns_to_ticks 1000 62500000 = Ret t \<and>
    (\<forall>c. \<exists>now. ticks_to_ns c 62500000 = Ret now \<and> (1000 \<le> now \<longleftrightarrow> t \<le> c))"
  using deadline_reached_iff_comparator [of 62500000 1000] by (auto simp: NANOS_PER_SECOND_def)

theorem clock_exact_and_monotone_witness:
  "\<exists>r r'. ticks_to_ns 5 19200000 = Ret r \<and> ticks_to_ns 6 19200000 = Ret r' \<and> r \<le> r'"
  using clock_exact_and_monotone [of 19200000 5 6] by auto


theorem resolution_nearest_witness:
  "resolution_ns_for_freq 19200000 = Ret 52 \<and> 2 * \<bar>int (52 * 19200000) - 10 ^ 9\<bar> \<le> (19200000 :: int)"
  using resolution_nearest [of 19200000] by (simp add: resolution_ns_for_freq_def NANOS_PER_SECOND_def)
end
