(* ===== verification/Board.thy ===== *)
theory Board
  imports Gic Timer_Arith
begin

text \<open>
  The board's CPU object with its generic timer (\<open>bsp-qemu-virt/src/cpu.rs\<close>) and its interrupt
  entry (\<open>bsp-qemu-virt/src/exceptions.rs\<close>), over the timer's two registers and the accesses to
  the interrupt controller. The counter is an argument wherever it is read.
\<close>

section \<open>The CPU object and the timer\<close>

text \<open>\<open>CurrentEL\<close> holds the exception level in bits 2 and 3, \<open>MPIDR\<close> the core number in its low byte.\<close>

definition current_el :: "u64 \<Rightarrow> u8" where
  "current_el raw = ucast (drop_bit 2 raw AND 3)"

definition current_core_id :: "u64 \<Rightarrow> u32" where
  "current_core_id mpidr = ucast (mpidr AND 0xFF)"

record QemuVirtCpu =
  frequency_hz :: u64
  cpu_resolution_ns :: u64

definition cpu_new :: "u64 \<Rightarrow> u64 \<Rightarrow> QemuVirtCpu run" where
  "cpu_new current_el_reg cntfrq =
     (if current_el current_el_reg \<noteq> 1 then Panic
      else if \<not> cntfrq > 0 then Panic
      else case resolution_ns_for_freq cntfrq of
             Ret r \<Rightarrow> Ret \<lparr>frequency_hz = cntfrq, cpu_resolution_ns = r\<rparr>
           | Panic \<Rightarrow> Panic
           | Diverge \<Rightarrow> Diverge)"

definition TIMER_IRQ :: IrqNumber where
  "TIMER_IRQ = IrqNumber 27"

record board =
  cntv_cval :: u64
  cntv_ctl :: u64
  gic_log :: mmio_log

definition now_ns :: "QemuVirtCpu \<Rightarrow> u64 \<Rightarrow> u64 run" where
  "now_ns cpu cntvct = ticks_to_ns cntvct (frequency_hz cpu)"

definition arm_deadline :: "QemuVirtGic \<Rightarrow> QemuVirtCpu \<Rightarrow> u64 \<Rightarrow> board \<Rightarrow> unit run \<times> board" where
  "arm_deadline g cpu deadline_ns b = (case ns_to_ticks deadline_ns (frequency_hz cpu) of
     Ret target_ticks \<Rightarrow>
       (let b = b\<lparr>cntv_cval := target_ticks\<rparr>;
            b = b\<lparr>cntv_ctl := 1\<rparr>
        in case gic_enable g TIMER_IRQ (gic_log b) of (r, l) \<Rightarrow> (r, b\<lparr>gic_log := l\<rparr>))
   | Panic \<Rightarrow> (Panic, b)
   | Diverge \<Rightarrow> (Diverge, b))"

definition cancel_deadline :: "QemuVirtGic \<Rightarrow> board \<Rightarrow> unit run \<times> board" where
  "cancel_deadline g b =
     (let b = b\<lparr>cntv_ctl := 2\<rparr>
      in case gic_disable g TIMER_IRQ (gic_log b) of (r, l) \<Rightarrow> (r, b\<lparr>gic_log := l\<rparr>))"

definition cpu_resolution :: "QemuVirtCpu \<Rightarrow> u64" where
  "cpu_resolution cpu = cpu_resolution_ns cpu"

text \<open>When the timer asserts its interrupt: enabled, not masked, and the counter at or past the
  compare value.\<close>

definition timer_asserts :: "board \<Rightarrow> u64 \<Rightarrow> bool" where
  "timer_asserts b cntvct \<longleftrightarrow> bit (cntv_ctl b) 0 \<and> \<not> bit (cntv_ctl b) 1 \<and> cntv_cval b \<le> cntvct"

section \<open>Interrupt and panic entry\<close>

definition TIMER_IRQ_ID :: u32 where
  "TIMER_IRQ_ID = 27"

definition irq_entry :: "(mmio_log \<Rightarrow> nat \<Rightarrow> u32) \<Rightarrow> QemuVirtGic \<Rightarrow> board \<Rightarrow> unit run \<times> board" where
  "irq_entry dev g b = (case gic_acknowledge dev g (gic_log b) of
     (None, l) \<Rightarrow> (Ret (), b\<lparr>gic_log := l\<rparr>)
   | (Some irq, l) \<Rightarrow>
       let b = b\<lparr>gic_log := l\<rparr> in
       if irq_num irq = TIMER_IRQ_ID
       then
         let b = b\<lparr>cntv_ctl := 2\<rparr>
         in (Ret (), b\<lparr>gic_log := gic_end_of_interrupt g irq (gic_log b)\<rparr>)
       else (Panic, b\<lparr>gic_log := gic_end_of_interrupt g irq (gic_log b)\<rparr>))"

datatype PanicClass = Generic | UnhandledIrqMode

definition panic_class_from_u64 :: "u64 \<Rightarrow> PanicClass" where
  "panic_class_from_u64 raw = (if raw = 1 then UnhandledIrqMode else Generic)"

fun panic_class_as_str :: "PanicClass \<Rightarrow> string" where
  "panic_class_as_str Generic = ''unhandled-class exception''"
| "panic_class_as_str UnhandledIrqMode = ''IRQ taken from unsupported mode (not curr_el_spx)''"

text \<open>\<open>panic_entry\<close> never returns; what it leaves is the message's class text.\<close>

definition panic_entry :: "u64 \<Rightarrow> u64 \<Rightarrow> unit run \<times> string" where
  "panic_entry class esr = (Panic, panic_class_as_str (panic_class_from_u64 class))"

section \<open>Lemmas\<close>

lemma timer_irq_valid: "irq_num TIMER_IRQ < GIC_MAX_IRQ"
  by (simp add: TIMER_IRQ_def gic_consts)

lemma ctl_bits: "bit (1 :: u64) 0" "\<not> bit (1 :: u64) 1" "\<not> bit (2 :: u64) 0" "bit (2 :: u64) 1"
  by simp_all

lemma cpu_new_freq: "cpu_new el fr = Ret cpu \<Longrightarrow> frequency_hz cpu = fr \<and> fr \<noteq> 0 \<and> current_el el = 1"
  by (auto simp: cpu_new_def split: if_splits run.splits)

lemma cpu_new_returns: "current_el el = 1 \<Longrightarrow> fr \<noteq> 0 \<Longrightarrow> \<exists>cpu. cpu_new el fr = Ret cpu"
  by (auto simp: cpu_new_def resolution_ns_for_freq_def Let_def word_gt_0)

lemma arm_deadline_returns:
  assumes "frequency_hz cpu \<noteq> 0"
  shows "\<exists>t. ns_to_ticks d (frequency_hz cpu) = Ret t \<and>
    arm_deadline g cpu d b = (Ret (), b\<lparr>cntv_cval := t, cntv_ctl := 1, gic_log := snd (gic_enable g TIMER_IRQ (gic_log b))\<rparr>)"
proof -
  obtain t where "ns_to_ticks d (frequency_hz cpu) = Ret t" using ns_to_ticks_nat [OF assms] by blast
  moreover have "fst (gic_enable g TIMER_IRQ l) = Ret ()" for l
    using timer_irq_valid by (simp add: gic_enable_def Let_def)
  ultimately show ?thesis by (simp add: arm_deadline_def split: prod.split) (metis fst_conv)
qed

lemma cancel_deadline_returns:
  "cancel_deadline g b = (Ret (), b\<lparr>cntv_ctl := 2, gic_log := snd (gic_disable g TIMER_IRQ (gic_log b))\<rparr>)"
  using timer_irq_valid by (simp add: cancel_deadline_def gic_disable_def Let_def)

lemma timer_quiet: "\<not> timer_asserts (b\<lparr>cntv_ctl := 2, gic_log := l\<rparr>) c"
  by (simp add: timer_asserts_def)

section \<open>The QEMU board as a one-shot timer\<close>

definition qemu_cpu :: QemuVirtCpu where
  "qemu_cpu = \<lparr>frequency_hz = 62500000, cpu_resolution_ns = 16\<rparr>"

lemma qemu_cpu_new: "cpu_new 4 62500000 = Ret qemu_cpu"
  by (simp add: cpu_new_def qemu_cpu_def current_el_def resolution_ns_for_freq_def NANOS_PER_SECOND_def
      drop_bit_eq_div)

fun returned :: "u64 run \<Rightarrow> u64" where
  "returned (Ret x) = x"
| "returned _ = 0"

interpretation qemu_timer: one_shot_timer "\<lambda>c. returned (now_ns qemu_cpu c)"
  "\<lambda>d b. snd (arm_deadline qemu_gic qemu_cpu d b)" "\<lambda>b. snd (cancel_deadline qemu_gic b)" timer_asserts
proof unfold_locales
  fix d b c
  have f: "frequency_hz qemu_cpu \<noteq> 0" "frequency_hz qemu_cpu \<le> NANOS_PER_SECOND"
    by (simp_all add: qemu_cpu_def NANOS_PER_SECOND_def)
  obtain t where t: "ns_to_ticks d (frequency_hz qemu_cpu) = Ret t"
    "snd (arm_deadline qemu_gic qemu_cpu d b) =
      b\<lparr>cntv_cval := t, cntv_ctl := 1, gic_log := snd (gic_enable qemu_gic TIMER_IRQ (gic_log b))\<rparr>"
    using arm_deadline_returns [OF f(1), of d qemu_gic b] by auto
  show "timer_asserts (snd (arm_deadline qemu_gic qemu_cpu d b)) c \<longleftrightarrow> d \<le> returned (now_ns qemu_cpu c)"
    using deadline_exact [OF f t(1), of c] by (auto simp: t(2) timer_asserts_def now_ns_def)
next
  fix b c
  show "\<not> timer_asserts (snd (cancel_deadline qemu_gic b)) c"
    by (simp add: cancel_deadline_returns timer_quiet)
qed

section \<open>Properties\<close>

text \<open>C18. Arming a deadline works end to end on any counter up to 1 GHz: the call returns, the timer's
  line is enabled at the controller and no other line changes, and from then on the timer asserts
  its interrupt at exactly those counter values at which the clock shows the deadline or later.
  Cancelling returns, silences the timer for good and disables its line.\<close>

theorem deadline_end_to_end:
  assumes "cpu_new el fr = Ret cpu" and "fr \<le> NANOS_PER_SECOND" and "gic_wf g"
    and "arm_deadline g cpu d b = (r, b')" and "cancel_deadline g b' = (r2, b2)"
  shows "r = Ret () \<and> gic_enabled g (gic_log b') = insert TIMER_IRQ (gic_enabled g (gic_log b)) \<and>
    (\<forall>c. \<exists>now. now_ns cpu c = Ret now \<and> (timer_asserts b' c \<longleftrightarrow> d \<le> now)) \<and>
    r2 = Ret () \<and> (\<forall>c. \<not> timer_asserts b2 c) \<and>
    gic_enabled g (gic_log b2) = gic_enabled g (gic_log b) - {TIMER_IRQ}"
proof -
  have f: "frequency_hz cpu = fr" "fr \<noteq> 0" using cpu_new_freq [OF assms(1)] by simp_all
  obtain t where t: "ns_to_ticks d fr = Ret t" and b': "r = Ret ()"
    "b' = b\<lparr>cntv_cval := t, cntv_ctl := 1, gic_log := snd (gic_enable g TIMER_IRQ (gic_log b))\<rparr>"
    using arm_deadline_returns [of cpu d g b] f assms(4) by auto
  have b2: "r2 = Ret ()" "b2 = b'\<lparr>cntv_ctl := 2, gic_log := snd (gic_disable g TIMER_IRQ (gic_log b'))\<rparr>"
    using assms(5) by (simp_all add: cancel_deadline_returns)
  have "\<exists>now. now_ns cpu c = Ret now \<and> (timer_asserts b' c \<longleftrightarrow> d \<le> now)" for c
    using deadline_exact [OF f(2) assms(2) t, of c] by (auto simp: b'(2) now_ns_def f(1) timer_asserts_def)
  moreover have "gic_enabled g (gic_log b') = insert TIMER_IRQ (gic_enabled g (gic_log b))"
    using gic_enabled_ops(1) [OF assms(3) timer_irq_valid] by (simp add: b'(2))
  moreover have "gic_enabled g (gic_log b2) = gic_enabled g (gic_log b') - {TIMER_IRQ}"
    using gic_enabled_ops(2) [OF assms(3) timer_irq_valid] by (simp add: b2(2))
  ultimately show ?thesis using b'(1) b2 by (auto simp: timer_quiet)
qed

text \<open>C19. \<open>irq_entry\<close> acknowledges once and signals the end of exactly the interrupt it acknowledged: a
  spurious read ends there; the timer interrupt silences the timer, is ended and returns; any other
  number is ended and panics, the reserved numbers 1020 to 1022 among them.\<close>

theorem irq_entry_ends_what_it_acknowledges:
  assumes "gic_wf g" and "raw = dev (gic_log b) (cpu_interface_base g + 0xC)"
    and "irq_entry dev g b = (r, b')"
  shows "let i = raw AND 0x3FF; ack = MRead (cpu_interface_base g + 0xC) raw;
      eoi = MWrite (cpu_interface_base g + 0x10) i
    in if i = 1023 then r = Ret () \<and> b' = b\<lparr>gic_log := gic_log b @ [ack]\<rparr>
       else if i = 27 then r = Ret () \<and> gic_log b' = gic_log b @ [ack, eoi] \<and> (\<forall>c. \<not> timer_asserts b' c)
       else r = Panic \<and> b' = b\<lparr>gic_log := gic_log b @ [ack, eoi]\<rparr>"
  using assms
  by (auto simp: irq_entry_def gic_acknowledge_def read_cpu_interface_def read_volatile_def Let_def
      gic_end_of_interrupt_def write_cpu_interface_def write_volatile_def TIMER_IRQ_ID_def sat_simps
      gic_consts timer_asserts_def split: if_splits)

section \<open>Witnesses\<close>

definition quiet_board :: board where
  "quiet_board = \<lparr>cntv_cval = 0, cntv_ctl = 0, gic_log = []\<rparr>"

theorem deadline_end_to_end_witness:
  "cpu_new 4 62500000 = Ret qemu_cpu \<and> gic_wf qemu_gic \<and>
   (\<forall>c. \<exists>now. now_ns qemu_cpu c = Ret now \<and>
     (timer_asserts (snd (arm_deadline qemu_gic qemu_cpu 1000 quiet_board)) c \<longleftrightarrow> 1000 \<le> now))"
proof -
  have f: "(62500000 :: u64) \<le> NANOS_PER_SECOND" by (simp add: NANOS_PER_SECOND_def)
  obtain r b' r2 b2 where run: "arm_deadline qemu_gic qemu_cpu 1000 quiet_board = (r, b')"
    "cancel_deadline qemu_gic b' = (r2, b2)" by (metis surj_pair)
  show ?thesis
    using deadline_end_to_end [OF qemu_cpu_new f qemu_gic_wf run] qemu_cpu_new qemu_gic_wf run(1) by simp
qed

text \<open>A device that answers every read with the timer's number.\<close>

theorem irq_entry_ends_what_it_acknowledges_witness:
  "\<exists>b'. irq_entry (\<lambda>_ _. 27) qemu_gic quiet_board = (Ret (), b') \<and>
     gic_log b' = [MRead 0x0801000C 27, MWrite 0x08010010 27] \<and> (\<forall>c. \<not> timer_asserts b' c)"
proof -
  obtain r b' where run: "irq_entry (\<lambda>_ _. 27) qemu_gic quiet_board = (r, b')" by fastforce
  have c: "cpu_interface_base qemu_gic = 0x08010000" by (simp add: qemu_gic_def gic_new_def gic_consts)
  show ?thesis
    using irq_entry_ends_what_it_acknowledges [OF qemu_gic_wf _ run, of 27] run c
    by (simp add: Let_def quiet_board_def)
qed

end
