(* ===== verification/Vectors.thy ===== *)
theory Vectors
  imports Aarch64 Board
begin

text \<open>
  Exceptions at EL1: the vector table and the trampolines of \<open>bsp-qemu-virt/src/vectors.s\<close>, the
  trap frame of \<open>bsp-qemu-virt/src/exceptions.rs\<close>, and what the processor does when it takes an
  exception and when it returns from one. The compiled \<open>irq_entry\<close> is a parameter: it acts on the
  board as \<open>irq_entry\<close> does, follows the procedure-call standard and writes to its own stack.
\<close>

section \<open>The machine at EL1\<close>

text \<open>\<open>m_pstate\<close> is the processor state in the layout of \<open>SPSR\<close>, without the four mask bits that
  \<open>m_daif\<close> holds: the condition flags in bits 28 to 31, the mode in bits 0 to 4.\<close>

record el1 = machine +
  m_pstate :: u64
  m_elr :: u64
  m_spsr :: u64
  m_esr :: u64
  m_vbar :: u64
  m_cpacr :: u64
  m_hcr_el2 :: u64
  m_spsr_el2 :: u64
  m_elr_el2 :: u64
  m_board :: board

datatype sysreg = ELR_EL1 | SPSR_EL1 | ESR_EL1 | VBAR_EL1 | CPACR_EL1 | HCR_EL2 | SPSR_EL2 | ELR_EL2 | CurrentEL

fun sys_get :: "sysreg \<Rightarrow> el1 \<Rightarrow> u64" where
  "sys_get ELR_EL1 m = m_elr m"
| "sys_get SPSR_EL1 m = m_spsr m"
| "sys_get ESR_EL1 m = m_esr m"
| "sys_get VBAR_EL1 m = m_vbar m"
| "sys_get CPACR_EL1 m = m_cpacr m"
| "sys_get HCR_EL2 m = m_hcr_el2 m"
| "sys_get SPSR_EL2 m = m_spsr_el2 m"
| "sys_get ELR_EL2 m = m_elr_el2 m"
| "sys_get CurrentEL m = m_pstate m AND 0xC"

fun sys_put :: "sysreg \<Rightarrow> u64 \<Rightarrow> el1 \<Rightarrow> el1" where
  "sys_put ELR_EL1 v m = m\<lparr>m_elr := v\<rparr>"
| "sys_put SPSR_EL1 v m = m\<lparr>m_spsr := v\<rparr>"
| "sys_put ESR_EL1 v m = m\<lparr>m_esr := v\<rparr>"
| "sys_put VBAR_EL1 v m = m\<lparr>m_vbar := v\<rparr>"
| "sys_put CPACR_EL1 v m = m\<lparr>m_cpacr := v\<rparr>"
| "sys_put HCR_EL2 v m = m\<lparr>m_hcr_el2 := v\<rparr>"
| "sys_put SPSR_EL2 v m = m\<lparr>m_spsr_el2 := v\<rparr>"
| "sys_put ELR_EL2 v m = m\<lparr>m_elr_el2 := v\<rparr>"
| "sys_put CurrentEL v m = m"

text \<open>Instructions that neither branch nor call.\<close>

datatype sys_instr =
    Core instr
  | SubSp nat
  | AddSp nat
  | StpSp reg reg nat
  | LdpSp reg reg nat
  | MovImm nat u64
  | Mrs nat sysreg
  | Msr sysreg nat
  | MsrDaifSet u64
  | MsrDaifClr u64
  | Isb

fun sexec :: "sys_instr \<Rightarrow> el1 \<Rightarrow> el1" where
  "sexec (Core i) m = exec i m"
| "sexec (SubSp k) m = m\<lparr>m_sp := m_sp m - of_nat k\<rparr>"
| "sexec (AddSp k) m = m\<lparr>m_sp := m_sp m + of_nat k\<rparr>"
| "sexec (StpSp a b off) m = (let p = m_sp m + of_nat off in
     m\<lparr>m_mem := (m_mem m)(p := reg_get a m, p + 8 := reg_get b m)\<rparr>)"
| "sexec (LdpSp a b off) m = (let p = m_sp m + of_nat off in
     reg_put b (m_mem m (p + 8)) (reg_put a (m_mem m p) m))"
| "sexec (MovImm n v) m = reg_put (X n) v m"
| "sexec (Mrs n r) m = reg_put (X n) (sys_get r m) m"
| "sexec (Msr r n) m = sys_put r (m_x m n) m"
| "sexec (MsrDaifSet v) m = m\<lparr>m_daif := m_daif m OR push_bit 6 (v AND 0xF)\<rparr>"
| "sexec (MsrDaifClr v) m = m\<lparr>m_daif := m_daif m AND NOT (push_bit 6 (v AND 0xF))\<rparr>"
| "sexec Isb m = m"

section \<open>Trampolines\<close>

datatype trap_instr = Op sys_instr | BlIrqEntry | BlPanicEntry | Eret | WfeLoop

definition tyrne_irq_curr_el_trampoline :: "trap_instr list" where
  "tyrne_irq_curr_el_trampoline = [
     Op (SubSp 192),
     Op (StpSp (X 0) (X 1) 0x00),
     Op (StpSp (X 2) (X 3) 0x10),
     Op (StpSp (X 4) (X 5) 0x20),
     Op (StpSp (X 6) (X 7) 0x30),
     Op (StpSp (X 8) (X 9) 0x40),
     Op (StpSp (X 10) (X 11) 0x50),
     Op (StpSp (X 12) (X 13) 0x60),
     Op (StpSp (X 14) (X 15) 0x70),
     Op (StpSp (X 16) (X 17) 0x80),
     Op (StpSp (X 18) (X 30) 0x90),
     Op (Mrs 0 ELR_EL1),
     Op (Mrs 1 SPSR_EL1),
     Op (StpSp (X 0) (X 1) 0xA0),
     Op (Core (MovFromSp 0)),
     BlIrqEntry,
     Op (LdpSp (X 0) (X 1) 0xA0),
     Op (Msr ELR_EL1 0),
     Op (Msr SPSR_EL1 1),
     Op (LdpSp (X 18) (X 30) 0x90),
     Op (LdpSp (X 16) (X 17) 0x80),
     Op (LdpSp (X 14) (X 15) 0x70),
     Op (LdpSp (X 12) (X 13) 0x60),
     Op (LdpSp (X 10) (X 11) 0x50),
     Op (LdpSp (X 8) (X 9) 0x40),
     Op (LdpSp (X 6) (X 7) 0x30),
     Op (LdpSp (X 4) (X 5) 0x20),
     Op (LdpSp (X 2) (X 3) 0x10),
     Op (LdpSp (X 0) (X 1) 0x00),
     Op (AddSp 192),
     Eret]"

definition tyrne_unhandled_exception_trampoline :: "trap_instr list" where
  "tyrne_unhandled_exception_trampoline = [
     Op (SubSp 16),
     Op (MovImm 0 0),
     Op (Mrs 1 ESR_EL1),
     BlPanicEntry,
     WfeLoop]"

definition tyrne_unhandled_irq_trampoline :: "trap_instr list" where
  "tyrne_unhandled_irq_trampoline = [
     Op (SubSp 16),
     Op (MovImm 0 1),
     Op (Mrs 1 ESR_EL1),
     BlPanicEntry,
     WfeLoop]"

text \<open>The table: sixteen entries of 0x80 bytes, each a branch to a trampoline.\<close>

definition tyrne_vectors :: "trap_instr list list" where
  "tyrne_vectors = [
     tyrne_unhandled_exception_trampoline,
     tyrne_unhandled_irq_trampoline,
     tyrne_unhandled_exception_trampoline,
     tyrne_unhandled_exception_trampoline,

     tyrne_unhandled_exception_trampoline,
     tyrne_irq_curr_el_trampoline,
     tyrne_unhandled_exception_trampoline,
     tyrne_unhandled_exception_trampoline,

     tyrne_unhandled_exception_trampoline,
     tyrne_unhandled_irq_trampoline,
     tyrne_unhandled_exception_trampoline,
     tyrne_unhandled_exception_trampoline,

     tyrne_unhandled_exception_trampoline,
     tyrne_unhandled_irq_trampoline,
     tyrne_unhandled_exception_trampoline,
     tyrne_unhandled_exception_trampoline]"

text \<open>How a trampoline ends: it resumes the interrupted code, calls \<open>panic_entry\<close> with its class
  and syndrome, or never ends.\<close>

datatype trap_end = Resume el1 | PanicWith u64 u64 | Hang

definition eret :: "el1 \<Rightarrow> el1" where
  "eret m = m\<lparr>m_pc := m_elr m, m_daif := m_spsr m AND 0x3C0, m_pstate := m_spsr m AND NOT 0x3C0\<rparr>"

text \<open>\<open>call\<close> is the compiled \<open>irq_entry\<close>, \<open>None\<close> when it does not return; \<open>ra\<close> is the address
  after the \<open>bl\<close>.\<close>

fun trap :: "(el1 \<Rightarrow> el1 option) \<Rightarrow> u64 \<Rightarrow> trap_instr list \<Rightarrow> el1 \<Rightarrow> trap_end" where
  "trap call ra [] m = Resume m"
| "trap call ra (Op i # is) m = trap call ra is (sexec i m)"
| "trap call ra (BlIrqEntry # is) m =
     (case call (m\<lparr>m_x := (m_x m)(30 := ra)\<rparr>) of None \<Rightarrow> Hang | Some m' \<Rightarrow> trap call ra is m')"
| "trap call ra (BlPanicEntry # is) m = PanicWith (m_x m 0) (m_x m 1)"
| "trap call ra (Eret # is) m = Resume (eret m)"
| "trap call ra (WfeLoop # is) m = Hang"

section \<open>Taking an exception\<close>

datatype origin = CurrElSp0 | CurrElSpx | LowerAarch64 | LowerAarch32

datatype exn_kind = Sync | Irq | Fiq | SError

fun origin_offset :: "origin \<Rightarrow> nat" where
  "origin_offset CurrElSp0 = 0x000"
| "origin_offset CurrElSpx = 0x200"
| "origin_offset LowerAarch64 = 0x400"
| "origin_offset LowerAarch32 = 0x600"

fun kind_offset :: "exn_kind \<Rightarrow> nat" where
  "kind_offset Sync = 0x000"
| "kind_offset Irq = 0x080"
| "kind_offset Fiq = 0x100"
| "kind_offset SError = 0x180"

text \<open>The processor saves the return address and the state, masks all four classes, and enters
  EL1 on its own stack pointer.\<close>

definition enter_el1 :: "u64 \<Rightarrow> el1 \<Rightarrow> el1" where
  "enter_el1 esr m = m\<lparr>m_elr := m_pc m, m_spsr := m_pstate m OR m_daif m, m_esr := esr,
     m_daif := 0x3C0, m_pstate := (m_pstate m AND NOT 0x1F) OR 0x5\<rparr>"

definition take_exception ::
  "(el1 \<Rightarrow> el1 option) \<Rightarrow> u64 \<Rightarrow> origin \<Rightarrow> exn_kind \<Rightarrow> u64 \<Rightarrow> el1 \<Rightarrow> trap_end" where
  "take_exception call ra orig kind esr m =
     trap call ra (tyrne_vectors ! ((origin_offset orig + kind_offset kind) div 0x80)) (enter_el1 esr m)"

section \<open>The trap frame\<close>

record TrapFrame =
  x0_x1 :: "u64 list"
  x2_x3 :: "u64 list"
  x4_x5 :: "u64 list"
  x6_x7 :: "u64 list"
  x8_x9 :: "u64 list"
  x10_x11 :: "u64 list"
  x12_x13 :: "u64 list"
  x14_x15 :: "u64 list"
  x16_x17 :: "u64 list"
  x18_lr :: "u64 list"
  elr_spsr :: "u64 list"
  frame_reserved :: "u64 list"

text \<open>The frame at an address, in \<open>repr(C)\<close> layout: twelve fields of two doublewords each, in
  order.\<close>

definition pair_at :: "(u64 \<Rightarrow> u64) \<Rightarrow> u64 \<Rightarrow> nat \<Rightarrow> u64 list" where
  "pair_at mem p k = [mem (p + of_nat (16 * k)), mem (p + of_nat (16 * k + 8))]"

definition frame_at :: "(u64 \<Rightarrow> u64) \<Rightarrow> u64 \<Rightarrow> TrapFrame" where
  "frame_at mem p = \<lparr>x0_x1 = pair_at mem p 0, x2_x3 = pair_at mem p 1, x4_x5 = pair_at mem p 2,
     x6_x7 = pair_at mem p 3, x8_x9 = pair_at mem p 4, x10_x11 = pair_at mem p 5, x12_x13 = pair_at mem p 6,
     x14_x15 = pair_at mem p 7, x16_x17 = pair_at mem p 8, x18_lr = pair_at mem p 9,
     elr_spsr = pair_at mem p 10, frame_reserved = pair_at mem p 11\<rparr>"

definition trap_frame_size :: nat where
  "trap_frame_size = 12 * 2 * 8"

text \<open>The instructions before the call, and the state they hand to \<open>irq_entry\<close>.\<close>

fun before_call :: "trap_instr list \<Rightarrow> sys_instr list" where
  "before_call (Op i # is) = i # before_call is"
| "before_call is = []"

definition frame_passed :: "u64 \<Rightarrow> el1 \<Rightarrow> el1" where
  "frame_passed esr m = fold sexec (before_call tyrne_irq_curr_el_trampoline) (enter_el1 esr m)"

section \<open>Calls\<close>

text \<open>What the procedure-call standard promises of a call: the callee-saved registers and the stack
  pointer are as before.\<close>

definition aapcs64 :: "el1 \<Rightarrow> el1 \<Rightarrow> bool" where
  "aapcs64 m m' \<longleftrightarrow> (\<forall>n. 19 \<le> n \<and> n \<le> 29 \<longrightarrow> m_x m' n = m_x m n) \<and> m_sp m' = m_sp m \<and>
     (\<forall>n. 8 \<le> n \<and> n \<le> 15 \<longrightarrow> m_d m' n = m_d m n)"

text \<open>The \<open>room\<close> bytes of stack below an address, and a call that writes to given places only.\<close>

definition stack_below :: "u64 \<Rightarrow> nat \<Rightarrow> u64 set" where
  "stack_below sp room = {a. a < sp \<and> unat sp \<le> unat a + room}"

definition writes_only :: "u64 set \<Rightarrow> el1 \<Rightarrow> el1 \<Rightarrow> bool" where
  "writes_only A m m' \<longleftrightarrow> (\<forall>a. a \<notin> A \<longrightarrow> m_mem m' a = m_mem m a)"

text \<open>Code compiled from \<open>irq_entry\<close>: it returns when \<open>irq_entry\<close> does, keeps the standard, has the same
  effect on the devices, and writes to no memory but its own stack, \<open>room\<close> bytes of it, and the data \<open>W\<close>
  of the kernel it may update (\<open>irq_entry\<close> as it is updates none).\<close>

definition compiled_irq_entry ::
  "(mmio_log \<Rightarrow> nat \<Rightarrow> u32) \<Rightarrow> QemuVirtGic \<Rightarrow> u64 set \<Rightarrow> nat \<Rightarrow> (el1 \<Rightarrow> el1 option) \<Rightarrow> bool" where
  "compiled_irq_entry dev g W room call \<longleftrightarrow>
     (\<forall>m b. irq_entry dev g (m_board m) = (Ret (), b) \<longrightarrow>
       (\<exists>m'. call m = Some m' \<and> aapcs64 m m' \<and> writes_only (W \<union> stack_below (m_sp m) room) m m' \<and> m_board m' = b)) \<and>
     (\<forall>m. fst (irq_entry dev g (m_board m)) \<noteq> Ret () \<longrightarrow> call m = None)"

lemma compiled_returns:
  assumes "compiled_irq_entry dev g W room call" and "irq_entry dev g (m_board m) = (Ret (), b)"
  obtains m' where "call m = Some m'" "aapcs64 m m'" "writes_only (W \<union> stack_below (m_sp m) room) m m'" "m_board m' = b"
  using assms unfolding compiled_irq_entry_def by blast

section \<open>Saving and restoring\<close>

text \<open>The memory after the save, below the interrupted stack pointer.\<close>

definition frame_stored :: "el1 \<Rightarrow> u64 \<Rightarrow> u64 \<Rightarrow> u64" where
  "frame_stored m p = (m_mem m)(
     p := m_x m 0, p + 8 := m_x m 1, p + 0x10 := m_x m 2, p + 0x18 := m_x m 3, p + 0x20 := m_x m 4,
     p + 0x28 := m_x m 5, p + 0x30 := m_x m 6, p + 0x38 := m_x m 7, p + 0x40 := m_x m 8, p + 0x48 := m_x m 9,
     p + 0x50 := m_x m 10, p + 0x58 := m_x m 11, p + 0x60 := m_x m 12, p + 0x68 := m_x m 13, p + 0x70 := m_x m 14,
     p + 0x78 := m_x m 15, p + 0x80 := m_x m 16, p + 0x88 := m_x m 17, p + 0x90 := m_x m 18, p + 0x98 := m_x m 30,
     p + 0xA0 := m_elr m, p + 0xA8 := m_spsr m)"

lemma irq_save_eval:
  "fold sexec (before_call tyrne_irq_curr_el_trampoline) m =
   m\<lparr>m_sp := m_sp m - 192, m_x := (m_x m)(1 := m_spsr m, 0 := m_sp m - 192),
     m_mem := frame_stored m (m_sp m - 192)\<rparr>"
  by (simp add: tyrne_irq_curr_el_trampoline_def frame_stored_def Let_def add.assoc)

lemma frame_stored_frame:
  "frame_at (frame_stored m p) p = \<lparr>x0_x1 = [m_x m 0, m_x m 1], x2_x3 = [m_x m 2, m_x m 3],
     x4_x5 = [m_x m 4, m_x m 5], x6_x7 = [m_x m 6, m_x m 7], x8_x9 = [m_x m 8, m_x m 9],
     x10_x11 = [m_x m 10, m_x m 11], x12_x13 = [m_x m 12, m_x m 13], x14_x15 = [m_x m 14, m_x m 15],
     x16_x17 = [m_x m 16, m_x m 17], x18_lr = [m_x m 18, m_x m 30], elr_spsr = [m_elr m, m_spsr m],
     frame_reserved = [m_mem m (p + 0xB0), m_mem m (p + 0xB8)]\<rparr>"
  by (simp add: frame_at_def pair_at_def frame_stored_def)

text \<open>The restore sequence, run where the memory at the stack pointer holds such a frame.\<close>

definition after_call :: "trap_instr list" where
  "after_call = drop 16 tyrne_irq_curr_el_trampoline"

definition x_restored :: "el1 \<Rightarrow> el1 \<Rightarrow> nat \<Rightarrow> u64" where
  "x_restored m m' n = (if n \<le> 18 \<or> n = 30 then m_x m n else m_x m' n)"

lemma x_restored_eq: "x_restored m m' = (m_x m')(
    18 := m_x m 18, 30 := m_x m 30, 16 := m_x m 16, 17 := m_x m 17, 14 := m_x m 14, 15 := m_x m 15,
    12 := m_x m 12, 13 := m_x m 13, 10 := m_x m 10, 11 := m_x m 11, 8 := m_x m 8, 9 := m_x m 9,
    6 := m_x m 6, 7 := m_x m 7, 4 := m_x m 4, 5 := m_x m 5, 2 := m_x m 2, 3 := m_x m 3,
    0 := m_x m 0, 1 := m_x m 1)"
proof
  fix n :: nat
  have "n \<le> 18 \<longleftrightarrow> n \<in> {0, 1, 2, 3, 4, 5, 6, 7, 8, 9, 10, 11, 12, 13, 14, 15, 16, 17, 18}"
    by (auto simp: le_Suc_eq numeral_eq_Suc)
  then show "x_restored m m' n = ((m_x m')(
    18 := m_x m 18, 30 := m_x m 30, 16 := m_x m 16, 17 := m_x m 17, 14 := m_x m 14, 15 := m_x m 15,
    12 := m_x m 12, 13 := m_x m 13, 10 := m_x m 10, 11 := m_x m 11, 8 := m_x m 8, 9 := m_x m 9,
    6 := m_x m 6, 7 := m_x m 7, 4 := m_x m 4, 5 := m_x m 5, 2 := m_x m 2, 3 := m_x m 3,
    0 := m_x m 0, 1 := m_x m 1)) n"
    by (auto simp: x_restored_def)
qed

lemma irq_restore_eval:
  assumes "\<And>k. k < 192 \<Longrightarrow> m_mem m' (m_sp m' + of_nat k) = frame_stored m (m_sp m') (m_sp m' + of_nat k)"
  shows "trap call ra after_call m' = Resume (eret (m'\<lparr>m_elr := m_elr m, m_spsr := m_spsr m,
     m_x := x_restored m m', m_sp := m_sp m' + 192\<rparr>))"
proof -
  have cell: "m_mem m' (m_sp m' + of_nat k) = frame_stored m (m_sp m') (m_sp m' + of_nat k)" if "k < 192" for k
    using assms that by blast
  have off: "m_mem m' (m_sp m' + 8) = m_x m 1" "m_mem m' (m_sp m') = m_x m 0"
    using cell [of 0] cell [of 8] by (simp_all add: frame_stored_def)
  show ?thesis
    using cell [of 16] cell [of 24] cell [of 32] cell [of 40] cell [of 48] cell [of 56]
      cell [of 64] cell [of 72] cell [of 80] cell [of 88] cell [of 96] cell [of 104]
      cell [of 112] cell [of 120] cell [of 128] cell [of 136] cell [of 144] cell [of 152]
      cell [of 160] cell [of 168]
    by (simp add: after_call_def tyrne_irq_curr_el_trampoline_def Let_def add.assoc off x_restored_eq
        frame_stored_def)
qed

lemma trap_call:
  "trap call ra (map Op is @ BlIrqEntry # rest) m =
   (case call ((fold sexec is m)\<lparr>m_x := (m_x (fold sexec is m))(30 := ra)\<rparr>) of
      None \<Rightarrow> Hang | Some m' \<Rightarrow> trap call ra rest m')"
  by (induction "is" arbitrary: m) simp_all

lemma irq_trampoline_split:
  "tyrne_irq_curr_el_trampoline = map Op (before_call tyrne_irq_curr_el_trampoline) @ BlIrqEntry # after_call"
  by (simp add: after_call_def tyrne_irq_curr_el_trampoline_def)

text \<open>The frame is the 192 bytes below the interrupted stack pointer; the handler's stack is below it.\<close>

lemma frame_cell:
  assumes "192 \<le> (sp :: u64)" and "k < 192"
  shows "sp - 192 + of_nat k \<in> stack_below sp 192" and "sp - 192 + of_nat k \<notin> stack_below (sp - 192) room"
proof -
  have "unat sp < 2 ^ 64" using unsigned_less [of sp] by simp
  moreover have sub: "unat (sp - 192) = unat sp - 192" using assms(1) by (simp add: unat_sub)
  moreover have big: "192 \<le> unat sp" using assms(1) by (simp add: word_le_nat_alt)
  ultimately have "unat (sp - 192 + of_nat k) = unat sp - 192 + k"
    using assms(2) by (simp add: unat_word_ariths unat_of_nat)
  then show "sp - 192 + of_nat k \<in> stack_below sp 192" "sp - 192 + of_nat k \<notin> stack_below (sp - 192) room"
    using assms(2) sub big by (auto simp: stack_below_def word_less_nat_alt)
qed

lemma stack_below_frame:
  assumes "192 \<le> sp"
  shows "stack_below (sp - 192) room \<subseteq> stack_below sp (192 + room)" "stack_below sp 192 \<subseteq> stack_below sp (192 + room)"
proof -
  have "unat (sp - 192) = unat sp - 192" "192 \<le> unat sp" using assms by (simp_all add: unat_sub word_le_nat_alt)
  then show "stack_below (sp - 192) room \<subseteq> stack_below sp (192 + room)"
    "stack_below sp 192 \<subseteq> stack_below sp (192 + room)"
    by (auto simp: stack_below_def word_less_nat_alt)
qed

lemma frame_stored_outside:
  assumes "192 \<le> m_sp m" and "a \<notin> stack_below (m_sp m) 192"
  shows "frame_stored m (m_sp m - 192) a = m_mem m a"
proof -
  have cell: "a \<noteq> m_sp m - 192 + of_nat k" if "k < 192" for k
    using frame_cell(1) [OF assms(1) that] assms(2) by blast
  have "\<forall>k \<in> {0, 8, 16, 24, 32, 40, 48, 56, 64, 72, 80, 88, 96, 104, 112, 120, 128, 136, 144, 152, 160, 168}.
      a \<noteq> m_sp m - 192 + of_nat k"
    by (rule ballI, rule cell) auto
  then show ?thesis by (simp add: frame_stored_def)
qed

lemma pstate_split:
  fixes p d M :: u64
  assumes "d AND NOT M = 0" and "p AND M = 0"
  shows "(p OR d) AND M = d" and "(p OR d) AND NOT M = p"
proof -
  have d: "bit M n" if "bit d n" for n
    using arg_cong [OF assms(1), of "\<lambda>w. bit w n"] that bit_imp_le_length [OF that]
    by (simp add: bit_and_iff bit_not_iff)
  have p: "\<not> bit M n" if "bit p n" for n
    using arg_cong [OF assms(2), of "\<lambda>w. bit w n"] that by (simp add: bit_and_iff)
  show "(p OR d) AND M = d" by (rule bit_eqI) (auto simp: bit_and_iff bit_or_iff dest: d p)
  show "(p OR d) AND NOT M = p" by (rule bit_eqI) (auto simp: bit_and_iff bit_or_iff bit_not_iff dest: d p)
qed

text \<open>An interrupted state is well formed when its mask and its other state keep to their bits.\<close>

definition pstate_wf :: "el1 \<Rightarrow> bool" where
  "pstate_wf m \<longleftrightarrow> m_daif m AND NOT 0x3C0 = 0 \<and> m_pstate m AND 0x3C0 = 0"

text \<open>An interrupt up to its return: the call's machine, what the call leaves, the resumed one.\<close>

lemma irq_round:
  assumes "compiled_irq_entry dev g W room call" and "irq_entry dev g (m_board m) = (Ret (), b)" and "192 \<le> m_sp m"
    and "W \<inter> stack_below (m_sp m) 192 = {}"
  obtains c m1 where "call c = Some m1" "aapcs64 c m1" "m_board m1 = b" "m_board c = m_board m" "m_d c = m_d m"
    "\<And>n. 19 \<le> n \<Longrightarrow> n \<le> 29 \<Longrightarrow> m_x c n = m_x m n" "m_sp m1 = m_sp m - 192"
    "\<And>a. a \<notin> W \<Longrightarrow> a \<notin> stack_below (m_sp m) (192 + room) \<Longrightarrow> m_mem m1 a = m_mem m a"
    "take_exception call ra CurrElSpx Irq esr m = Resume (eret (m1\<lparr>m_elr := m_pc m,
       m_spsr := m_pstate m OR m_daif m, m_x := x_restored m m1, m_sp := m_sp m1 + 192\<rparr>))"
proof -
  define e where "e = enter_el1 esr m"
  have e: "m_x e = m_x m" "m_d e = m_d m" "m_sp e = m_sp m" "m_mem e = m_mem m" "m_board e = m_board m"
    "m_elr e = m_pc m" "m_spsr e = m_pstate m OR m_daif m" by (simp_all add: e_def enter_el1_def)
  define s where "s = fold sexec (before_call tyrne_irq_curr_el_trampoline) e"
  define c where "c = s\<lparr>m_x := (m_x s)(30 := ra)\<rparr>"
  have c: "m_sp c = m_sp m - 192" "m_mem c = frame_stored e (m_sp m - 192)" "m_d c = m_d m"
    "m_board c = m_board m" "19 \<le> n \<Longrightarrow> n \<le> 29 \<Longrightarrow> m_x c n = m_x m n" for n
    by (simp_all add: c_def s_def irq_save_eval e)
  obtain m1 where m1: "call c = Some m1" "aapcs64 c m1" "m_board m1 = b"
    and wr: "writes_only (W \<union> stack_below (m_sp c) room) c m1"
    using compiled_returns [OF assms(1)] assms(2) c(4) by metis
  then have sp: "m_sp m1 = m_sp m - 192"
    and mem: "\<And>a. a \<notin> W \<Longrightarrow> a \<notin> stack_below (m_sp m - 192) room \<Longrightarrow> m_mem m1 a = frame_stored e (m_sp m - 192) a"
    using c(1,2) by (simp_all add: aapcs64_def writes_only_def)
  have frame: "m_mem m1 (m_sp m1 + of_nat k) = frame_stored e (m_sp m1) (m_sp m1 + of_nat k)" if "k < 192" for k
    unfolding sp using assms(4) frame_cell [OF assms(3) that] by (intro mem) blast+
  have x: "x_restored e m1 = x_restored m m1" by (simp add: fun_eq_iff x_restored_def e)
  have run: "take_exception call ra CurrElSpx Irq esr m = Resume (eret (m1\<lparr>m_elr := m_pc m,
       m_spsr := m_pstate m OR m_daif m, m_x := x_restored m m1, m_sp := m_sp m1 + 192\<rparr>))"
    using irq_restore_eval [OF frame] m1(1)
    by (simp add: take_exception_def tyrne_vectors_def e_def [symmetric])
      (subst irq_trampoline_split, simp add: trap_call s_def [symmetric] c_def [symmetric] e x)
  have "m_mem m1 a = m_mem m a" if "a \<notin> W" "a \<notin> stack_below (m_sp m) (192 + room)" for a
  proof -
    have "a \<notin> stack_below (m_sp m - 192) room" "a \<notin> stack_below (m_sp m) 192"
      using stack_below_frame [OF assms(3), of room] that(2) by blast+
    then show ?thesis using mem [OF that(1)] frame_stored_outside [of e a] assms(3) by (simp add: e)
  qed
  then show ?thesis using that m1 c(3-5) sp run by blast
qed

section \<open>Properties\<close>

text \<open>C15. The interrupt is transparent, to the extent the trampoline makes it so. However \<open>irq_entry\<close> is
  compiled, as long as the code acts on the board as \<open>irq_entry\<close> does, follows the procedure-call
  standard and writes only to its own \<open>room\<close> bytes of stack and to the data \<open>W\<close>, which the frame does
  not overlap: an interrupt taken at any point in kernel code, with room for the frame on the stack,
  ends in the same code with x0 to x30, the stack pointer, the program counter, the condition flags,
  the interrupt mask and d8 to d15 as they were, with the board as \<open>irq_entry\<close> leaves it, and with all
  memory, above and below, as it was but for \<open>W\<close> and the \<open>192 + room\<close> bytes below the stack pointer. The
  other vector registers are not part of this: the trampoline does not save them.\<close>

theorem irq_transparent:
  assumes "compiled_irq_entry dev g W room call" and "irq_entry dev g (m_board m) = (Ret (), b)"
    and "pstate_wf m" and "192 \<le> m_sp m" and "W \<inter> stack_below (m_sp m) 192 = {}"
  shows "\<exists>m'. take_exception call ra CurrElSpx Irq esr m = Resume m' \<and> m_board m' = b \<and>
    (\<forall>n \<le> 30. m_x m' n = m_x m n) \<and> (\<forall>n. 8 \<le> n \<and> n \<le> 15 \<longrightarrow> m_d m' n = m_d m n) \<and>
    m_sp m' = m_sp m \<and> m_pc m' = m_pc m \<and> m_daif m' = m_daif m \<and> m_pstate m' = m_pstate m \<and>
    (\<forall>a. a \<notin> W \<longrightarrow> a \<notin> stack_below (m_sp m) (192 + room) \<longrightarrow> m_mem m' a = m_mem m a)"
proof -
  obtain c m1 where r: "aapcs64 c m1" "m_board m1 = b" "m_d c = m_d m" "\<And>n. 19 \<le> n \<Longrightarrow> n \<le> 29 \<Longrightarrow> m_x c n = m_x m n"
    "m_sp m1 = m_sp m - 192" "\<And>a. a \<notin> W \<Longrightarrow> a \<notin> stack_below (m_sp m) (192 + room) \<Longrightarrow> m_mem m1 a = m_mem m a"
    and run: "take_exception call ra CurrElSpx Irq esr m = Resume (eret (m1\<lparr>m_elr := m_pc m,
       m_spsr := m_pstate m OR m_daif m, m_x := x_restored m m1, m_sp := m_sp m1 + 192\<rparr>))"
    using irq_round [OF assms(1,2,4,5), of ra esr] by metis
  have x: "x_restored m m1 n = m_x m n" if "n \<le> 30" for n
    using r(1) r(4) [of n] that by (auto simp: x_restored_def aapcs64_def)
  have d: "m_d m1 n = m_d m n" if "8 \<le> n" "n \<le> 15" for n
    using r(1) that by (simp add: aapcs64_def r(3))
  show ?thesis
    unfolding run using pstate_split [of "m_daif m" "0x3C0" "m_pstate m"] assms(3) x d r(2,6)
    by (simp add: eret_def r(5) pstate_wf_def)
qed

text \<open>C21. The frame is what the handler's type says: \<open>irq_entry\<close> is called with the address of a
  \<open>TrapFrame\<close> of 192 bytes, directly below the interrupted stack pointer and aligned like it, whose
  fields hold the registers they are named after, the interrupted address and the interrupted
  processor state.\<close>

theorem trap_frame_layout:
  shows "frame_at (m_mem (frame_passed esr m)) (m_x (frame_passed esr m) 0) =
      \<lparr>x0_x1 = [m_x m 0, m_x m 1], x2_x3 = [m_x m 2, m_x m 3], x4_x5 = [m_x m 4, m_x m 5],
       x6_x7 = [m_x m 6, m_x m 7], x8_x9 = [m_x m 8, m_x m 9], x10_x11 = [m_x m 10, m_x m 11],
       x12_x13 = [m_x m 12, m_x m 13], x14_x15 = [m_x m 14, m_x m 15], x16_x17 = [m_x m 16, m_x m 17],
       x18_lr = [m_x m 18, m_x m 30], elr_spsr = [m_pc m, m_pstate m OR m_daif m],
       frame_reserved = [m_mem m (m_sp m - 16), m_mem m (m_sp m - 8)]\<rparr> \<and>
    m_x (frame_passed esr m) 0 = m_sp m - of_nat trap_frame_size \<and>
    m_sp (frame_passed esr m) = m_x (frame_passed esr m) 0 \<and>
    m_sp (frame_passed esr m) AND 0xF = m_sp m AND 0xF"
proof -
  have "unat (m_sp m) = (unat (m_sp m - 192) + 192) mod 2 ^ 64"
    using unat_word_ariths(1) [of "m_sp m - 192" 192] by simp
  then have "unat (m_sp m) mod 2 ^ 4 = (unat (m_sp m - 192) + 192) mod 2 ^ 4" by (simp add: mod_mod_cancel)
  also have "\<dots> = unat (m_sp m - 192) mod 2 ^ 4" by (simp add: mod_add_right_eq [of _ 192 16, symmetric])
  finally have "take_bit 4 (m_sp m - 192) = take_bit 4 (m_sp m)"
    unfolding word_unat_eq_iff unsigned_take_bit_eq by (simp add: take_bit_eq_mod)
  then have "(m_sp m - 192) AND 0xF = m_sp m AND 0xF" by (simp add: take_bit_eq_mask mask_numeral)
  then show ?thesis
    by (simp add: frame_passed_def irq_save_eval frame_stored_frame enter_el1_def trap_frame_size_def)
qed

text \<open>C20. Every other vector panics: an exception of any other origin or kind ends in \<open>panic_entry\<close>
  with the syndrome it was taken with and the class that names it, the IRQ class for interrupts and
  the generic one for the rest. Only an interrupt taken at EL1 on its own stack pointer is handled.\<close>

theorem other_vectors_panic:
  assumes "(orig, kind) \<noteq> (CurrElSpx, Irq)"
  shows "\<exists>class. take_exception call ra orig kind esr m = PanicWith class esr \<and>
    panic_entry class esr = (Panic, panic_class_as_str (if kind = Irq then UnhandledIrqMode else Generic))"
  using assms
  by (cases orig; cases kind)
    (simp_all add: take_exception_def tyrne_vectors_def tyrne_unhandled_exception_trampoline_def
      tyrne_unhandled_irq_trampoline_def enter_el1_def panic_entry_def panic_class_from_u64_def)

text \<open>A handler compiled in the standard's terms that uses every register the standard lets it use, and
  all of its stack.\<close>

definition clobbering_call :: "nat \<Rightarrow> (mmio_log \<Rightarrow> nat \<Rightarrow> u32) \<Rightarrow> QemuVirtGic \<Rightarrow> el1 \<Rightarrow> el1 option" where
  "clobbering_call room dev g m = (case irq_entry dev g (m_board m) of
     (r, b) \<Rightarrow> if r = Ret () then Some (m\<lparr>m_x := \<lambda>n. if 19 \<le> n \<and> n \<le> 29 then m_x m n else 0xDEAD,
         m_d := \<lambda>n. if 8 \<le> n \<and> n \<le> 15 then m_d m n else 0xBEEF,
         m_mem := \<lambda>a. if a < m_sp m \<and> unat (m_sp m) \<le> unat a + room then 0xF00D else m_mem m a, m_board := b\<rparr>)
       else None)"

lemma clobbering_call_compiled: "compiled_irq_entry dev g {} room (clobbering_call room dev g)"
  by (auto simp: compiled_irq_entry_def clobbering_call_def aapcs64_def writes_only_def stack_below_def split: prod.splits)

definition sample_el1 :: el1 where
  "sample_el1 = \<lparr>m_x = of_nat, m_d = of_nat, m_sp = 0x40200000, m_pc = 0x40081234, m_daif = 0, m_mem = id,
     m_pstate = 0x60000005, m_elr = 0, m_spsr = 0, m_esr = 0, m_vbar = 0x40080800, m_cpacr = 0x300000,
     m_hcr_el2 = 0, m_spsr_el2 = 0, m_elr_el2 = 0,
     m_board = \<lparr>cntv_cval = 0, cntv_ctl = 1, gic_log = []\<rparr>\<rparr>"

text \<open>A controller that reports the timer's line.\<close>

definition timer_fires :: "mmio_log \<Rightarrow> nat \<Rightarrow> u32" where
  "timer_fires l a = 27"

lemma timer_irq_taken:
  "irq_entry timer_fires qemu_gic (m_board sample_el1) =
   (Ret (), \<lparr>cntv_cval = 0, cntv_ctl = 2, gic_log = [MRead 0x0801000C 27, MWrite 0x08010010 27]\<rparr>)"
  by (simp add: irq_entry_def gic_acknowledge_def read_cpu_interface_def read_volatile_def Let_def timer_fires_def
      gic_end_of_interrupt_def write_cpu_interface_def write_volatile_def TIMER_IRQ_ID_def sat_add_def
      USIZE_MAX_def gic_consts sample_el1_def qemu_gic_def gic_new_def)

lemma sample_el1_wf: "pstate_wf sample_el1" "192 \<le> m_sp sample_el1"
  by (simp_all add: pstate_wf_def sample_el1_def)

theorem irq_transparent_witness:
  "\<exists>m'. take_exception (clobbering_call 256 timer_fires qemu_gic) 0 CurrElSpx Irq 0 sample_el1 = Resume m' \<and>
    m_x m' 30 = 30 \<and> m_pc m' = 0x40081234 \<and> m_sp m' = 0x40200000 \<and>
    gic_log (m_board m') = [MRead 0x0801000C 27, MWrite 0x08010010 27] \<and>
    m_mem m' 0x401FFE38 = 0x401FFE38 \<and> m_mem m' 0x40200000 = 0x40200000"
proof -
  have s: "m_x sample_el1 30 = 30" "m_pc sample_el1 = 0x40081234" "m_sp sample_el1 = 0x40200000" "m_mem sample_el1 = id"
    by (simp_all add: sample_el1_def)
  have "(0x401FFE38 :: u64) \<notin> stack_below (m_sp sample_el1) (192 + 256)"
    "(0x40200000 :: u64) \<notin> stack_below (m_sp sample_el1) (192 + 256)" by (simp_all add: s stack_below_def)
  then show ?thesis
    using irq_transparent [OF clobbering_call_compiled timer_irq_taken sample_el1_wf Int_empty_left, of 256 0 0] s
    by fastforce
qed

theorem other_vectors_panic_witness:
  "\<exists>class. take_exception (\<lambda>m. None) 0 CurrElSpx Sync 0x96000045 sample_el1 = PanicWith class 0x96000045 \<and>
    panic_entry class 0x96000045 = (Panic, ''unhandled-class exception'')"
  using other_vectors_panic [of CurrElSpx Sync "\<lambda>m. None" 0 "0x96000045" sample_el1] by simp

text \<open>C33. The trampoline saves no vector register although \<open>boot.s\<close> enables them: there is a
  handler that acts as \<open>irq_entry\<close> does and follows the procedure-call standard, and after whose
  interrupt the interrupted code goes on with another value in a vector register.\<close>

theorem interrupt_loses_vector_registers:
  "\<exists>dev call m m'. compiled_irq_entry dev qemu_gic {} room call \<and> pstate_wf m \<and>
     fst (irq_entry dev qemu_gic (m_board m)) = Ret () \<and>
     take_exception call ra CurrElSpx Irq esr m = Resume m' \<and> m_pc m' = m_pc m \<and> m_d m' 0 \<noteq> m_d m 0"
proof -
  let ?call = "clobbering_call room timer_fires qemu_gic"
  obtain c m1 where r: "?call c = Some m1" "m_sp m1 = m_sp sample_el1 - 192"
    and run: "take_exception ?call ra CurrElSpx Irq esr sample_el1 = Resume (eret (m1\<lparr>m_elr := m_pc sample_el1,
       m_spsr := m_pstate sample_el1 OR m_daif sample_el1, m_x := x_restored sample_el1 m1, m_sp := m_sp m1 + 192\<rparr>))"
    using irq_round [OF clobbering_call_compiled timer_irq_taken sample_el1_wf(2) Int_empty_left, of room ra esr] by metis
  let ?m' = "eret (m1\<lparr>m_elr := m_pc sample_el1, m_spsr := m_pstate sample_el1 OR m_daif sample_el1,
      m_x := x_restored sample_el1 m1, m_sp := m_sp m1 + 192\<rparr>)"
  have "m_d m1 0 = 0xBEEF" using r(1) by (auto simp: clobbering_call_def split: prod.splits if_splits)
  then have "m_pc ?m' = m_pc sample_el1" "m_d ?m' 0 \<noteq> m_d sample_el1 0"
    by (simp_all add: eret_def sample_el1_def)
  then show ?thesis
    using clobbering_call_compiled sample_el1_wf(1) timer_irq_taken run by (metis fst_conv)
qed

end
