(* ===== verification/Boot_Asm.thy ===== *)
theory Boot_Asm
  imports Vectors
begin

text \<open>
  The reset code, \<open>bsp-qemu-virt/src/boot.s\<close>: masking, the drop from EL2 to EL1, the stack, the
  vector unit, the loop that zeroes the static data, and the jump to Rust. The code is a list of
  instructions; a branch target is a position in it.
\<close>

section \<open>The code\<close>

text \<open>The addresses the linker fixes, \<open>linker.ld\<close>. Instructions are four bytes.\<close>

record boot_layout =
  lay_start :: u64
  lay_stack_top :: u64
  lay_bss_start :: u64
  lay_bss_end :: u64

datatype symbol = Sym_post_eret | Sym_stack_top | Sym_bss_start | Sym_bss_end

datatype boot_instr =
    Do sys_instr
  | AndImm nat u64
  | CmpImm nat u64
  | CmpReg nat nat
  | BEq nat
  | BHs nat
  | B nat
  | Adrp nat symbol
  | AddLo12 nat symbol
  | StrXzrPost nat u64
  | EretInstr
  | Wfe
  | BlKernelEntry

abbreviation el2_to_el1 :: nat where "el2_to_el1 \<equiv> 9"
abbreviation post_eret :: nat where "post_eret \<equiv> 17"

definition boot_code :: "boot_instr list" where
  "boot_code = [
     Do (MsrDaifSet 0xF),
     Do (Mrs 0 CurrentEL),
     AndImm 0 (push_bit 2 3),
     CmpImm 0 (push_bit 2 2),
     BEq el2_to_el1,
     CmpImm 0 (push_bit 2 1),
     BEq post_eret,
     Wfe,
     B 7,
     Do (MovImm 0 (push_bit 31 1)),
     Do (Msr HCR_EL2 0),
     Do (MovImm 0 0x3C5),
     Do (Msr SPSR_EL2 0),
     Adrp 0 Sym_post_eret,
     AddLo12 0 Sym_post_eret,
     Do (Msr ELR_EL2 0),
     EretInstr,
     Adrp 0 Sym_stack_top,
     AddLo12 0 Sym_stack_top,
     Do (Core (MovToSp 0)),
     Do (MovImm 0 0x300000),
     Do (Msr CPACR_EL1 0),
     Do Isb,
     Adrp 0 Sym_bss_start,
     AddLo12 0 Sym_bss_start,
     Adrp 1 Sym_bss_end,
     AddLo12 1 Sym_bss_end,
     CmpReg 0 1,
     BHs 31,
     StrXzrPost 0 8,
     B 27,
     BlKernelEntry,
     Wfe,
     B 32]"

section \<open>Execution\<close>

fun sym_addr :: "boot_layout \<Rightarrow> symbol \<Rightarrow> u64" where
  "sym_addr lay Sym_post_eret = lay_start lay + 4 * of_nat post_eret"
| "sym_addr lay Sym_stack_top = lay_stack_top lay"
| "sym_addr lay Sym_bss_start = lay_bss_start lay"
| "sym_addr lay Sym_bss_end = lay_bss_end lay"

text \<open>The condition flags of a comparison: negative, zero, carry, overflow, in bits 31 to 28.\<close>

definition nzcv :: "u64 \<Rightarrow> u64 \<Rightarrow> u64" where
  "nzcv a b = (if bit (a - b) 63 then 0x80000000 else 0) OR (if a = b then 0x40000000 else 0) OR
     (if b \<le> a then 0x20000000 else 0) OR (if sint (a - b) \<noteq> sint a - sint b then 0x10000000 else 0)"

definition set_flags :: "u64 \<Rightarrow> el1 \<Rightarrow> el1" where
  "set_flags f m = m\<lparr>m_pstate := (m_pstate m AND NOT 0xF0000000) OR f\<rparr>"

text \<open>\<open>eret\<close> at EL2 takes its address and state from the registers of that level.\<close>

definition boot_eret :: "el1 \<Rightarrow> u64 \<times> el1" where
  "boot_eret m = (if m_pstate m AND 0xC = 8
     then (m_elr_el2 m, m\<lparr>m_daif := m_spsr_el2 m AND 0x3C0, m_pstate := m_spsr_el2 m AND NOT 0x3C0\<rparr>)
     else (m_elr m, eret m))"

fun boot_exec :: "boot_layout \<Rightarrow> boot_instr \<Rightarrow> nat \<Rightarrow> el1 \<Rightarrow> nat \<times> el1" where
  "boot_exec lay (Do i) pc m = (pc + 1, sexec i m)"
| "boot_exec lay (AndImm n v) pc m = (pc + 1, reg_put (X n) (m_x m n AND v) m)"
| "boot_exec lay (CmpImm n v) pc m = (pc + 1, set_flags (nzcv (m_x m n) v) m)"
| "boot_exec lay (CmpReg a b) pc m = (pc + 1, set_flags (nzcv (m_x m a) (m_x m b)) m)"
| "boot_exec lay (BEq l) pc m = (if bit (m_pstate m) 30 then l else pc + 1, m)"
| "boot_exec lay (BHs l) pc m = (if bit (m_pstate m) 29 then l else pc + 1, m)"
| "boot_exec lay (B l) pc m = (l, m)"
| "boot_exec lay (Adrp n s) pc m = (pc + 1, reg_put (X n) (sym_addr lay s AND NOT 0xFFF) m)"
| "boot_exec lay (AddLo12 n s) pc m = (pc + 1, reg_put (X n) (m_x m n + (sym_addr lay s AND 0xFFF)) m)"
| "boot_exec lay (StrXzrPost n k) pc m =
     (pc + 1, reg_put (X n) (m_x m n + k) (m\<lparr>m_mem := (m_mem m)(m_x m n := 0)\<rparr>))"
| "boot_exec lay EretInstr pc m = (case boot_eret m of (a, m') \<Rightarrow> (unat (a - lay_start lay) div 4, m'))"
| "boot_exec lay Wfe pc m = (pc + 1, m)"
| "boot_exec lay BlKernelEntry pc m = (pc, m)"

text \<open>\<open>bl kernel_entry\<close> leaves this code; the machine stays at that instruction.\<close>

definition boot_step :: "boot_layout \<Rightarrow> nat \<times> el1 \<Rightarrow> nat \<times> el1" where
  "boot_step lay s = boot_exec lay (boot_code ! fst s) (fst s) (snd s)"

definition boot_steps :: "boot_layout \<Rightarrow> nat \<Rightarrow> nat \<times> el1 \<Rightarrow> nat \<times> el1" where
  "boot_steps lay n = boot_step lay ^^ n"

text \<open>What the linker script guarantees: the static data is aligned and of whole doublewords.\<close>

definition bss_words :: "boot_layout \<Rightarrow> nat" where
  "bss_words lay = (unat (lay_bss_end lay) - unat (lay_bss_start lay)) div 8"

definition layout_ok :: "boot_layout \<Rightarrow> bool" where
  "layout_ok lay \<longleftrightarrow> lay_bss_start lay \<le> lay_bss_end lay \<and> 8 dvd unat (lay_bss_start lay) \<and>
     8 dvd unat (lay_bss_end lay)"

definition bss_cells :: "u64 \<Rightarrow> nat \<Rightarrow> u64 set" where
  "bss_cells p k = (\<lambda>i. p + of_nat (8 * i)) ` {..<k}"

section \<open>Lemmas\<close>

lemma page_lo12: "(a AND NOT 0xFFF) + (a AND 0xFFF) = (a :: u64)"
proof -
  have "(a AND NOT M) AND (a AND M) = 0" "(a AND NOT M) OR (a AND M) = a" for M :: u64
    by (auto simp: bit_eq_iff bit_simps)
  then show ?thesis using disjunctive_add_eq_or by metis
qed

lemma flag_bits:
  "bit (m_pstate (set_flags (nzcv a b) m)) 30 \<longleftrightarrow> a = b"
  "bit (m_pstate (set_flags (nzcv a b) m)) 29 \<longleftrightarrow> b \<le> a"
  by (simp_all add: set_flags_def nzcv_def bit_or_iff bit_and_iff bit_not_iff)

lemma set_flags_el: "m_pstate (set_flags (nzcv a b) m) AND 0xC = m_pstate m AND 0xC"
proof -
  have "nzcv a b AND 0xC = 0" by (simp add: nzcv_def bit.conj_disj_distrib2)
  then show ?thesis by (simp add: set_flags_def bit.conj_disj_distrib2 and.assoc)
qed

lemma set_flags_fields:
  "m_x (set_flags f m) = m_x m" "m_mem (set_flags f m) = m_mem m" "m_sp (set_flags f m) = m_sp m"
  "m_daif (set_flags f m) = m_daif m" "m_cpacr (set_flags f m) = m_cpacr m" "m_board (set_flags f m) = m_board m"
  by (simp_all add: set_flags_def)

lemma boot_steps_add: "boot_steps lay (i + j) s = boot_steps lay j (boot_steps lay i s)"
  by (simp add: boot_steps_def funpow_add add.commute [of i j])

lemma boot_steps_Suc: "boot_steps lay (Suc n) s = boot_steps lay n (boot_step lay s)"
  by (simp add: boot_steps_def funpow_swap1)

lemma boot_steps_0: "boot_steps lay 0 s = s"
  by (simp add: boot_steps_def)

lemma boot_steps_numeral:
  "boot_steps lay (numeral k) s = boot_steps lay (pred_numeral k) (boot_step lay s)"
  by (simp add: numeral_eq_Suc boot_steps_Suc)

text \<open>Executing a known stretch of the code.\<close>

lemmas boot_eval = boot_steps_numeral boot_steps_Suc boot_steps_0 boot_step_def boot_code_def flag_bits set_flags_fields
  page_lo12 page_lo12 [simplified]

text \<open>From reset to \<open>post_eret\<close>: interrupts are masked and the machine is at EL1, memory untouched.\<close>

definition at_el1 :: "el1 \<Rightarrow> el1 \<Rightarrow> bool" where
  "at_el1 m m' \<longleftrightarrow> m_pstate m' AND 0xC = 4 \<and> m_daif m' AND 0x3C0 = 0x3C0 \<and> m_mem m' = m_mem m \<and>
     m_board m' = m_board m"

lemma and_idem: "(x AND c) AND c = (x AND (c :: u64))"
  by (simp add: and.assoc)

lemma or_absorb: "(x OR c) AND c = (c :: u64)"
  by (auto simp: bit_eq_iff bit_simps)

lemma boot_from_el1:
  assumes "m_pstate m AND 0xC = 4"
  shows "\<exists>m'. boot_steps lay 7 (0, m) = (post_eret, m') \<and> at_el1 m m'"
  using assms by (simp add: boot_eval at_el1_def set_flags_el and_idem or_absorb)

lemma boot_from_el2:
  assumes "m_pstate m AND 0xC = 8"
  shows "\<exists>m'. boot_steps lay 13 (0, m) = (post_eret, m') \<and> at_el1 m m'"
  using assms by (simp add: boot_eval at_el1_def set_flags_el and_idem boot_eret_def)

text \<open>At any other level the code never leaves its halt loop.\<close>

lemma boot_halts:
  assumes "m_pstate m AND 0xC \<noteq> 4" and "m_pstate m AND 0xC \<noteq> 8"
  shows "fst (boot_steps lay n (0, m)) \<le> 8"
proof -
  have wait: "boot_step lay (7, m') = (8, m')" "boot_step lay (8, m') = (7, m')" for m'
    by (simp_all add: boot_step_def boot_code_def)
  have loop: "p = 7 \<or> p = 8 \<Longrightarrow> fst (boot_steps lay n (p, m')) \<le> 8" for n p m'
    by (induction n arbitrary: p) (auto simp: boot_steps_0 boot_steps_Suc wait)
  have start: "fst (boot_steps lay i (0, m)) \<le> 8 \<and> fst (boot_steps lay 7 (0, m)) = 7"
    if "i \<in> {0, 1, 2, 3, 4, 5, 6}" for i
    using that assms by (auto simp: boot_eval and_idem)
  show ?thesis
  proof (cases "n < 7")
    case True
    then have "n \<in> {0, 1, 2, 3, 4, 5, 6}" by auto
    then show ?thesis using start by blast
  next
    case False
    then obtain j where "n = 7 + j" using le_Suc_ex [of 7 n] by auto
    then show ?thesis using start [of 0] loop by (cases "boot_steps lay 7 (0, m)") (simp add: boot_steps_add)
  qed
qed

text \<open>The stack, the vector unit, and the bounds of the static data.\<close>

lemma boot_setup:
  "boot_steps lay 10 (post_eret, m) = (27, m\<lparr>m_sp := lay_stack_top lay, m_cpacr := 0x300000,
     m_x := (m_x m)(0 := lay_bss_start lay, 1 := lay_bss_end lay)\<rparr>)"
  by (simp add: boot_eval)

text \<open>The loop: each round clears one cell; it ends at the bound.\<close>

lemma boot_loop:
  assumes "m_x m 0 = p" and "unat p + 8 * k = unat (m_x m 1)"
  shows "\<exists>m'. boot_steps lay (4 * k + 2) (27, m) = (31, m') \<and>
    m_mem m' = (\<lambda>a. if a \<in> bss_cells p k then 0 else m_mem m a) \<and> m_sp m' = m_sp m \<and> m_cpacr m' = m_cpacr m \<and>
    m_daif m' = m_daif m \<and> m_pstate m' AND 0xC = m_pstate m AND 0xC \<and> m_board m' = m_board m"
  using assms
proof (induction k arbitrary: p m)
  case 0
  then have "m_x m 1 \<le> m_x m 0" by (simp add: word_le_nat_alt)
  then show ?case by (simp add: boot_eval set_flags_el bss_cells_def)
next
  case (Suc k)
  let ?m = "set_flags (nzcv p (m_x m 1)) m"
  let ?m1 = "?m\<lparr>m_mem := (m_mem m)(p := 0), m_x := (m_x m)(0 := p + 8)\<rparr>"
  have "unat (m_x m 1) < 2 ^ 64" using unsigned_less [of "m_x m 1"] by simp
  then have up: "unat (p + 8) = unat p + 8" using Suc.prems by (simp add: unat_word_ariths)
  have cells: "bss_cells p (Suc k) = insert p (bss_cells (p + 8) k)"
    by (simp add: bss_cells_def lessThan_Suc_eq_insert_0 image_image add.assoc)
  have lt: "\<not> m_x m 1 \<le> p" using Suc.prems by (simp add: word_le_nat_alt)
  have round: "boot_steps lay 4 (27, m) = (27, ?m1)"
    using Suc.prems(1) lt by (simp add: boot_eval)
  have "\<exists>m'. boot_steps lay (4 * k + 2) (27, ?m1) = (31, m') \<and>
    m_mem m' = (\<lambda>a. if a \<in> bss_cells (p + 8) k then 0 else m_mem ?m1 a) \<and> m_sp m' = m_sp ?m1 \<and>
    m_cpacr m' = m_cpacr ?m1 \<and> m_daif m' = m_daif ?m1 \<and> m_pstate m' AND 0xC = m_pstate ?m1 AND 0xC \<and>
    m_board m' = m_board ?m1"
    using Suc.prems up by (intro Suc.IH) simp_all
  moreover have "boot_steps lay (4 * Suc k + 2) (27, m) = boot_steps lay (4 * k + 2) (27, ?m1)"
    using boot_steps_add [of lay 4 "4 * k + 2"] round by (simp add: add.assoc [symmetric])
  ultimately show ?case
    by (auto simp: cells set_flags_el fun_eq_iff) (simp_all add: set_flags_def)
qed

text \<open>From reset to the call, entered at EL1 or EL2.\<close>

lemma boot_run:
  assumes "layout_ok lay" and "m_pstate m AND 0xC = 4 \<or> m_pstate m AND 0xC = 8"
  shows "\<exists>n pc m'. boot_steps lay n (0, m) = (pc, m') \<and> boot_code ! pc = BlKernelEntry \<and>
    current_el (sys_get CurrentEL m') = 1 \<and> m_daif m' AND 0x3C0 = 0x3C0 \<and>
    m_sp m' = lay_stack_top lay \<and> m_cpacr m' = 0x300000 \<and>
    m_mem m' = (\<lambda>a. if a \<in> bss_cells (lay_bss_start lay) (bss_words lay) then 0 else m_mem m a) \<and>
    m_board m' = m_board m"
proof -
  obtain i m1 where m1: "boot_steps lay i (0, m) = (post_eret, m1)" "at_el1 m m1"
    using boot_from_el1 boot_from_el2 assms(2) by blast
  define m2 where "m2 = m1\<lparr>m_sp := lay_stack_top lay, m_cpacr := 0x300000,
     m_x := (m_x m1)(0 := lay_bss_start lay, 1 := lay_bss_end lay)\<rparr>"
  have "unat (lay_bss_start lay) + 8 * bss_words lay = unat (m_x m2 1)"
    using assms(1) by (auto simp: m2_def layout_ok_def bss_words_def word_le_nat_alt elim!: dvdE)
  from boot_loop [of m2 "lay_bss_start lay", OF _ this] obtain m' where
    m': "boot_steps lay (4 * bss_words lay + 2) (27, m2) = (31, m')"
      "m_mem m' = (\<lambda>a. if a \<in> bss_cells (lay_bss_start lay) (bss_words lay) then 0 else m_mem m2 a)"
      "m_sp m' = m_sp m2" "m_cpacr m' = m_cpacr m2" "m_daif m' = m_daif m2" "m_board m' = m_board m2"
      "m_pstate m' AND 0xC = m_pstate m2 AND 0xC" by (auto simp: m2_def)
  have "boot_steps lay (i + (10 + (4 * bss_words lay + 2))) (0, m) = (31, m')"
    using m1(1) m'(1) boot_setup [of lay m1] by (simp only: boot_steps_add m2_def)
  moreover have "boot_code ! 31 = BlKernelEntry" by (simp add: boot_code_def)
  moreover have "current_el (4 :: u64) = 1" by (simp add: current_el_def drop_bit_eq_div)
  ultimately show ?thesis
    using m' m1(2) by (auto simp: m2_def at_el1_def intro!: exI)
qed

section \<open>Properties\<close>

text \<open>C16. Reset ends in Rust. Entered at EL1 or at EL2, on any image whose static data is made of
  whole doublewords, the code reaches \<open>bl kernel_entry\<close> after finitely many steps, at EL1, so that the
  check of \<open>QemuVirtCpu::new\<close> passes, with all interrupts masked, the stack pointer at the top of the
  stack, the vector unit enabled, every cell of the static data zero and no other cell touched.
  Entered at any other level it never gets there.\<close>

theorem boot_reaches_kernel_entry:
  assumes "layout_ok lay"
  shows "if m_pstate m AND 0xC = 4 \<or> m_pstate m AND 0xC = 8
    then \<exists>n pc m'. boot_steps lay n (0, m) = (pc, m') \<and> boot_code ! pc = BlKernelEntry \<and>
      current_el (sys_get CurrentEL m') = 1 \<and> m_daif m' AND 0x3C0 = 0x3C0 \<and>
      m_sp m' = lay_stack_top lay \<and> m_cpacr m' = 0x300000 \<and>
      m_mem m' = (\<lambda>a. if a \<in> bss_cells (lay_bss_start lay) (bss_words lay) then 0 else m_mem m a)
    else \<forall>n. boot_code ! fst (boot_steps lay n (0, m)) \<noteq> BlKernelEntry"
proof (cases "m_pstate m AND 0xC = 4 \<or> m_pstate m AND 0xC = 8")
  case True
  then show ?thesis using boot_run [OF assms, of m] by auto
next
  case False
  have "boot_code ! pc \<noteq> BlKernelEntry" if "pc \<le> 8" for pc
  proof -
    have "pc \<in> {0, 1, 2, 3, 4, 5, 6, 7, 8}" using that by auto
    then show ?thesis by (auto simp: boot_code_def)
  qed
  then show ?thesis using boot_halts [of m lay] False by auto
qed

text \<open>A reset at EL2, with sixteen bytes of static data.\<close>

definition sample_layout :: boot_layout where
  "sample_layout = \<lparr>lay_start = 0x40080000, lay_stack_top = 0x40110020, lay_bss_start = 0x40100010,
     lay_bss_end = 0x40100020\<rparr>"

theorem boot_reaches_kernel_entry_witness:
  "\<exists>n pc m'. boot_steps sample_layout n (0, sample_el1\<lparr>m_pstate := 9, m_daif := 0\<rparr>) = (pc, m') \<and>
     boot_code ! pc = BlKernelEntry \<and> m_sp m' = 0x40110020 \<and>
     m_mem m' 0x40100018 = 0 \<and> m_mem m' 0x40100020 = 0x40100020"
proof -
  have ok: "layout_ok sample_layout" by (simp add: layout_ok_def sample_layout_def)
  have "0x40100018 \<in> bss_cells (lay_bss_start sample_layout) (bss_words sample_layout)"
    "0x40100020 \<notin> bss_cells (lay_bss_start sample_layout) (bss_words sample_layout)"
    by (simp_all add: bss_cells_def bss_words_def sample_layout_def lessThan_nat_numeral lessThan_Suc)
  moreover let ?m = "sample_el1\<lparr>m_pstate := 9, m_daif := 0\<rparr>"
  have "m_pstate ?m AND 0xC = 8" "m_mem ?m = id" "lay_stack_top sample_layout = 0x40110020"
    by (simp_all add: sample_el1_def sample_layout_def)
  moreover note boot_reaches_kernel_entry [OF ok, of ?m]
  ultimately show ?thesis by fastforce
qed

end
