(* ===== verification/Uart.thy ===== *)
theory Uart
  imports Mmio
begin

text \<open>
  The console: the byte-sink contract and formatted-output adapter of \<open>hal/src/console.rs\<close>, and the
  PL011 driver of \<open>bsp-qemu-virt/src/console.rs\<close>, which polls a flag before each byte. The poll
  ends only if the device drains; not ending is a value of the model.
\<close>

section \<open>The console contract\<close>

text \<open>\<open>FmtWriter::write_str\<close>, on the bytes of the string; it cannot fail.\<close>

definition write_str :: "(u8 list \<Rightarrow> 'c \<Rightarrow> unit run \<times> 'c) \<Rightarrow> u8 list \<Rightarrow> 'c \<Rightarrow> (unit, unit) result run \<times> 'c" where
  "write_str write_bytes s c = plain (write_bytes s c)"

text \<open>\<open>core::fmt::Write::write_fmt\<close>: the pieces of a formatted string, in order, until one fails.\<close>

fun write_fmt ::
  "(u8 list \<Rightarrow> 'c \<Rightarrow> unit run \<times> 'c) \<Rightarrow> u8 list list \<Rightarrow> 'c \<Rightarrow> (unit, unit) result run \<times> 'c" where
  "write_fmt write_bytes [] c = (Ret (Ok ()), c)"
| "write_fmt write_bytes (s # ss) c = and_then (write_str write_bytes s c) (\<lambda>_. write_fmt write_bytes ss)"

locale console =
  fixes write_bytes :: "u8 list \<Rightarrow> 'c \<Rightarrow> unit run \<times> 'c" and sink :: "'c \<Rightarrow> u8 list"
  assumes writes: "fst (write_bytes bs c) = Ret () \<and> sink (snd (write_bytes bs c)) = sink c @ bs"
begin

lemma write_str_infallible:
  "fst (write_str write_bytes s c) = Ret (Ok ()) \<and> sink (snd (write_str write_bytes s c)) = sink c @ s"
  using writes [of s c] by (cases "write_bytes s c") (simp add: write_str_def)

lemma write_fmt_infallible:
  "fst (write_fmt write_bytes ss c) = Ret (Ok ()) \<and> sink (snd (write_fmt write_bytes ss c)) = sink c @ concat ss"
proof (induction ss arbitrary: c)
  case (Cons s ss)
  then show ?case using write_str_infallible [of s c] by (cases "write_str write_bytes s c") simp
qed simp

lemma writes_concat: "sink (fold (\<lambda>s c. snd (write_bytes s c)) ss c) = sink c @ concat ss"
  using writes by (induction ss arbitrary: c) simp_all

end

section \<open>PL011\<close>

record Pl011Uart =
  uart_base :: nat

definition UARTDR :: nat where "UARTDR = 0x00"
definition UARTFR :: nat where "UARTFR = 0x18"
definition UARTFR_TXFF :: u32 where "UARTFR_TXFF = push_bit 5 1"

lemmas uart_consts = UARTDR_def UARTFR_def UARTFR_TXFF_def

definition uart_new :: "nat \<Rightarrow> Pl011Uart" where
  "uart_new base = \<lparr>uart_base = base\<rparr>"

text \<open>The poll loop; \<open>None\<close> is a loop that does not end.\<close>

partial_function (option) wait_tx :: "(mmio_log \<Rightarrow> nat \<Rightarrow> u32) \<Rightarrow> nat \<Rightarrow> mmio_log \<Rightarrow> mmio_log option" where
  "wait_tx dev fr l =
     (let (v, l') = read_volatile dev fr l
      in if v AND UARTFR_TXFF \<noteq> 0 then wait_tx dev fr l' else Some l')"

declare wait_tx.simps [code]

text \<open>\<open>base + UARTFR\<close> is unchecked addition: it panics on overflow in a debug build and wraps in a
  release build.\<close>

fun uart_write_bytes ::
  "bool \<Rightarrow> (mmio_log \<Rightarrow> nat \<Rightarrow> u32) \<Rightarrow> Pl011Uart \<Rightarrow> u8 list \<Rightarrow> mmio_log \<Rightarrow> unit run \<times> mmio_log" where
  "uart_write_bytes dbg dev u [] l = (Ret (), l)"
| "uart_write_bytes dbg dev u (byte # bytes) l =
     (if dbg \<and> 2 ^ 64 \<le> uart_base u + UARTFR then (Panic, l)
      else case wait_tx dev ((uart_base u + UARTFR) mod 2 ^ 64) l of
        None \<Rightarrow> (Diverge, l)
      | Some l' \<Rightarrow> uart_write_bytes dbg dev u bytes
          (write_volatile ((uart_base u + UARTDR) mod 2 ^ 64) (ucast byte) l'))"

section \<open>Polling\<close>

fun polls :: "(mmio_log \<Rightarrow> nat \<Rightarrow> u32) \<Rightarrow> nat \<Rightarrow> nat \<Rightarrow> mmio_log \<Rightarrow> mmio_log" where
  "polls dev fr 0 l = l"
| "polls dev fr (Suc n) l = polls dev fr n (l @ [MRead fr (dev l fr)])"

definition tx_ready :: "(mmio_log \<Rightarrow> nat \<Rightarrow> u32) \<Rightarrow> nat \<Rightarrow> mmio_log \<Rightarrow> bool" where
  "tx_ready dev fr l \<longleftrightarrow> dev l fr AND UARTFR_TXFF = 0"

text \<open>A device that accepts a byte after finitely many polls, whatever has happened before.\<close>

definition drains :: "(mmio_log \<Rightarrow> nat \<Rightarrow> u32) \<Rightarrow> nat \<Rightarrow> bool" where
  "drains dev fr \<longleftrightarrow> (\<forall>l. \<exists>n. tx_ready dev fr (polls dev fr n l))"

text \<open>Every data write comes directly after a read of the flag register that shows room.\<close>

fun fifo_safe :: "nat \<Rightarrow> bool \<Rightarrow> mmio_log \<Rightarrow> bool" where
  "fifo_safe base ready [] = True"
| "fifo_safe base ready (MRead a v # l) = fifo_safe base (a = base + UARTFR \<and> v AND UARTFR_TXFF = 0) l"
| "fifo_safe base ready (MWrite a v # l) = (a = base + UARTDR \<and> ready \<and> fifo_safe base False l)"

fun data_written :: "mmio_log \<Rightarrow> u32 list" where
  "data_written [] = []"
| "data_written (MRead a v # l) = data_written l"
| "data_written (MWrite a v # l) = v # data_written l"

lemma data_written_append: "data_written (l @ l') = data_written l @ data_written l'"
  by (induction l rule: data_written.induct) simp_all

lemma wait_tx_returns:
  assumes "tx_ready dev fr (polls dev fr n l)"
  shows "\<exists>p v. wait_tx dev fr l = Some (l @ p @ [MRead fr v]) \<and> v AND UARTFR_TXFF = 0 \<and>
    list_all (\<lambda>ev. \<exists>w. ev = MRead fr w) p"
  using assms
proof (induction n arbitrary: l)
  case 0
  then show ?case
    by (subst wait_tx.simps) (simp add: read_volatile_def tx_ready_def Let_def)
next
  case (Suc n)
  show ?case
  proof (cases "tx_ready dev fr l")
    case True
    then show ?thesis by (subst wait_tx.simps) (simp add: read_volatile_def tx_ready_def Let_def)
  next
    case False
    let ?l = "l @ [MRead fr (dev l fr)]"
    have "wait_tx dev fr l = wait_tx dev fr ?l"
      using False by (subst wait_tx.simps) (simp add: read_volatile_def tx_ready_def Let_def)
    moreover obtain p v where "wait_tx dev fr ?l = Some (?l @ p @ [MRead fr v])" "v AND UARTFR_TXFF = 0"
      "list_all (\<lambda>ev. \<exists>w. ev = MRead fr w) p"
      using Suc.IH [of ?l] Suc.prems by auto
    ultimately show ?thesis by (intro exI [of _ "MRead fr (dev l fr) # p"] exI [of _ v]) simp
  qed
qed

lemma reads_only:
  "list_all (\<lambda>ev. \<exists>w. ev = MRead fr w) p \<Longrightarrow> data_written (p @ l) = data_written l"
  "list_all (\<lambda>ev. \<exists>w. ev = MRead fr w) p \<Longrightarrow> v AND UARTFR_TXFF = 0 \<Longrightarrow>
   fifo_safe base ready (p @ MRead (base + UARTFR) v # l) = fifo_safe base True l"
  by (induction p arbitrary: ready) auto

lemma uart_write_bytes_ok:
  assumes "drains dev (uart_base u + UARTFR)" and "uart_base u + UARTFR < 2 ^ 64"
  shows "\<exists>l'. uart_write_bytes dbg dev u bytes l = (Ret (), l @ l') \<and>
    data_written l' = map ucast bytes \<and> fifo_safe (uart_base u) False l'"
proof (induction bytes arbitrary: l)
  case (Cons b bytes)
  let ?fr = "uart_base u + UARTFR" and ?dr = "uart_base u + UARTDR"
  obtain p v where p: "wait_tx dev ?fr l = Some (l @ p @ [MRead ?fr v])" "v AND UARTFR_TXFF = 0"
    "list_all (\<lambda>ev. \<exists>w. ev = MRead ?fr w) p"
    using assms(1) wait_tx_returns [of dev ?fr _ l] unfolding drains_def by blast
  let ?l = "l @ p @ [MRead ?fr v, MWrite ?dr (ucast b)]"
  have m: "?fr mod 2 ^ 64 = ?fr" "?dr mod 2 ^ 64 = ?dr" using assms(2) by (simp_all add: uart_consts)
  obtain l' where l': "uart_write_bytes dbg dev u bytes ?l = (Ret (), ?l @ l')"
    "data_written l' = map ucast bytes" "fifo_safe (uart_base u) False l'" using Cons.IH [of ?l] by blast
  have "uart_write_bytes dbg dev u (b # bytes) l = (Ret (), l @ p @ [MRead ?fr v, MWrite ?dr (ucast b)] @ l')"
    using p(1) l'(1) assms(2) m by (simp add: write_volatile_def)
  moreover have "data_written (p @ [MRead ?fr v, MWrite ?dr (ucast b)] @ l') = map ucast (b # bytes)"
    using p(3) l'(2) by (simp add: reads_only)
  moreover have "fifo_safe (uart_base u) False (p @ [MRead ?fr v, MWrite ?dr (ucast b)] @ l')"
    using p(2,3) l'(3) by (simp add: reads_only)
  ultimately show ?case by blast
qed simp

text \<open>A device that drains makes the driver a console: its sink is the data written.\<close>

definition uart_sink :: "mmio_log \<Rightarrow> u8 list" where
  "uart_sink l = map ucast (data_written l)"

lemma byte_round_trip: "ucast (ucast (b :: u8) :: u32) = b"
  by (rule bit_word_eqI) (simp add: bit_unsigned_iff)

locale draining_uart =
  fixes dev :: "mmio_log \<Rightarrow> nat \<Rightarrow> u32" and u :: Pl011Uart and dbg :: bool
  assumes drained: "drains dev (uart_base u + UARTFR)" and in_range: "uart_base u + UARTFR < 2 ^ 64"

sublocale draining_uart \<subseteq> console "uart_write_bytes dbg dev u" uart_sink
proof
  fix bs l
  show "fst (uart_write_bytes dbg dev u bs l) = Ret () \<and> uart_sink (snd (uart_write_bytes dbg dev u bs l)) = uart_sink l @ bs"
    using uart_write_bytes_ok [OF drained in_range, of dbg bs l]
    by (auto simp: uart_sink_def data_written_append comp_def byte_round_trip simp del: uart_write_bytes.simps)
qed

context draining_uart
begin

lemma uart_puts:
  "\<exists>l'. uart_write_bytes dbg dev u bs l = (Ret (), l') \<and> uart_sink l' = uart_sink l @ bs"
  using writes [of bs l] by (metis prod.collapse)

lemma uart_prints:
  "\<exists>l'. write_fmt (uart_write_bytes dbg dev u) ss l = (Ret (Ok ()), l') \<and> uart_sink l' = uart_sink l @ concat ss"
  using write_fmt_infallible [of ss l] by (metis prod.collapse)

end

text \<open>A transmit queue that is full at every other poll.\<close>

definition slow_uart :: "mmio_log \<Rightarrow> nat \<Rightarrow> u32" where
  "slow_uart l a = (if even (length l) then 0x20 else 0)"

lemma slow_uart_drains: "drains slow_uart fr"
proof -
  have "tx_ready slow_uart fr (polls slow_uart fr (if even (length l) then 1 else 0) l)" for l
    by (simp add: tx_ready_def slow_uart_def)
  then show ?thesis unfolding drains_def by blast
qed

interpretation qemu_uart: draining_uart slow_uart "uart_new 0x09000000" dbg for dbg
  by unfold_locales (simp_all add: slow_uart_drains uart_new_def uart_consts)

section \<open>Properties\<close>

text \<open>C31. The console driver returns whenever the device keeps draining, and then has written exactly
  the given bytes, in order, each directly after a poll that showed room in the transmit queue, so
  that none is lost.\<close>

theorem uart_writes_all_bytes:
  assumes "drains dev (uart_base u + UARTFR)" and "uart_base u + UARTFR < 2 ^ 64"
  shows "\<exists>l'. uart_write_bytes dbg dev u bytes l = (Ret (), l @ l') \<and>
    data_written l' = map ucast bytes \<and> fifo_safe (uart_base u) False l'"
  using assms by (rule uart_write_bytes_ok)

theorem uart_writes_all_bytes_witness:
  "\<exists>l. uart_write_bytes True slow_uart (uart_new 0x09000000) [0x68, 0x69] [] = (Ret (), l) \<and> data_written l = [0x68, 0x69]"
  using uart_writes_all_bytes [of slow_uart "uart_new 0x09000000" True "[0x68, 0x69]" "[]"] slow_uart_drains
  by (auto simp: uart_new_def uart_consts simp del: uart_write_bytes.simps)

end
