(* ===== verification/Kernel_Main.thy ===== *)
theory Kernel_Main
  imports Boot_Properties Boot_Asm Uart
begin

text \<open>
  \<open>kernel_entry\<close> of \<open>bsp-qemu-virt/src/main.rs\<close> from its first line to the switch into task B: the
  static cells, the console and CPU objects, the vector table, the interrupt controller, the unmasking
  of interrupts, the banners and the start of the scheduler; what the tasks print; the panic handler.
\<close>

section \<open>Formatted output\<close>

definition bytes :: "string \<Rightarrow> u8 list" where
  "bytes s = map of_char s"

text \<open>The em dash of the task messages, in UTF-8.\<close>

definition em_dash :: "u8 list" where
  "em_dash = [0xE2, 0x80, 0x94]"

text \<open>Numbers in decimal (\<open>{}\<close>) and in lower-case hexadecimal (\<open>{:x}\<close>).\<close>

definition digit :: "nat \<Rightarrow> u8" where
  "digit d = (if d < 10 then 0x30 + of_nat d else 0x61 + of_nat (d - 10))"

fun digits :: "nat \<Rightarrow> nat \<Rightarrow> nat list" where
  "digits b n = (if b < 2 \<or> n < b then [n] else digits b (n div b) @ [n mod b])"

declare digits.simps [simp del]

definition fmt_dec :: "u64 \<Rightarrow> u8 list" where
  "fmt_dec v = map digit (digits 10 (unat v))"

definition fmt_hex :: "u64 \<Rightarrow> u8 list" where
  "fmt_hex v = map digit (digits 16 (unat v))"

section \<open>The board's static cells\<close>

text \<open>\<open>StaticCell\<close>: uninitialised, or holding a value. Reading an uninitialised cell is undefined
  behaviour in Rust; here it is a failure.\<close>

type_synonym 'a StaticCell = "'a option"

definition cell_new :: "'a StaticCell" where
  "cell_new = None"

text \<open>A task's stack: 4096 bytes, the initial stack pointer one past the end.\<close>

record TaskStack =
  stack_base :: u64

definition stack_top :: "TaskStack \<Rightarrow> u64" where
  "stack_top st = stack_base st + 4096"

text \<open>The machine, what has been written to the console, and the cells. \<open>cell_kernel\<close> holds the kernel
  objects with the scheduler as the demo's analysis sees it, its contexts being the points where
  tasks are suspended; \<open>cell_sched\<close> is the same scheduler with the board's register contexts.\<close>

record hw =
  hw_m :: el1
  hw_uart :: mmio_log
  cell_console :: "Pl011Uart StaticCell"
  cell_cpu :: "QemuVirtCpu StaticCell"
  cell_gic :: "QemuVirtGic StaticCell"
  cell_boot_ns :: "u64 StaticCell"
  cell_kernel :: "boot_image StaticCell"
  cell_sched :: "Aarch64TaskContext Scheduler StaticCell"

definition assume_init :: "'a StaticCell \<Rightarrow> ('a \<Rightarrow> hw \<Rightarrow> unit run \<times> hw) \<Rightarrow> hw \<Rightarrow> unit run \<times> hw" where
  "assume_init c k s = (case c of Some v \<Rightarrow> k v s | None \<Rightarrow> (Panic, s))"

text \<open>Addresses the linker assigns to the tasks' entry functions and stacks.\<close>

record task_image =
  ti_entry :: u64
  ti_stack :: TaskStack

text \<open>What the machine supplies: the two devices, the counter's frequency and value, the address of
  the vector table and of the tasks; and whether this is a debug build.\<close>

record hw_env =
  env_dbg :: bool
  env_uart :: "mmio_log \<Rightarrow> nat \<Rightarrow> u32"
  env_gic :: "mmio_log \<Rightarrow> nat \<Rightarrow> u32"
  env_cntfrq :: u64
  env_cntvct :: u64
  env_vectors :: u64
  env_task_a :: task_image
  env_task_b :: task_image
  env_task_idle :: task_image

definition PL011_UART_BASE :: nat where
  "PL011_UART_BASE = 0x09000000"

definition put_bytes :: "hw_env \<Rightarrow> u8 list \<Rightarrow> hw \<Rightarrow> unit run \<times> hw" where
  "put_bytes env bs s = assume_init (cell_console s) (\<lambda>u s.
     case uart_write_bytes (env_dbg env) (env_uart env) u bs (hw_uart s) of
       (r, l) \<Rightarrow> (r, s\<lparr>hw_uart := l\<rparr>)) s"

text \<open>\<open>let _ = writeln!(w, ...)\<close>: the formatter's result is dropped.\<close>

definition put_line :: "hw_env \<Rightarrow> u8 list list \<Rightarrow> hw \<Rightarrow> unit run \<times> hw" where
  "put_line env pieces s = assume_init (cell_console s) (\<lambda>u s.
     case write_fmt (uart_write_bytes (env_dbg env) (env_uart env) u) pieces (hw_uart s) of
       (Ret _, l) \<Rightarrow> (Ret (), s\<lparr>hw_uart := l\<rparr>)
     | (Panic, l) \<Rightarrow> (Panic, s\<lparr>hw_uart := l\<rparr>)
     | (Diverge, l) \<Rightarrow> (Diverge, s\<lparr>hw_uart := l\<rparr>)) s"

section \<open>\<open>kernel_entry\<close>\<close>

definition hello :: "u8 list" where
  "hello = bytes ''tyrne: hello from kernel_main\<newline>''"

definition timer_banner :: "QemuVirtCpu \<Rightarrow> u8 list list" where
  "timer_banner cpu = [bytes ''tyrne: timer ready ('', fmt_dec (frequency_hz cpu), bytes '' Hz, resolution '',
     fmt_dec (cpu_resolution cpu), bytes '' ns)\<newline>'']"

definition starting :: "u8 list" where
  "starting = bytes ''tyrne: starting cooperative scheduler\<newline>''"

definition make_console_and_cpu :: "hw_env \<Rightarrow> hw \<Rightarrow> unit run \<times> hw" where
  "make_console_and_cpu env s =
     (let console = uart_new PL011_UART_BASE
      in case cpu_new (sys_get CurrentEL (hw_m s)) (env_cntfrq env) of
           Ret cpu \<Rightarrow> (Ret (), s\<lparr>cell_console := Some console, cell_cpu := Some cpu\<rparr>)
         | Panic \<Rightarrow> (Panic, s)
         | Diverge \<Rightarrow> (Diverge, s))"

definition install_vectors :: "hw_env \<Rightarrow> hw \<Rightarrow> unit run \<times> hw" where
  "install_vectors env s = (Ret (), s\<lparr>hw_m := (hw_m s)\<lparr>m_vbar := env_vectors env\<rparr>\<rparr>)"

definition make_gic :: "hw \<Rightarrow> unit run \<times> hw" where
  "make_gic s = (Ret (), s\<lparr>cell_gic := Some (gic_new QEMU_VIRT_GIC_DISTRIBUTOR_BASE QEMU_VIRT_GIC_CPU_INTERFACE_BASE)\<rparr>)"

definition init_gic :: "hw_env \<Rightarrow> hw \<Rightarrow> unit run \<times> hw" where
  "init_gic env s = assume_init (cell_gic s) (\<lambda>g s. (Ret (), s\<lparr>hw_m := (hw_m s)\<lparr>m_board := (m_board (hw_m s))
     \<lparr>gic_log := gic_init (env_gic env) g (gic_log (m_board (hw_m s)))\<rparr>\<rparr>\<rparr>)) s"

definition unmask_irqs :: "hw \<Rightarrow> unit run \<times> hw" where
  "unmask_irqs s = (Ret (), s\<lparr>hw_m := sexec (MsrDaifClr 2) (hw_m s)\<rparr>)"

definition print_timer :: "hw_env \<Rightarrow> hw \<Rightarrow> unit run \<times> hw" where
  "print_timer env s = assume_init (cell_cpu s) (\<lambda>cpu. put_line env (timer_banner cpu)) s"

definition snapshot_boot_ns :: "hw_env \<Rightarrow> hw \<Rightarrow> unit run \<times> hw" where
  "snapshot_boot_ns env s = assume_init (cell_cpu s) (\<lambda>cpu s. case now_ns cpu (env_cntvct env) of
     Ret boot_ns \<Rightarrow> (Ret (), s\<lparr>cell_boot_ns := Some boot_ns\<rparr>)
   | Panic \<Rightarrow> (Panic, s)
   | Diverge \<Rightarrow> (Diverge, s)) s"

definition registration :: "TaskHandle \<Rightarrow> task_image \<Rightarrow> TaskHandle \<times> u64 \<times> u64" where
  "registration h ti = (h, ti_entry ti, stack_top (ti_stack ti))"

definition publish_kernel :: "hw_env \<Rightarrow> hw \<Rightarrow> unit run \<times> hw" where
  "publish_kernel env s = (case kernel_setup (env_dbg env) of
     Ret b \<Rightarrow>
       (case register_demo_tasks init_context context_default (registration (bi_handle_a b) (env_task_a env))
               (registration (bi_handle_b b) (env_task_b env)) (registration (bi_handle_idle b) (env_task_idle env)) of
          Ret sched \<Rightarrow> (Ret (), s\<lparr>cell_kernel := Some b, cell_sched := Some sched\<rparr>)
        | Panic \<Rightarrow> (Panic, s)
        | Diverge \<Rightarrow> (Diverge, s))
   | Panic \<Rightarrow> (Panic, s)
   | Diverge \<Rightarrow> (Diverge, s))"

text \<open>\<open>start\<close> takes its guard, which is never dropped, and switches: the registers are loaded from the
  first task's context.\<close>

definition start_scheduler :: "hw \<Rightarrow> unit run \<times> hw" where
  "start_scheduler s = assume_init (cell_kernel s) (\<lambda>b. assume_init (cell_sched s) (\<lambda>sched s.
     case (start_kernel b, start cpu_disable_irqs ctx_load (sched, hw_m s)) of
       (Ret b', (Ret _, (sched', m))) \<Rightarrow> (Ret (), s\<lparr>hw_m := m, cell_kernel := Some b', cell_sched := Some sched'\<rparr>)
     | (Diverge, _) \<Rightarrow> (Diverge, s)
     | (_, (Diverge, _)) \<Rightarrow> (Diverge, s)
     | _ \<Rightarrow> (Panic, s))) s"

text \<open>The stages in order; a run records every state in between.\<close>

definition hardware_stages :: "hw_env \<Rightarrow> (hw \<Rightarrow> unit run \<times> hw) list" where
  "hardware_stages env = [
     make_console_and_cpu env,
     put_bytes env hello,
     install_vectors env,
     make_gic,
     init_gic env,
     unmask_irqs]"

definition kernel_stages :: "hw_env \<Rightarrow> (hw \<Rightarrow> unit run \<times> hw) list" where
  "kernel_stages env = [
     print_timer env,
     snapshot_boot_ns env,
     publish_kernel env,
     put_bytes env starting,
     start_scheduler]"

definition kernel_entry_stages :: "hw_env \<Rightarrow> (hw \<Rightarrow> unit run \<times> hw) list" where
  "kernel_entry_stages env = hardware_stages env @ kernel_stages env"

fun run_stages :: "(hw \<Rightarrow> unit run \<times> hw) list \<Rightarrow> hw \<Rightarrow> unit run \<times> hw list" where
  "run_stages [] s = (Ret (), [s])"
| "run_stages (f # fs) s = (case f s of
     (Ret _, s') \<Rightarrow> (case run_stages fs s' of (r, tr) \<Rightarrow> (r, s # tr))
   | (Panic, s') \<Rightarrow> (Panic, [s, s'])
   | (Diverge, s') \<Rightarrow> (Diverge, [s, s']))"

definition kernel_entry :: "hw_env \<Rightarrow> hw \<Rightarrow> unit run \<times> hw list" where
  "kernel_entry env = run_stages (kernel_entry_stages env)"

section \<open>What the tasks print\<close>

definition saturating_sub :: "u64 \<Rightarrow> u64 \<Rightarrow> u64" where
  "saturating_sub a b = (if b \<le> a then a - b else 0)"

definition elapsed_since :: "QemuVirtCpu \<Rightarrow> u64 \<Rightarrow> u64 \<Rightarrow> u64 run" where
  "elapsed_since cpu cntvct boot_ns = (case now_ns cpu cntvct of
     Ret now \<Rightarrow> Ret (saturating_sub now boot_ns)
   | Panic \<Rightarrow> Panic
   | Diverge \<Rightarrow> Diverge)"

text \<open>The label of the last message a task received.\<close>

fun last_label :: "TaskHandle \<Rightarrow> (TaskHandle \<times> reply) list \<Rightarrow> u64" where
  "last_label h [] = 0"
| "last_label h ((h', RepRecv (Received m _)) # done) = (if h' = h then msg_label m else last_label h done)"
| "last_label h (_ # done) = last_label h done"

definition task_b_text :: "nat \<Rightarrow> u64 \<Rightarrow> u8 list" where
  "task_b_text pc label =
     (if pc = 0 then bytes ''tyrne: task B '' @ em_dash @ bytes '' waiting for IPC\<newline>''
      else if pc = 1 then bytes ''tyrne: task B '' @ em_dash @ bytes '' received IPC (label=0x'' @
        fmt_hex label @ bytes ''); replying\<newline>''
      else [])"

definition task_a_text :: "nat \<Rightarrow> u64 \<Rightarrow> u64 \<Rightarrow> u8 list" where
  "task_a_text pc label elapsed_ns =
     (if pc = 0 then bytes ''tyrne: task A -- sending IPC\<newline>''
      else if pc = 2 then bytes ''tyrne: task A '' @ em_dash @ bytes '' received reply (label=0x'' @
        fmt_hex label @ bytes ''); done\<newline>'' @ bytes ''tyrne: all tasks complete\<newline>'' @
        bytes ''tyrne: boot-to-end elapsed = '' @ fmt_dec elapsed_ns @ bytes '' ns\<newline>''
      else [])"

text \<open>A running task prints before its next action. A task in the middle of a call prints nothing.\<close>

definition task_text :: "u64 \<Rightarrow> boot_image \<Rightarrow> demo \<Rightarrow> u8 list" where
  "task_text elapsed_ns b d = (case d of (\<sigma>, pc, done) \<Rightarrow>
     (case (sch_current (sy_sched \<sigma>), sy_point \<sigma>) of
        (Some h, Running) \<Rightarrow>
          if h = bi_handle_a b then task_a_text (pc h) (last_label h done) elapsed_ns
          else if h = bi_handle_b b then task_b_text (pc h) (last_label h done) else []
      | _ \<Rightarrow> []))"

fun demo_transcript :: "u64 \<Rightarrow> bool \<Rightarrow> boot_image \<Rightarrow> 'i set list \<Rightarrow> demo \<Rightarrow> u8 list" where
  "demo_transcript e dbg b [] d = []"
| "demo_transcript e dbg b (signals # rest) d =
     (case demo_step dbg signals b d of
        Next d' \<Rightarrow> task_text e b d @ demo_transcript e dbg b rest d'
      | Waits \<Rightarrow> demo_transcript e dbg b rest d
      | _ \<Rightarrow> task_text e b d)"

text \<open>The lines the interrupt controller signals to the processor, of those that devices assert: the
  enabled ones.\<close>

definition signalled :: "hw \<Rightarrow> IrqNumber set \<Rightarrow> IrqNumber set" where
  "signalled s asserted = (case cell_gic s of
     Some g \<Rightarrow> asserted \<inter> gic_enabled g (gic_log (m_board (hw_m s)))
   | None \<Rightarrow> {})"

section \<open>The panic handler\<close>

text \<open>A fresh console on the same device, the banner, the message, and a loop.\<close>

definition panic_handler :: "hw_env \<Rightarrow> u8 list \<Rightarrow> mmio_log \<Rightarrow> unit run \<times> mmio_log" where
  "panic_handler env info l =
     (let console = uart_new PL011_UART_BASE;
          write = uart_write_bytes (env_dbg env) (env_uart env) console
      in case write (bytes ''\<newline>!! tyrne panic !!\<newline>'') l of
           (Ret _, l) \<Rightarrow> (case write_fmt write [info, bytes ''\<newline>''] l of
               (Panic, l) \<Rightarrow> (Panic, l)
             | (_, l) \<Rightarrow> (Diverge, l))
         | (Panic, l) \<Rightarrow> (Panic, l)
         | (Diverge, l) \<Rightarrow> (Diverge, l))"

section \<open>Lemmas\<close>

text \<open>Printing a number loses nothing: reading the digits back gives it.\<close>

definition of_digits :: "nat \<Rightarrow> nat list \<Rightarrow> nat" where
  "of_digits b ds = foldl (\<lambda>n d. b * n + d) 0 ds"

lemma of_digits_digits: "of_digits b (digits b n) = n"
  by (induction b n rule: digits.induct) (subst digits.simps, simp add: of_digits_def)

lemma digits_below: "2 \<le> b \<Longrightarrow> d \<in> set (digits b n) \<Longrightarrow> d < b"
  by (induction b n rule: digits.induct) (subst (asm) (2) digits.simps, auto split: if_splits)

text \<open>The environment boot needs: a console that drains and a counter that runs.\<close>

definition env_ok :: "hw_env \<Rightarrow> bool" where
  "env_ok env \<longleftrightarrow> env_cntfrq env \<noteq> 0 \<and> drains (env_uart env) (PL011_UART_BASE + UARTFR)"

lemma env_uart_drains: "env_ok env \<Longrightarrow> draining_uart (env_uart env) (uart_new PL011_UART_BASE)"
  by unfold_locales (simp_all add: env_ok_def uart_new_def PL011_UART_BASE_def UARTFR_def)

lemma put_bytes_ok:
  assumes "env_ok env" and "cell_console s = Some (uart_new PL011_UART_BASE)"
  shows "\<exists>l. put_bytes env bs s = (Ret (), s\<lparr>hw_uart := l\<rparr>) \<and> uart_sink l = uart_sink (hw_uart s) @ bs"
  using draining_uart.uart_puts [OF env_uart_drains [OF assms(1)], of "env_dbg env" bs "hw_uart s"] assms(2)
  by (auto simp: put_bytes_def assume_init_def)

lemma put_line_ok:
  assumes "env_ok env" and "cell_console s = Some (uart_new PL011_UART_BASE)"
  shows "\<exists>l. put_line env ss s = (Ret (), s\<lparr>hw_uart := l\<rparr>) \<and> uart_sink l = uart_sink (hw_uart s) @ concat ss"
  using draining_uart.uart_prints [OF env_uart_drains [OF assms(1)], of "env_dbg env" ss "hw_uart s"] assms(2)
  by (auto simp: put_line_def assume_init_def)

text \<open>Initialisation of an untouched controller leaves every line disabled.\<close>

lemma init_enables_none: "gic_enabled qemu_gic (gic_init dev qemu_gic []) = {}"
proof -
  have "\<not> line_enabled (distributor_base qemu_gic) (gic_init dev qemu_gic []) n" if "n < 1024" for n
    using gic_init_line [OF qemu_gic_wf refl refl that, of dev "[]"] by (simp add: line_enabled_def)
  moreover have "unat (irq_num i) < 1024" if "irq_num i < GIC_MAX_IRQ" for i
    using that by (simp add: word_less_nat_alt gic_consts)
  ultimately show ?thesis by (auto simp: gic_enabled_def)
qed

text \<open>A state is ready for interrupts: a vector table, the controller \<open>irq_entry\<close> will read, and no
  line enabled.\<close>

definition irq_ready :: "hw_env \<Rightarrow> hw \<Rightarrow> bool" where
  "irq_ready env s \<longleftrightarrow> m_vbar (hw_m s) = env_vectors env \<and> cell_gic s = Some qemu_gic \<and>
     gic_enabled qemu_gic (gic_log (m_board (hw_m s))) = {}"

text \<open>The scheduler that boot publishes, with any contexts in it; registration fills in one context
  per task and starting it leaves them alone.\<close>

definition with_contexts :: "'c list \<Rightarrow> 'd Scheduler \<Rightarrow> 'c Scheduler" where
  "with_contexts cs s = \<lparr>sch_ready = sch_ready s, sch_states = sch_states s, sch_handles = sch_handles s,
     sch_current = sch_current s, sch_contexts = cs\<rparr>"

definition fresh_ctx :: "task_image \<Rightarrow> Aarch64TaskContext" where
  "fresh_ctx ti = init_context context_default (ti_entry ti) (stack_top (ti_stack ti))"

definition board_contexts :: "hw_env \<Rightarrow> Aarch64TaskContext list" where
  "board_contexts env = [fresh_ctx (env_task_a env), fresh_ctx (env_task_b env), fresh_ctx (env_task_idle env)] @
     replicate 13 context_default"

lemma register_on_board:
  "register_demo_tasks init_context context_default (registration handle_a (env_task_a env))
     (registration handle_b (env_task_b env)) (registration handle_idle (env_task_idle env)) =
   Ret (with_contexts (board_contexts env) (sy_sched (bi_sys demo_setup)))"
  by (simp add: register_demo_tasks_def registration_def sched_eval demo_handles demo_setup_def demo_boot_def
      with_contexts_def board_contexts_def fresh_ctx_def)

lemma board_length: "length (board_contexts env) = 16"
  by (simp add: board_contexts_def)

lemma setup_handles:
  "bi_handle_a demo_setup = handle_a" "bi_handle_b demo_setup = handle_b" "bi_handle_idle demo_setup = handle_idle"
  by (simp_all add: demo_setup_def demo_boot_def)

lemma start_on_board:
  assumes "length cs = 16"
  shows "start cpu_disable_irqs ctx_load (with_contexts cs (sy_sched (bi_sys demo_setup)), m) =
    (Ret (), (with_contexts cs (sy_sched (bi_sys demo_boot)), ctx_load (cs ! 1) (snd (cpu_disable_irqs m))))"
  using assms by (simp add: cpu_disable_irqs_def demo_setup_def sched_eval demo_handles demo_boot_def with_contexts_def)

lemma elapsed_exact:
  assumes "frequency_hz cpu \<noteq> 0" and "c \<le> c'" and "now_ns cpu c = Ret boot_ns"
  shows "\<exists>now. now_ns cpu c' = Ret now \<and> boot_ns \<le> now \<and> elapsed_since cpu c' boot_ns = Ret (now - boot_ns)"
proof -
  have b: "unat boot_ns = min (2 ^ 64 - 1) (unat c * 10 ^ 9 div unat (frequency_hz cpu))"
    using ticks_to_ns_nat [OF assms(1), of c] assms(3) by (auto simp: now_ns_def)
  obtain now where now: "now_ns cpu c' = Ret now"
    "unat now = min (2 ^ 64 - 1) (unat c' * 10 ^ 9 div unat (frequency_hz cpu))"
    using ticks_to_ns_nat [OF assms(1), of c'] by (auto simp: now_ns_def)
  have "unat c * 10 ^ 9 div unat (frequency_hz cpu) \<le> unat c' * 10 ^ 9 div unat (frequency_hz cpu)"
    using assms(2) by (intro div_le_mono) (simp add: word_le_nat_alt)
  then have "boot_ns \<le> now" using b now(2) by (simp add: word_le_nat_alt)
  then show ?thesis using now(1) by (simp add: elapsed_since_def saturating_sub_def)
qed

lemma run_stages_append:
  "run_stages fs s = (Ret (), pre @ [s']) \<Longrightarrow> run_stages gs s' = (r, tr) \<Longrightarrow> run_stages (fs @ gs) s = (r, pre @ tr)"
proof (induction fs arbitrary: s pre)
  case (Cons f fs)
  then obtain s1 where f: "f s = (Ret (), s1)"
    by (cases "f s") (auto split: run.splits prod.splits)
  obtain pre1 where "run_stages fs s1 = (Ret (), pre1 @ [s'])" "pre = s # pre1"
    using Cons.prems(1) f by (cases pre; cases fs) (auto split: run.splits prod.splits)
  then show ?case using Cons.IH [OF _ Cons.prems(2)] f by simp
qed (simp add: Cons_eq_append_conv)

text \<open>The hardware stages: interrupts stay masked until the last of them, which finds the machine ready
  for them.\<close>

lemma hardware_stages_run:
  assumes "env_ok env" and "cpu_new (sys_get CurrentEL (hw_m s)) (env_cntfrq env) = Ret cpu"
    and "\<not> cpu_irqs_enabled (hw_m s)" and "gic_log (m_board (hw_m s)) = []"
  shows "\<exists>pre s'. run_stages (hardware_stages env) s = (Ret (), pre @ [s']) \<and>
    (\<forall>t \<in> set pre. \<not> cpu_irqs_enabled (hw_m t)) \<and> irq_ready env s' \<and>
    cell_console s' = Some (uart_new PL011_UART_BASE) \<and> cell_cpu s' = Some cpu \<and>
    uart_sink (hw_uart s') = uart_sink (hw_uart s) @ hello"
proof -
  define s1 where "s1 = s\<lparr>cell_console := Some (uart_new PL011_UART_BASE), cell_cpu := Some cpu\<rparr>"
  obtain l where l: "put_bytes env hello s1 = (Ret (), s1\<lparr>hw_uart := l\<rparr>)"
    "uart_sink l = uart_sink (hw_uart s1) @ hello" using put_bytes_ok [OF assms(1), of s1] by (auto simp: s1_def)
  define s3 where "s3 = s1\<lparr>hw_uart := l, hw_m := (hw_m s1)\<lparr>m_vbar := env_vectors env\<rparr>\<rparr>"
  define s4 where "s4 = s3\<lparr>cell_gic := Some qemu_gic\<rparr>"
  define s5 where "s5 = s4\<lparr>hw_m := (hw_m s4)\<lparr>m_board := (m_board (hw_m s4))
     \<lparr>gic_log := gic_init (env_gic env) qemu_gic (gic_log (m_board (hw_m s4)))\<rparr>\<rparr>\<rparr>"
  define s6 where "s6 = s5\<lparr>hw_m := sexec (MsrDaifClr 2) (hw_m s5)\<rparr>"
  let ?pre = "[s, s1, s1\<lparr>hw_uart := l\<rparr>, s3, s4, s5]"
  have stages: "make_console_and_cpu env s = (Ret (), s1)" "install_vectors env (s1\<lparr>hw_uart := l\<rparr>) = (Ret (), s3)"
    "make_gic s3 = (Ret (), s4)" "init_gic env s4 = (Ret (), s5)" "unmask_irqs s5 = (Ret (), s6)"
    using assms(2) by (simp_all add: make_console_and_cpu_def s1_def install_vectors_def s3_def make_gic_def s4_def
        qemu_gic_def [symmetric] init_gic_def assume_init_def s5_def unmask_irqs_def s6_def del: sys_get.simps)
  have run: "run_stages (hardware_stages env) s = (Ret (), ?pre @ [s6])"
    unfolding hardware_stages_def using l(1) by (simp add: stages)
  have "m_daif (hw_m s1) = m_daif (hw_m s)" "m_daif (hw_m s3) = m_daif (hw_m s)" "m_daif (hw_m s4) = m_daif (hw_m s)"
    "m_daif (hw_m s5) = m_daif (hw_m s)" by (simp_all add: s5_def s4_def s3_def s1_def)
  then have "\<forall>t \<in> set ?pre. \<not> cpu_irqs_enabled (hw_m t)" using assms(3) by (auto simp: cpu_irqs_enabled_def)
  moreover have "irq_ready env s6" "cell_console s6 = Some (uart_new PL011_UART_BASE)" "cell_cpu s6 = Some cpu"
    "uart_sink (hw_uart s6) = uart_sink (hw_uart s) @ hello"
    using init_enables_none assms(4) l(2) by (simp_all add: irq_ready_def s6_def s5_def s4_def s3_def s1_def)
  ultimately show ?thesis unfolding run by blast
qed

text \<open>The kernel stages keep the machine ready for interrupts and end in task B, masked.\<close>

lemma kernel_stages_run:
  assumes "env_ok env" and "irq_ready env s" and "cell_console s = Some (uart_new PL011_UART_BASE)"
    and "cell_cpu s = Some cpu" and "now_ns cpu (env_cntvct env) = Ret ns"
  shows "\<exists>tr. run_stages (kernel_stages env) s = (Ret (), tr) \<and> tr \<noteq> [] \<and> (\<forall>t \<in> set tr. irq_ready env t) \<and>
    \<not> cpu_irqs_enabled (hw_m (last tr)) \<and> cell_kernel (last tr) = Some demo_boot \<and>
    cell_sched (last tr) = Some (with_contexts (board_contexts env) (sy_sched (bi_sys demo_boot))) \<and>
    m_pc (hw_m (last tr)) = ti_entry (env_task_b env) \<and> m_sp (hw_m (last tr)) = stack_top (ti_stack (env_task_b env)) \<and>
    cell_cpu (last tr) = Some cpu \<and> cell_boot_ns (last tr) = Some ns \<and>
    uart_sink (hw_uart (last tr)) = uart_sink (hw_uart s) @ concat (timer_banner cpu) @ starting"
proof -
  obtain l7 where l7: "put_line env (timer_banner cpu) s = (Ret (), s\<lparr>hw_uart := l7\<rparr>)"
    "uart_sink l7 = uart_sink (hw_uart s) @ concat (timer_banner cpu)" using put_line_ok [OF assms(1,3)] by blast
  define s9 where "s9 = s\<lparr>hw_uart := l7, cell_boot_ns := Some ns, cell_kernel := Some demo_setup,
     cell_sched := Some (with_contexts (board_contexts env) (sy_sched (bi_sys demo_setup)))\<rparr>"
  obtain l10 where l10: "put_bytes env starting s9 = (Ret (), s9\<lparr>hw_uart := l10\<rparr>)"
    "uart_sink l10 = uart_sink (hw_uart s9) @ starting"
    using put_bytes_ok [OF assms(1), of s9] assms(3) by (auto simp: s9_def)
  define s11 where "s11 = s9\<lparr>hw_uart := l10, hw_m := ctx_load (board_contexts env ! 1) (snd (cpu_disable_irqs (hw_m s9))),
     cell_kernel := Some demo_boot, cell_sched := Some (with_contexts (board_contexts env) (sy_sched (bi_sys demo_boot)))\<rparr>"
  let ?tr = "[s, s\<lparr>hw_uart := l7\<rparr>, s\<lparr>hw_uart := l7, cell_boot_ns := Some ns\<rparr>, s9, s9\<lparr>hw_uart := l10\<rparr>, s11]"
  have "print_timer env s = (Ret (), s\<lparr>hw_uart := l7\<rparr>)"
    "snapshot_boot_ns env (s\<lparr>hw_uart := l7\<rparr>) = (Ret (), s\<lparr>hw_uart := l7, cell_boot_ns := Some ns\<rparr>)"
    "publish_kernel env (s\<lparr>hw_uart := l7, cell_boot_ns := Some ns\<rparr>) = (Ret (), s9)"
    "start_scheduler (s9\<lparr>hw_uart := l10\<rparr>) = (Ret (), s11)"
    using l7(1) assms(4,5) by (simp_all add: print_timer_def snapshot_boot_ns_def publish_kernel_def start_scheduler_def
        assume_init_def kernel_setup_eval start_kernel_eval register_on_board setup_handles start_on_board [OF board_length]
        s9_def s11_def)
  then have run: "run_stages (kernel_stages env) s = (Ret (), ?tr)"
    unfolding kernel_stages_def using l10(1) by simp
  have ready: "\<forall>t \<in> set ?tr. irq_ready env t"
    using assms(2) by (simp add: irq_ready_def s11_def s9_def cpu_disable_irqs_def ctx_load_def)
  have said: "uart_sink l10 = uart_sink (hw_uart s) @ concat (timer_banner cpu) @ starting"
    using l7(2) l10(2) by (simp add: s9_def)
  show ?thesis
    unfolding run using ready said assms(4)
    by (intro exI [of _ ?tr]) (simp add: s11_def s9_def cpu_irqs_enabled_def cpu_disable_irqs_def ctx_load_def
        board_contexts_def fresh_ctx_def init_context_def bit_or_iff)
qed

text \<open>\<open>kernel_entry\<close> from a masked machine at EL1: every intermediate state is accounted for.\<close>

lemma kernel_entry_run:
  assumes "env_ok env" and "current_el (sys_get CurrentEL (hw_m s)) = 1" and "\<not> cpu_irqs_enabled (hw_m s)"
    and "gic_log (m_board (hw_m s)) = []"
  shows "\<exists>tr cpu. kernel_entry env s = (Ret (), tr) \<and>
    (\<forall>t \<in> set tr. cpu_irqs_enabled (hw_m t) \<longrightarrow> irq_ready env t) \<and>
    \<not> cpu_irqs_enabled (hw_m (last tr)) \<and> irq_ready env (last tr) \<and>
    cell_kernel (last tr) = Some demo_boot \<and>
    cell_sched (last tr) = Some (with_contexts (board_contexts env) (sy_sched (bi_sys demo_boot))) \<and>
    m_pc (hw_m (last tr)) = ti_entry (env_task_b env) \<and> m_sp (hw_m (last tr)) = stack_top (ti_stack (env_task_b env)) \<and>
    cell_cpu (last tr) = Some cpu \<and>
    now_ns cpu (env_cntvct env) = Ret (the (cell_boot_ns (last tr))) \<and>
    uart_sink (hw_uart (last tr)) = uart_sink (hw_uart s) @ hello @ concat (timer_banner cpu) @ starting"
proof -
  obtain cpu where cpu: "cpu_new (sys_get CurrentEL (hw_m s)) (env_cntfrq env) = Ret cpu"
    using cpu_new_returns assms(1,2) unfolding env_ok_def by blast
  obtain ns where ns: "now_ns cpu (env_cntvct env) = Ret ns"
    using ticks_to_ns_nat cpu_new_freq [OF cpu] unfolding now_ns_def by metis
  obtain pre s' where hw: "run_stages (hardware_stages env) s = (Ret (), pre @ [s'])"
    "\<forall>t \<in> set pre. \<not> cpu_irqs_enabled (hw_m t)" "irq_ready env s'" "cell_console s' = Some (uart_new PL011_UART_BASE)"
    "cell_cpu s' = Some cpu" "uart_sink (hw_uart s') = uart_sink (hw_uart s) @ hello"
    using hardware_stages_run [OF assms(1) cpu assms(3,4)] by blast
  obtain tr where tr: "run_stages (kernel_stages env) s' = (Ret (), tr)" "tr \<noteq> []" "\<forall>t \<in> set tr. irq_ready env t"
    "\<not> cpu_irqs_enabled (hw_m (last tr))" "cell_kernel (last tr) = Some demo_boot"
    "cell_sched (last tr) = Some (with_contexts (board_contexts env) (sy_sched (bi_sys demo_boot)))"
    "m_pc (hw_m (last tr)) = ti_entry (env_task_b env)" "m_sp (hw_m (last tr)) = stack_top (ti_stack (env_task_b env))"
    "cell_cpu (last tr) = Some cpu" "cell_boot_ns (last tr) = Some ns"
    "uart_sink (hw_uart (last tr)) = uart_sink (hw_uart s') @ concat (timer_banner cpu) @ starting"
    using kernel_stages_run [OF assms(1) hw(3-5) ns] by blast
  have "kernel_entry env s = (Ret (), pre @ tr)"
    unfolding kernel_entry_def kernel_entry_stages_def by (rule run_stages_append [OF hw(1) tr(1)])
  then show ?thesis
    using hw(2,6) tr(2-) ns by (intro exI [of _ "pre @ tr"] exI [of _ cpu]) auto
qed

section \<open>Properties\<close>

text \<open>The machine as reset code hands it over: no cell is written, nothing has been printed.\<close>

definition hw_reset :: "el1 \<Rightarrow> hw" where
  "hw_reset m = \<lparr>hw_m = m, hw_uart = [], cell_console = cell_new, cell_cpu = cell_new, cell_gic = cell_new,
     cell_boot_ns = cell_new, cell_kernel = cell_new, cell_sched = cell_new\<rparr>"

text \<open>C17. From reset to the first task. On a machine that comes out of reset at EL1 or EL2, with a
  console that drains, a running counter and an untouched interrupt controller, the reset code calls
  \<open>kernel_entry\<close>, and \<open>kernel_entry\<close> reaches the first task: no check fails and no uninitialised cell
  is read. Whenever interrupts are unmasked on the way, the vector table is installed, the
  controller that \<open>irq_entry\<close> reads is published and initialised, and no line is enabled. At the end
  interrupts are masked again, the kernel is the one whose demo is analysed, its scheduler on the
  board differs from it in the contexts only, the processor is at the first instruction of task B
  with the top of B's stack in \<open>sp\<close>, the time stamp is the clock's, and the console has received
  exactly the three boot messages.\<close>

theorem reset_to_first_task:
  assumes "layout_ok lay" and "m_pstate m AND 0xC = 4 \<or> m_pstate m AND 0xC = 8" and "env_ok env"
    and "gic_log (m_board m) = []"
  shows "\<exists>n pc m' tr cpu. boot_steps lay n (0, m) = (pc, m') \<and> boot_code ! pc = BlKernelEntry \<and>
    kernel_entry env (hw_reset m') = (Ret (), tr) \<and>
    (\<forall>t \<in> set tr. cpu_irqs_enabled (hw_m t) \<longrightarrow> irq_ready env t) \<and>
    \<not> cpu_irqs_enabled (hw_m (last tr)) \<and> irq_ready env (last tr) \<and>
    cell_kernel (last tr) = Some demo_boot \<and>
    cell_sched (last tr) = Some (with_contexts (board_contexts env) (sy_sched (bi_sys demo_boot))) \<and>
    m_pc (hw_m (last tr)) = ti_entry (env_task_b env) \<and> m_sp (hw_m (last tr)) = stack_top (ti_stack (env_task_b env)) \<and>
    cell_cpu (last tr) = Some cpu \<and>
    now_ns cpu (env_cntvct env) = Ret (the (cell_boot_ns (last tr))) \<and>
    uart_sink (hw_uart (last tr)) = hello @ concat (timer_banner cpu) @ starting"
proof -
  obtain n pc m' where boot: "boot_steps lay n (0, m) = (pc, m')" "boot_code ! pc = BlKernelEntry"
    "current_el (sys_get CurrentEL m') = 1" "m_daif m' AND 0x3C0 = 0x3C0" "m_board m' = m_board m"
    using boot_run [OF assms(1,2)] by blast
  have "bit (m_daif m' AND 0x3C0) 7" unfolding boot(4) by simp
  then have masked: "\<not> cpu_irqs_enabled (hw_m (hw_reset m'))"
    by (simp add: cpu_irqs_enabled_def hw_reset_def bit_and_iff)
  have el: "current_el (sys_get CurrentEL (hw_m (hw_reset m'))) = 1" using boot(3) by (simp add: hw_reset_def)
  have quiet: "gic_log (m_board (hw_m (hw_reset m'))) = []" using boot(5) assms(4) by (simp add: hw_reset_def)
  have "uart_sink (hw_uart (hw_reset m')) = []" by (simp add: hw_reset_def uart_sink_def)
  then show ?thesis using boot(1,2) kernel_entry_run [OF assms(3) el masked quiet] by (metis append_Nil)
qed

text \<open>A reset at EL2 with a slow console and the counter of the emulator.\<close>

definition sample_env :: hw_env where
  "sample_env = \<lparr>env_dbg = True, env_uart = slow_uart, env_gic = \<lambda>l a. 8, env_cntfrq = 62500000, env_cntvct = 125,
     env_vectors = 0x40080800, env_task_a = \<lparr>ti_entry = 0x40081000, ti_stack = \<lparr>stack_base = 0x40090000\<rparr>\<rparr>,
     env_task_b = \<lparr>ti_entry = 0x40081400, ti_stack = \<lparr>stack_base = 0x40091000\<rparr>\<rparr>,
     env_task_idle = \<lparr>ti_entry = 0x40081800, ti_stack = \<lparr>stack_base = 0x40092000\<rparr>\<rparr>\<rparr>"

theorem reset_to_first_task_witness:
  "\<exists>n pc m' tr. boot_steps sample_layout n (0, sample_el1\<lparr>m_pstate := 9\<rparr>) = (pc, m') \<and>
     kernel_entry sample_env (hw_reset m') = (Ret (), tr) \<and> cell_kernel (last tr) = Some demo_boot \<and>
     m_pc (hw_m (last tr)) = 0x40081400 \<and> m_sp (hw_m (last tr)) = 0x40092000"
proof -
  have "layout_ok sample_layout" by (simp add: layout_ok_def sample_layout_def)
  moreover have "env_ok sample_env" by (simp add: env_ok_def sample_env_def slow_uart_drains)
  moreover have "m_pstate (sample_el1\<lparr>m_pstate := 9\<rparr>) AND 0xC = 4 \<or> m_pstate (sample_el1\<lparr>m_pstate := 9\<rparr>) AND 0xC = 8"
    "gic_log (m_board (sample_el1\<lparr>m_pstate := 9\<rparr>)) = []" by (simp_all add: sample_el1_def)
  moreover have "ti_entry (env_task_b sample_env) = 0x40081400" "stack_top (ti_stack (env_task_b sample_env)) = 0x40092000"
    by (simp_all add: sample_env_def stack_top_def)
  ultimately show ?thesis
    using reset_to_first_task [of sample_layout "sample_el1\<lparr>m_pstate := 9\<rparr>" sample_env] by metis
qed

lemma task_text_snap:
  "task_text e demo_boot (demo_snap h items st c p cs est, pc, done) =
     (case p of Running \<Rightarrow>
        if c = handle_a then task_a_text (pc c) (last_label c done) e
        else if c = handle_b then task_b_text (pc c) (last_label c done) else []
      | _ \<Rightarrow> [])"
  by (simp add: task_text_def demo_snap_def demo_boot_simps split: point.split)

lemma demo_labels: "fmt_hex (msg_label msg_a) = bytes ''aaaa''" "fmt_hex (msg_label reply_b) = bytes ''bbbb''"
  by (simp_all add: msg_a_def reply_b_def fmt_hex_def digits.simps digit_def bytes_def)

lemmas transcript_eval = demo_steps task_text_snap demo_handles demo_labels task_a_text_def task_b_text_def

text \<open>What the tasks have printed when the idle task first waits, and what they print after that.\<close>

definition text_before_idle :: "u8 list" where
  "text_before_idle = bytes ''tyrne: task B '' @ em_dash @ bytes '' waiting for IPC\<newline>'' @
     bytes ''tyrne: task A -- sending IPC\<newline>''"

definition text_after_idle :: "u64 \<Rightarrow> u8 list" where
  "text_after_idle e = bytes ''tyrne: task B '' @ em_dash @ bytes '' received IPC (label=0xaaaa); replying\<newline>'' @
     bytes ''tyrne: task A '' @ em_dash @ bytes '' received reply (label=0xbbbb); done\<newline>'' @
     bytes ''tyrne: all tasks complete\<newline>'' @
     bytes ''tyrne: boot-to-end elapsed = '' @ fmt_dec e @ bytes '' ns\<newline>''"

lemma transcript_2:
  "demo_transcript e dbg demo_boot (S1 # S2 # Ss) (demo_init demo_boot) =
   text_before_idle @ demo_transcript e dbg demo_boot Ss demo_waiting"
  by (simp add: demo_init_def demo_start_snap demo_step_1 demo_step_2 demo_waiting_def transcript_eval
      text_before_idle_def del: One_nat_def)

lemma transcript_waits: "\<forall>S \<in> set Ss. S = {} \<Longrightarrow> demo_transcript e dbg demo_boot Ss demo_waiting = []"
  by (induction Ss) (simp_all add: demo_waiting_step)

lemma transcript_woken:
  assumes "S \<noteq> {}"
  shows "demo_transcript e dbg demo_boot (S # S4 # S5 # S6 # S7 # S8 # S9 # S10 # Ss) demo_waiting = text_after_idle e"
proof -
  have said: "bytes '' received IPC (label=0x'' @ bytes ''aaaa'' @ bytes ''); replying\<newline>'' =
      bytes '' received IPC (label=0xaaaa); replying\<newline>''"
    "bytes '' received reply (label=0x'' @ bytes ''bbbb'' @ bytes ''); done\<newline>'' @ r =
      bytes '' received reply (label=0xbbbb); done\<newline>'' @ r" for r
    by (simp_all add: bytes_def)
  show ?thesis
    using assms by (simp add: demo_waiting_def transcript_eval demo_step_10 said text_after_idle_def del: One_nat_def)
qed

lemma transcript_completes:
  assumes "n + 7 < length Ss" and "Ss ! n \<noteq> {}"
  shows "demo_transcript e dbg demo_boot Ss demo_waiting = text_after_idle e"
  using assms
proof (induction Ss arbitrary: n)
  case (Cons S Ss)
  show ?case
  proof (cases "S = {}")
    case True
    with Cons.prems obtain k where "n = Suc k" by (cases n) simp_all
    with Cons.prems True show ?thesis using Cons.IH [of k] by (simp add: demo_waiting_step)
  next
    case False
    have "7 \<le> length Ss" using Cons.prems(1) by simp
    then obtain a b c d e f g r where "Ss = a # b # c # d # e # f # g # r" by (rule seven_more)
    with False show ?thesis by (simp add: transcript_woken del: demo_transcript.simps)
  qed
qed simp

text \<open>The demo from its first step on, for any signals, split at the idle task's first wait.\<close>

lemma demo_from_start:
  assumes "2 \<le> length Ss"
  shows "demo_run dbg demo_boot Ss (demo_init demo_boot) = demo_run dbg demo_boot (drop 2 Ss) demo_waiting"
    and "demo_transcript e dbg demo_boot Ss (demo_init demo_boot) =
      text_before_idle @ demo_transcript e dbg demo_boot (drop 2 Ss) demo_waiting"
proof -
  obtain S1 S2 rest where "Ss = S1 # S2 # rest" using assms by (auto simp: numeral_2_eq_2 Suc_le_length_iff)
  then show "demo_run dbg demo_boot Ss (demo_init demo_boot) = demo_run dbg demo_boot (drop 2 Ss) demo_waiting"
    and "demo_transcript e dbg demo_boot Ss (demo_init demo_boot) =
      text_before_idle @ demo_transcript e dbg demo_boot (drop 2 Ss) demo_waiting"
    by (simp_all add: demo_run_2 transcript_2 del: demo_run.simps demo_transcript.simps)
qed

text \<open>C32. The demo needs a wake-up that boot never arranges. \<open>kernel_entry\<close>, from a masked processor at EL1,
  a console that drains and an untouched interrupt controller, starts the demo. Whatever lines the
  devices assert from then on, at any time, the run comes to rest after two steps: the idle task,
  registered before either task waits, waits in \<open>wfi\<close>, because boot has enabled no line; A's message
  is delivered but not received, no call has returned, B and A are both ready, and the tasks have
  printed their first lines only. Were any line signalled to the waiting idle task, the run would
  complete within seven more steps: B receives A's message, A receives B's reply, in that order, A
  spins, and the console has the remaining messages of the guide with the labels received.\<close>

theorem demo_needs_wakeup:
  assumes "env_ok env" and "current_el (sys_get CurrentEL (hw_m s)) = 1" and "\<not> cpu_irqs_enabled (hw_m s)"
    and "gic_log (m_board (hw_m s)) = []"
  shows "\<exists>tr b. kernel_entry env s = (Ret (), tr) \<and> cell_kernel (last tr) = Some b \<and>
    (\<forall>asserted. 2 \<le> length asserted \<longrightarrow>
       (\<exists>\<sigma> pc ep. demo_run (env_dbg env) b (map (signalled (last tr)) asserted) (demo_init b) = (\<sigma>, pc, []) \<and>
          sch_current (sy_sched \<sigma>) = Some (bi_handle_idle b) \<and>
          demo_action b (bi_handle_idle b) (pc (bi_handle_idle b)) = Wfi \<and>
          ready_list (sy_sched \<sigma>) = [bi_handle_b b, bi_handle_a b] \<and>
          ep_of (sy_tables \<sigma> ! hidx (bi_handle_b b)) (bi_cap_b b) RECV = Some ep \<and>
          endpoints (bi_arena b) (sy_queues \<sigma>) ep = Some (RecvComplete msg_a None) \<and>
          demo_transcript e (env_dbg env) b (map (signalled (last tr)) asserted) (demo_init b) = text_before_idle)) \<and>
    (\<forall>signals n. 2 \<le> n \<longrightarrow> n + 7 < length signals \<longrightarrow> signals ! n \<noteq> ({} :: IrqNumber set) \<longrightarrow>
       (\<exists>\<sigma> pc. demo_run (env_dbg env) b signals (demo_init b) = (\<sigma>, pc,
            [(bi_handle_a b, RepRecv (Received reply_b None)), (bi_handle_a b, RepSend Delivered),
             (bi_handle_b b, RepSend Enqueued), (bi_handle_b b, RepRecv (Received msg_a None))]) \<and>
          sch_current (sy_sched \<sigma>) = Some (bi_handle_a b) \<and>
          demo_action b (bi_handle_a b) (pc (bi_handle_a b)) = Spin \<and>
          demo_transcript e (env_dbg env) b signals (demo_init b) = text_before_idle @ text_after_idle e))"
proof -
  obtain tr where tr: "kernel_entry env s = (Ret (), tr)" "irq_ready env (last tr)" "cell_kernel (last tr) = Some demo_boot"
    using kernel_entry_run [OF assms] by blast
  have none: "signalled (last tr) a = {}" for a using tr(2) by (simp add: signalled_def irq_ready_def)
  note waits = demo_waits transcript_waits
  have quiet: "\<exists>\<sigma> pc ep. demo_run (env_dbg env) demo_boot (map (signalled (last tr)) asserted) (demo_init demo_boot) = (\<sigma>, pc, []) \<and>
      sch_current (sy_sched \<sigma>) = Some handle_idle \<and> demo_action demo_boot handle_idle (pc handle_idle) = Wfi \<and>
      ready_list (sy_sched \<sigma>) = [handle_b, handle_a] \<and>
      ep_of (sy_tables \<sigma> ! hidx handle_b) sample_root RECV = Some ep \<and>
      endpoints sample_arena (sy_queues \<sigma>) ep = Some (RecvComplete msg_a None) \<and>
      demo_transcript e (env_dbg env) demo_boot (map (signalled (last tr)) asserted) (demo_init demo_boot) = text_before_idle"
    if "2 \<le> length asserted" for asserted
  proof -
    have rest: "\<forall>S \<in> set (drop 2 (map (signalled (last tr)) asserted)). S = {}" using none by (auto dest: in_set_dropD)
    have len: "2 \<le> length (map (signalled (last tr)) asserted)" using that by simp
    obtain \<sigma> where "demo_waiting = (\<sigma>, \<lambda>_. 0, [])" "sch_current (sy_sched \<sigma>) = Some handle_idle"
      "ready_list (sy_sched \<sigma>) = [handle_b, handle_a]" "sy_tables \<sigma> ! hidx handle_b = boot_table"
      "endpoints sample_arena (sy_queues \<sigma>) sample_ep = Some (RecvComplete msg_a None)"
      using demo_waiting_fields by blast
    then show ?thesis
      by (intro exI [of _ \<sigma>] exI [of _ "\<lambda>_. 0"] exI [of _ sample_ep])
        (simp add: demo_from_start [OF len] waits [OF rest] boot_table_ep demo_action_def demo_boot_simps demo_handles idle_entry_def)
  qed
  have woken: "\<exists>\<sigma> pc. demo_run (env_dbg env) demo_boot signals (demo_init demo_boot) = (\<sigma>, pc,
        [(handle_a, RepRecv (Received reply_b None)), (handle_a, RepSend Delivered),
         (handle_b, RepSend Enqueued), (handle_b, RepRecv (Received msg_a None))]) \<and>
      sch_current (sy_sched \<sigma>) = Some handle_a \<and> demo_action demo_boot handle_a (pc handle_a) = Spin \<and>
      demo_transcript e (env_dbg env) demo_boot signals (demo_init demo_boot) = text_before_idle @ text_after_idle e"
    if n: "2 \<le> n" "n + 7 < length signals" "signals ! n \<noteq> {}" for signals :: "IrqNumber set list" and n
  proof -
    obtain k where k: "n = 2 + k" using n(1) by (auto simp: le_iff_add)
    have "k + 7 < length (drop 2 signals)" "drop 2 signals ! k \<noteq> {}" using n by (simp_all add: k)
    note reached = demo_completes [OF this] transcript_completes [OF this]
    have "2 \<le> length signals" using n by simp
    then show ?thesis by (simp add: demo_from_start reached) (simp add: demo_done_def demo_snap_current demo_action_def
        task_a_def demo_boot_simps demo_handles)
  qed
  show ?thesis
    using tr quiet woken by (intro exI [of _ tr] exI [of _ demo_boot]) (simp add: demo_boot_simps)
qed

text \<open>Boot on the sample board; every line asserted all the time.\<close>

theorem demo_needs_wakeup_witness:
  "\<exists>tr b \<sigma> pc. kernel_entry sample_env (hw_reset (sample_el1\<lparr>m_pstate := 5, m_daif := 0x3C0\<rparr>)) = (Ret (), tr) \<and>
     cell_kernel (last tr) = Some b \<and>
     demo_run True b (map (signalled (last tr)) (replicate 100 UNIV)) (demo_init b) = (\<sigma>, pc, []) \<and>
     sch_current (sy_sched \<sigma>) = Some (bi_handle_idle b)"
proof -
  let ?s = "hw_reset (sample_el1\<lparr>m_pstate := 5, m_daif := 0x3C0\<rparr>)"
  have "env_ok sample_env" "env_dbg sample_env" by (simp_all add: env_ok_def sample_env_def slow_uart_drains)
  moreover have "current_el (sys_get CurrentEL (hw_m ?s)) = 1" "\<not> cpu_irqs_enabled (hw_m ?s)"
    "gic_log (m_board (hw_m ?s)) = []"
    by (simp_all add: hw_reset_def current_el_def drop_bit_eq_div cpu_irqs_enabled_def sample_el1_def)
  moreover have "2 \<le> length (replicate 100 (UNIV :: IrqNumber set))" by simp
  ultimately show ?thesis using demo_needs_wakeup [of sample_env ?s] by metis
qed

end
