(* ===== verification/Board_Kernel.thy ===== *)
theory Board_Kernel
  imports Kernel_Main
begin

text \<open>
  The kernel running on the board: the tasks of \<open>System\<close>, with every context switch carried out by
  the assembly of \<open>bsp-qemu-virt/src/cpu.rs\<close> on the scheduler's context array in memory, under the
  \<open>IrqGuard\<close> of the switch windows (\<open>kernel/src/sched/mod.rs\<close>: \<open>yield_now\<close> and \<open>ipc_recv_and_yield\<close>).
  Between switches the running code changes registers, memory and interrupt mask as it likes, the
  context array apart.
\<close>

section \<open>Steps on the board\<close>

text \<open>The kernel, the machine, and, per slot, the \<open>prev\<close> of the guard that the suspended task has on its
  stack. For the record: the registers and the mask each task had when it made the call that
  switched it out, and the states the processor went through in the last switch.\<close>

record board_sys =
  b_sys :: sys
  b_m :: machine
  b_guard :: "nat \<Rightarrow> u64"
  b_left :: "nat \<Rightarrow> Aarch64TaskContext"
  b_mask :: "nat \<Rightarrow> u64"
  b_window :: "machine list"

text \<open>The switch window: a guard, then the call of the assembly.\<close>

definition board_switch :: "u64 \<Rightarrow> u64 \<Rightarrow> machine \<Rightarrow> u64 \<times> machine list" where
  "board_switch cur_ctx nxt_ctx m = (case cpu_disable_irqs m of (prev, m) \<Rightarrow> (prev, switch_states cur_ctx nxt_ctx m))"

text \<open>It implements the scheduler's guarded switch: the same mask is kept for later, the same contexts are
  in memory, and the processor goes on with the same registers, masked.\<close>

lemma board_switch_refines:
  assumes "i \<noteq> j" and "i < TASK_ARENA_CAPACITY" and "j < TASK_ARENA_CAPACITY"
    and "sch_contexts s = contexts_at (m_mem m) base TASK_ARENA_CAPACITY"
    and "board_switch (ctx_addr base i) (ctx_addr base j) m = (prev, window)"
    and "guarded_switch cpu_disable_irqs ctx_save ctx_load i j (s, m) = (prev', (s', r))"
  shows "prev = prev' \<and> sch_contexts s' = contexts_at (m_mem (last window)) base TASK_ARENA_CAPACITY \<and>
    ctx_save (last window) = ctx_save r \<and> m_pc (last window) = m_pc r \<and> m_daif (last window) = m_daif r"
proof -
  define m0 where "m0 = m\<lparr>m_daif := m_daif m OR 0x3C0\<rparr>"
  have c: "context_switch ctx_save ctx_load i j (s, m0) = (s', r)" and p: "prev = m_daif m" "prev' = m_daif m"
    and w: "last window = switch_call (ctx_addr base i) (ctx_addr base j) m0"
    using assms(5,6) by (auto simp: board_switch_def guarded_switch_def cpu_disable_irqs_def switch_states_last m0_def)
  have "m_daif r = m_daif m0" using c by (auto simp: context_switch_def ctx_load_def)
  then show ?thesis
    using switch_call_refines [OF assms(1-3) _ w [symmetric] c] assms(4) p by (simp add: m0_def)
qed

text \<open>A step is what the running code does to the machine, then a bridge call. If the call switches, a
  task that was suspended in a call of its own goes on behind its switch, where its guard is
  dropped; a task that runs for the first time has none.\<close>

definition board_step ::
  "bool \<Rightarrow> EndpointArena \<Rightarrow> u64 \<Rightarrow> (machine \<Rightarrow> machine) \<times> syscall \<Rightarrow> board_sys \<Rightarrow> board_sys" where
  "board_step dbg ar base wc b = (case wc of (work, call) \<Rightarrow>
     let m = work (b_m b) in
     (case task_step dbg ar call (b_sys b) of (r, \<sigma>') \<Rightarrow>
       (case (r, sch_current (sy_sched (b_sys b)), sch_current (sy_sched \<sigma>')) of
          (Ret Switched, Some h, Some n) \<Rightarrow>
            (case board_switch (ctx_addr base (hidx h)) (ctx_addr base (hidx n)) m of (prev, window) \<Rightarrow>
               \<lparr>b_sys = \<sigma>',
                b_m = (case sy_point \<sigma>' of
                    Running \<Rightarrow> last window
                  | Suspended _ \<Rightarrow> cpu_restore_irq_state (b_guard b (hidx n)) (last window)),
                b_guard = (b_guard b)(hidx h := prev),
                b_left = (b_left b)(hidx h := ctx_save m),
                b_mask = (b_mask b)(hidx h := m_daif m),
                b_window = window\<rparr>)
        | _ \<Rightarrow> b\<lparr>b_sys := \<sigma>', b_m := m, b_window := []\<rparr>)))"

definition spares_contexts :: "u64 \<Rightarrow> (machine \<Rightarrow> machine) \<Rightarrow> bool" where
  "spares_contexts base work \<longleftrightarrow>
     (\<forall>m. \<forall>i < TASK_ARENA_CAPACITY. \<forall>a \<in> ctx_cells (ctx_addr base i). m_mem (work m) a = m_mem m a)"

definition board_inv :: "EndpointArena \<Rightarrow> u64 \<Rightarrow> board_sys \<Rightarrow> bool" where
  "board_inv ar base b \<longleftrightarrow> sys_inv ar (b_sys b) \<and> (\<forall>i < TASK_ARENA_CAPACITY.
     ctx_at (m_mem (b_m b)) (ctx_addr base i) = b_left b i \<and>
     (sch_contexts (sy_sched (b_sys b)) ! i \<noteq> Running \<longrightarrow> b_guard b i = b_mask b i))"

text \<open>The board as \<open>start\<close> leaves it: the kernel that boot has published and the machine, whose memory
  holds the contexts.\<close>

definition board_start :: "u64 \<Rightarrow> boot_image \<Rightarrow> machine \<Rightarrow> board_sys run" where
  "board_start base img m =
     (case (start_kernel img, start cpu_disable_irqs ctx_load
         (with_contexts (contexts_at (m_mem m) base TASK_ARENA_CAPACITY) (sy_sched (bi_sys img)), m)) of
        (Ret img', (Ret _, (_, m'))) \<Rightarrow>
          Ret \<lparr>b_sys = bi_sys img', b_m = m', b_guard = (\<lambda>_. 0),
            b_left = (\<lambda>i. ctx_at (m_mem m) (ctx_addr base i)), b_mask = (\<lambda>_. 0), b_window = []\<rparr>
      | (Diverge, _) \<Rightarrow> Diverge
      | (_, (Diverge, _)) \<Rightarrow> Diverge
      | _ \<Rightarrow> Panic)"

section \<open>What a switching step does\<close>

lemma settle_switch:
  "settle_call f i \<sigma> (Ret (Ok (SwitchTo a b k)), (s, (q, t))) =
   (Ret Switched, \<sigma>\<lparr>sy_sched := s\<lparr>sch_contexts := (sch_contexts s)[a := Suspended k]\<rparr>, sy_queues := q,
      sy_tables := (sy_tables \<sigma>)[i := t], sy_point := sch_contexts s ! b\<rparr>)"
  by (simp add: guarded_switch_def context_switch_def)

text \<open>A call that does not switch answers its caller, and the scheduler it leaves is kept.\<close>

lemma settle_stays:
  "settle_call f i \<sigma> (Ret (Ok (Done x)), (s, qt)) = (Ret r, \<sigma>') \<Longrightarrow> r = f x \<and> sy_sched \<sigma>' = s"
  "settle_call f i \<sigma> (Ret (Err e), (s, qt)) = (Ret r, \<sigma>') \<Longrightarrow> r = RepErr e \<and> sy_sched \<sigma>' = s"
  by (cases qt; auto)+

text \<open>The running task is suspended in its own slot, and another one, in a slot of its own, goes on at
  the point where it was.\<close>

definition switched_to :: "sys \<Rightarrow> TaskHandle \<Rightarrow> TaskHandle \<Rightarrow> sys \<Rightarrow> bool" where
  "switched_to \<sigma> h n \<sigma>' \<longleftrightarrow> sch_current (sy_sched \<sigma>') = Some n \<and> hidx h \<noteq> hidx n \<and>
     hidx h < TASK_ARENA_CAPACITY \<and> hidx n < TASK_ARENA_CAPACITY \<and>
     sy_point \<sigma>' = sch_contexts (sy_sched \<sigma>) ! hidx n \<and>
     (\<exists>k. sch_contexts (sy_sched \<sigma>') = (sch_contexts (sy_sched \<sigma>))[hidx h := Suspended k])"

lemma settle_switched_to:
  assumes "settle_call f i \<sigma> (Ret (Ok (SwitchTo (hidx h) (hidx n) k)), (s, (q, t))) = (Ret Switched, \<sigma>')"
    and "sched_wf (sy_sched \<sigma>)" "sch_current (sy_sched \<sigma>) = Some h" "sched_wf s" "sch_current s = Some n"
    and "hidx h \<noteq> hidx n" "sch_contexts s = sch_contexts (sy_sched \<sigma>)"
  shows "switched_to \<sigma> h n \<sigma>'"
  using assms sched_wfD(3) [OF assms(2) current_runnable [OF assms(3)]]
    sched_wfD(3) [OF assms(4) current_runnable [OF assms(5)]]
  by (auto simp: switched_to_def settle_switch simp del: settle_call.simps)

lemma yield_moves:
  assumes "sched_wf s" and "yield_now dbg s = (Ret (Ok p), s')" and "sch_current s = Some h"
  obtains (stay) "p = Done ()" "sch_current s' = Some h" "sch_contexts s' = sch_contexts s"
  | (switch) n where "p = SwitchTo (hidx h) (hidx n) ResumeYield" "sched_wf s'" "sch_current s' = Some n"
      "hidx h \<noteq> hidx n" "sch_contexts s' = sch_contexts s"
  using assms(1) by (cases rule: yield_cases [where dbg = dbg]) (use assms(2,3) that in auto)

lemma unblock_keeps_contexts:
  assumes "sched_wf s" and "unblock_receiver_on ep s = (Ret (), s')"
  shows "sch_contexts s' = sch_contexts s"
  using assms(1) by (cases rule: unblock_cases [where ep = ep]) (use assms(2) in auto)

text \<open>A step of the running task either switches, or leaves it running and the contexts alone.\<close>

definition moved :: "sys \<Rightarrow> TaskHandle \<Rightarrow> reply \<Rightarrow> sys \<Rightarrow> bool" where
  "moved \<sigma> h r \<sigma>' \<longleftrightarrow> (if r = Switched then \<exists>n. switched_to \<sigma> h n \<sigma>'
     else sch_current (sy_sched \<sigma>') = Some h \<and> sch_contexts (sy_sched \<sigma>') = sch_contexts (sy_sched \<sigma>))"

lemma bridge_call_moves:
  assumes inv: "sys_inv ar \<sigma>" and cur: "sch_current (sy_sched \<sigma>) = Some h"
    and step: "bridge_call dbg ar call (hidx h) \<sigma> = (Ret r, \<sigma>')"
  shows "moved \<sigma> h r \<sigma>'"
proof -
  have wf: "sched_wf (sy_sched \<sigma>)" using inv by (simp add: sys_inv_def)
  note k = sys_inv_kernel [OF inv cur]
  have sw: "moved \<sigma> h r \<sigma>'"
    if "settle_call f (hidx h) \<sigma> (Ret (Ok (SwitchTo (hidx h) (hidx n) c)), (s, qt)) = (Ret r, \<sigma>')" "sched_wf s"
      "sch_current s = Some n" "hidx h \<noteq> hidx n" "sch_contexts s = sch_contexts (sy_sched \<sigma>)" for f n c s qt
  proof -
    obtain q t where qt: "qt = (q, t)" by fastforce
    have "r = Switched" using that(1) by (simp add: qt settle_switch del: settle_call.simps)
    then have "switched_to \<sigma> h n \<sigma>'" using settle_switched_to [OF _ wf cur that(2-5)] that(1) unfolding qt by blast
    with \<open>r = Switched\<close> show ?thesis by (auto simp: moved_def)
  qed
  show ?thesis
  proof (cases call)
    case SysYield
    obtain p s' where y: "yield_now dbg (sy_sched \<sigma>) = (Ret (Ok p), s')" using yield_bridge [OF k] by blast
    have st: "settle_call (\<lambda>_. RepDone) (hidx h) \<sigma> (Ret (Ok p), (s', (sy_queues \<sigma>, sy_tables \<sigma> ! hidx h))) = (Ret r, \<sigma>')"
      using SysYield step y by (simp add: bridge_call_def)
    from wf y cur show ?thesis
    proof (cases rule: yield_moves)
      case stay
      then show ?thesis using st by (auto simp: moved_def dest: settle_stays simp del: settle_call.simps)
    next
      case (switch n)
      then show ?thesis using st by (intro sw [of _ n _ s']) (simp_all del: settle_call.simps)
    qed
  next
    case (SysSend c m x)
    then have st: "settle_call RepSend (hidx h) \<sigma> (ipc_send_and_yield dbg ar c m x
        (sy_sched \<sigma>, (sy_queues \<sigma>, sy_tables \<sigma> ! hidx h))) = (Ret r, \<sigma>')"
      using step by (simp add: bridge_call_def)
    from k show ?thesis
    proof (cases rule: send_bridge_cases [where dbg = dbg and c = c and m = m and x = x])
      case (delivered ep q' t' s1 s2 p owned)
      have c1: "sch_current s1 = Some h" using delivered(7) cur by simp
      have ctx: "sch_contexts s1 = sch_contexts (sy_sched \<sigma>)" by (rule unblock_keeps_contexts [OF wf delivered(5)])
      from delivered(6,9) c1 show ?thesis
      proof (cases rule: yield_moves)
        case stay
        then show ?thesis using st delivered(10) ctx by (auto simp: moved_def dest: settle_stays simp del: settle_call.simps)
      next
        case (switch n)
        then show ?thesis using st delivered(10) ctx by (intro sw [of _ n _ s2]) (simp_all del: settle_call.simps)
      qed
    qed (use st cur in \<open>auto simp: moved_def dest: settle_stays simp del: settle_call.simps\<close>)
  next
    case (SysRecv c)
    then have st: "settle_call RepRecv (hidx h) \<sigma> (ipc_recv_and_yield dbg ar c
        (sy_sched \<sigma>, (sy_queues \<sigma>, sy_tables \<sigma> ! hidx h))) = (Ret r, \<sigma>')"
      using step by (simp add: bridge_call_def)
    from k show ?thesis
    proof (cases rule: recv_bridge_cases [where dbg = dbg and c = c])
      case (blocks ep q' th n ns s')
      then have "th = h" "sched_wf s'" using cur by (simp_all add: kernel_ok_def)
      with blocks st show ?thesis by (intro sw [of _ n _ s']) (simp_all del: settle_call.simps)
    qed (use st cur in \<open>auto simp: moved_def dest: settle_stays simp del: settle_call.simps\<close>)
  qed
qed

lemma task_step_moves:
  assumes "sys_inv ar \<sigma>" and "sch_current (sy_sched \<sigma>) = Some h" and "task_step dbg ar call \<sigma> = (Ret r, \<sigma>')"
  shows "moved \<sigma> h r \<sigma>'"
proof (cases "sy_point \<sigma>")
  case (Suspended k)
  then have res: "bridge_resume dbg ar k (hidx h) \<sigma> = (Ret r, \<sigma>')" using assms(2,3) by (simp add: task_step_def)
  then have "r \<noteq> Switched"
    by (auto simp: bridge_resume_def Let_def split: resume.splits prod.splits run.splits result.splits)
  moreover have "sy_sched \<sigma>' = sy_sched \<sigma>" using bridge_resume_inv [OF assms(1,2), of dbg k] res by auto
  ultimately show ?thesis using assms(2) by (simp add: moved_def)
qed (use assms bridge_call_moves in \<open>auto simp: task_step_def\<close>)

section \<open>The invariant on the board\<close>

lemma spared_context:
  assumes "spares_contexts base work" and "i < TASK_ARENA_CAPACITY"
  shows "ctx_at (m_mem (work m)) (ctx_addr base i) = ctx_at (m_mem m) (ctx_addr base i)"
  using assms by (intro ctx_at_cong) (simp add: spares_contexts_def)

text \<open>A step that does not switch leaves everything but the kernel and the machine as it was.\<close>

lemma board_step_stays:
  assumes "task_step dbg ar call (b_sys b) = (Ret r, \<sigma>')" and "r \<noteq> Switched"
  shows "board_step dbg ar base (work, call) b = b\<lparr>b_sys := \<sigma>', b_m := work (b_m b), b_window := []\<rparr>"
  using assms by (cases r) (simp_all add: board_step_def Let_def)

text \<open>A step that switches, in full.\<close>

lemma board_step_switches:
  assumes "board_inv ar base b" and "spares_contexts base work"
    and "task_step dbg ar call (b_sys b) = (Ret Switched, \<sigma>')" and "sch_current (sy_sched (b_sys b)) = Some h"
    and "switched_to (b_sys b) h n \<sigma>'" and "board_step dbg ar base (work, call) b = b'"
  shows "b_sys b' = \<sigma>'" "b_left b' = (b_left b)(hidx h := ctx_save (work (b_m b)))"
    "b_mask b' = (b_mask b)(hidx h := m_daif (work (b_m b)))" "b_guard b' = (b_guard b)(hidx h := m_daif (work (b_m b)))"
    "ctx_save (b_m b') = b_left b (hidx n)" "m_pc (b_m b') = ctx_lr (b_left b (hidx n))"
    "m_sp (b_m b') = ctx_sp (b_left b (hidx n))"
    "m_daif (b_m b') = (if sy_point \<sigma>' = Running then m_daif (work (b_m b)) OR 0x3C0 else b_mask b (hidx n) AND 0x3C0)"
    "ctx_at (m_mem (b_m b')) (ctx_addr base (hidx h)) = ctx_save (work (b_m b))"
    "a \<notin> ctx_cells (ctx_addr base (hidx h)) \<Longrightarrow> m_mem (b_m b') a = m_mem (work (b_m b)) a"
    "w \<in> set (b_window b') \<Longrightarrow> m_daif w = m_daif (work (b_m b)) OR 0x3C0"
proof -
  define m0 where "m0 = snd (cpu_disable_irqs (work (b_m b)))"
  define m1 where "m1 = switch_call (ctx_addr base (hidx h)) (ctx_addr base (hidx n)) m0"
  have m0: "m0 = (work (b_m b))\<lparr>m_daif := m_daif (work (b_m b)) OR 0x3C0\<rparr>" by (simp add: m0_def cpu_disable_irqs_def)
  have sw: "sch_current (sy_sched \<sigma>') = Some n" "hidx h \<noteq> hidx n" "hidx h < TASK_ARENA_CAPACITY" "hidx n < TASK_ARENA_CAPACITY"
    "sy_point \<sigma>' = sch_contexts (sy_sched (b_sys b)) ! hidx n" using assms(5) by (simp_all add: switched_to_def)
  have guard: "b_guard b (hidx n) = b_mask b (hidx n)" if "sy_point \<sigma>' \<noteq> Running"
    using assms(1) sw(4,5) that by (simp add: board_inv_def)
  have b': "b' = \<lparr>b_sys = \<sigma>', b_m = m1\<lparr>m_daif := if sy_point \<sigma>' = Running then m_daif m1 else b_mask b (hidx n) AND 0x3C0\<rparr>,
      b_guard = (b_guard b)(hidx h := m_daif (work (b_m b))), b_left = (b_left b)(hidx h := ctx_save (work (b_m b))),
      b_mask = (b_mask b)(hidx h := m_daif (work (b_m b))),
      b_window = switch_states (ctx_addr base (hidx h)) (ctx_addr base (hidx n)) m0\<rparr>"
    using assms(6,3,4) sw(1) guard
    by (cases "sy_point \<sigma>'") (auto simp: board_step_def Let_def board_switch_def cpu_disable_irqs_def switch_states_last
        cpu_restore_irq_state_def m0 m1_def)
  note e = switch_call_effect [OF ctx_addr_disjoint [OF sw(2-4)] m1_def [symmetric]]
  have saved: "ctx_save m0 = ctx_save (work (b_m b))" "m_mem m0 = m_mem (work (b_m b))" by (simp_all add: m0 ctx_save_def)
  have ctx: "ctx_at (m_mem (work (b_m b))) (ctx_addr base (hidx n)) = b_left b (hidx n)"
    using assms(1) sw(4) spared_context [OF assms(2)] by (simp add: board_inv_def)
  have m1: "m1 = ctx_load (b_left b (hidx n)) (m2\<lparr>m_mem := m_mem m1\<rparr>)"
    if "m2 = m0\<lparr>m_x := (m_x m0)(0 := ctx_addr base (hidx h), 1 := ctx_addr base (hidx n))\<rparr>" for m2
    using e(3) ctx that saved(2) by simp
  have "ctx_wf (b_left b (hidx n))" using ctx ctx_at_wf by metis
  then have "ctx_save m1 = b_left b (hidx n)" by (subst m1 [OF refl]) (simp add: save_load)
  then show "ctx_save (b_m b') = b_left b (hidx n)" by (simp add: b' ctx_save_def)
  have "m_pc m1 = ctx_lr (b_left b (hidx n))" "m_sp m1 = ctx_sp (b_left b (hidx n))" "m_daif m1 = m_daif m0"
    by (subst m1 [OF refl], simp add: ctx_load_def)+
  then show "m_pc (b_m b') = ctx_lr (b_left b (hidx n))" "m_sp (b_m b') = ctx_sp (b_left b (hidx n))"
    "m_daif (b_m b') = (if sy_point \<sigma>' = Running then m_daif (work (b_m b)) OR 0x3C0 else b_mask b (hidx n) AND 0x3C0)"
    by (simp_all add: b' m0)
  show "ctx_at (m_mem (b_m b')) (ctx_addr base (hidx h)) = ctx_save (work (b_m b))"
    and "a \<notin> ctx_cells (ctx_addr base (hidx h)) \<Longrightarrow> m_mem (b_m b') a = m_mem (work (b_m b)) a"
    using e(1,2) saved by (simp_all add: b')
  show "w \<in> set (b_window b') \<Longrightarrow> m_daif w = m_daif (work (b_m b)) OR 0x3C0"
    by (auto simp: b' m0 dest: switch_states_daif)
  show "b_sys b' = \<sigma>'" "b_left b' = (b_left b)(hidx h := ctx_save (work (b_m b)))"
    "b_mask b' = (b_mask b)(hidx h := m_daif (work (b_m b)))" "b_guard b' = (b_guard b)(hidx h := m_daif (work (b_m b)))"
    by (simp_all add: b')
qed

lemma board_step_inv:
  assumes "board_inv ar base b" and "spares_contexts base work"
  shows "board_inv ar base (board_step dbg ar base (work, call) b)"
proof -
  define b' where "b' = board_step dbg ar base (work, call) b"
  have inv: "sys_inv ar (b_sys b)" using assms(1) by (simp add: board_inv_def)
  obtain r \<sigma>' where step: "task_step dbg ar call (b_sys b) = (Ret r, \<sigma>')" "sys_inv ar \<sigma>'" using task_step_inv [OF inv] by blast
  obtain h where cur: "sch_current (sy_sched (b_sys b)) = Some h" using inv by (auto simp: sys_inv_def)
  note mv = task_step_moves [OF inv cur step(1)]
  show ?thesis
  proof (cases "r = Switched")
    case False
    with mv have "sch_contexts (sy_sched \<sigma>') = sch_contexts (sy_sched (b_sys b))" by (simp add: moved_def)
    then show ?thesis
      using assms step(2) spared_context [OF assms(2)] by (simp add: board_step_stays [OF step(1) False] board_inv_def)
  next
    case True
    obtain n where n: "switched_to (b_sys b) h n \<sigma>'" using mv True by (auto simp: moved_def)
    note e = board_step_switches [OF assms step(1) [unfolded True] cur n b'_def [symmetric]]
    obtain k where k: "sch_contexts (sy_sched \<sigma>') = (sch_contexts (sy_sched (b_sys b)))[hidx h := Suspended k]"
      and h: "hidx h < TASK_ARENA_CAPACITY" using n by (auto simp: switched_to_def)
    have "ctx_at (m_mem (b_m b')) (ctx_addr base i) = b_left b' i \<and>
        (sch_contexts (sy_sched (b_sys b')) ! i \<noteq> Running \<longrightarrow> b_guard b' i = b_mask b' i)"
      if i: "i < TASK_ARENA_CAPACITY" for i
    proof (cases "i = hidx h")
      case False
      have "ctx_at (m_mem (b_m b')) (ctx_addr base i) = ctx_at (m_mem (work (b_m b))) (ctx_addr base i)"
        using e(10) ctx_addr_disjoint [OF False i h] by (intro ctx_at_cong) blast
      then show ?thesis using False assms i by (simp add: e(1-4) k spared_context board_inv_def)
    qed (simp add: e(2-4,9))
    then show ?thesis using step(2) by (simp add: board_inv_def b'_def [symmetric] e(1))
  qed
qed

lemma board_run_inv:
  assumes "\<forall>(work, call) \<in> set steps. spares_contexts base work" and "board_inv ar base b"
  shows "board_inv ar base (fold (board_step dbg ar base) steps b)"
  using assms by (induction steps arbitrary: b) (auto simp: board_step_inv split: prod.splits)

lemma kernel_started:
  assumes "kernel_setup dbg = Ret img"
  shows "img = demo_setup" "bi_arena img = sample_arena"
proof -
  show "img = demo_setup" using assms by (simp add: kernel_setup_eval)
  then show "bi_arena img = sample_arena" by (simp add: demo_setup_def demo_boot_simps)
qed

text \<open>\<open>start\<close> establishes the invariant, masks interrupts and enters the first task.\<close>

lemma board_start_eval:
  assumes "kernel_setup dbg = Ret img" and "board_start base img m = Ret b"
  shows "board_inv (bi_arena img) base b" "b_sys b = bi_sys demo_boot" "b_window b = []"
    "b_left b i = ctx_at (m_mem m) (ctx_addr base i)" "m_daif (b_m b) = m_daif m OR 0x3C0"
proof -
  let ?cs = "contexts_at (m_mem m) base TASK_ARENA_CAPACITY"
  note img = kernel_started(1) [OF assms(1)]
  have len: "length ?cs = 16" by (simp add: arena_capacities)
  have b: "b = \<lparr>b_sys = bi_sys demo_boot, b_m = ctx_load (?cs ! 1) (snd (cpu_disable_irqs m)), b_guard = (\<lambda>_. 0),
      b_left = (\<lambda>i. ctx_at (m_mem m) (ctx_addr base i)), b_mask = (\<lambda>_. 0), b_window = []\<rparr>"
    using assms(2) by (simp add: board_start_def img start_kernel_eval start_on_board [OF len])
  show "board_inv (bi_arena img) base b" using kernel_started(2) [OF assms(1)] demo_boot_inv
    by (simp add: b board_inv_def ctx_load_def cpu_disable_irqs_def)
  show "b_sys b = bi_sys demo_boot" "b_window b = []" "b_left b i = ctx_at (m_mem m) (ctx_addr base i)"
    "m_daif (b_m b) = m_daif m OR 0x3C0" by (simp_all add: b ctx_load_def cpu_disable_irqs_def)
qed

section \<open>Properties\<close>

text \<open>C13. Tasks resume where they left. On the board, with every switch made by the assembly under its
  interrupt guard, and the running code free to change registers, mask and memory but for the
  context array: whenever a step switches to a task, that task goes on at the point of the bridge
  call in which it was suspended, with exactly the callee-saved registers, frame pointer and stack
  pointer it had when it was switched out, at the return address it had, and with the interrupt
  mask it had; what the task that is left has is recorded in the same way; the switch writes
  nothing but that task's context. A task that runs for the first time finds its initial context
  and interrupts masked.\<close>

theorem tasks_resume_where_they_left:
  assumes "board_inv ar base b0" and "\<forall>(work, call) \<in> set steps. spares_contexts base work"
    and "fold (board_step dbg ar base) steps b0 = b" and "spares_contexts base work"
    and "board_step dbg ar base (work, call) b = b'"
    and "sch_current (sy_sched (b_sys b)) = Some h" and "sch_current (sy_sched (b_sys b')) = Some n" and "n \<noteq> h"
  shows "ctx_save (b_m b') = b_left b (hidx n) \<and> m_pc (b_m b') = ctx_lr (b_left b (hidx n)) \<and>
    m_sp (b_m b') = ctx_sp (b_left b (hidx n)) \<and>
    sy_point (b_sys b') = sch_contexts (sy_sched (b_sys b)) ! hidx n \<and>
    b_left b' = (b_left b)(hidx h := ctx_save (work (b_m b))) \<and>
    b_mask b' = (b_mask b)(hidx h := m_daif (work (b_m b))) \<and>
    m_daif (b_m b') = (case sy_point (b_sys b') of
        Running \<Rightarrow> m_daif (work (b_m b)) OR 0x3C0 | Suspended _ \<Rightarrow> b_mask b (hidx n) AND 0x3C0) \<and>
    (\<forall>a. a \<notin> ctx_cells (ctx_addr base (hidx h)) \<longrightarrow> m_mem (b_m b') a = m_mem (work (b_m b)) a)"
proof -
  have binv: "board_inv ar base b" using board_run_inv [OF assms(2,1)] assms(3) by metis
  then have inv: "sys_inv ar (b_sys b)" by (simp add: board_inv_def)
  obtain r \<sigma>' where step: "task_step dbg ar call (b_sys b) = (Ret r, \<sigma>')" using task_step_inv [OF inv] by blast
  note mv = task_step_moves [OF inv assms(6) step]
  have "r = Switched"
    using mv assms(5-8) board_step_stays [OF step] by (cases "r = Switched") (auto simp: moved_def)
  with mv obtain n' where n': "switched_to (b_sys b) h n' \<sigma>'" by (auto simp: moved_def)
  note e = board_step_switches [OF binv assms(4) step [unfolded \<open>r = Switched\<close>] assms(6) n' assms(5)]
  have "n' = n" using n' assms(7) e(1) by (simp add: switched_to_def)
  moreover have "sy_point \<sigma>' = sch_contexts (sy_sched (b_sys b)) ! hidx n'" using n' by (simp add: switched_to_def)
  ultimately show ?thesis using e by (auto split: point.splits)
qed

text \<open>The demo on the board: task B has run and blocks in its receive; the switch is to task A, for
  the first time, at its entry point and on its own stack.\<close>

definition sample_board :: machine where
  "sample_board = sample_machine\<lparr>m_mem := (\<lambda>_. 0)(88 := 0x40081000, 96 := 0x40091000, 256 := 0x40081400,
     264 := 0x40092000, 424 := 0x40081800, 432 := 0x40093000)\<rparr>"

lemma sample_board_contexts: "contexts_at (m_mem sample_board) 0 TASK_ARENA_CAPACITY = board_contexts sample_env"
  by (simp add: contexts_at_def ctx_at_def ctx_addr_def sample_board_def board_contexts_def fresh_ctx_def init_context_def
      context_default_def sample_env_def stack_top_def arena_capacities replicate_regs upt_rec replicates_small)
    (simp add: numeral_eq_Suc)

lemma sample_board_start: "\<exists>b. board_start 0 demo_setup sample_board = Ret b"
  by (simp add: board_start_def start_kernel_eval start_on_board arena_capacities)

theorem tasks_resume_where_they_left_witness:
  "\<exists>b b'. board_start 0 demo_setup sample_board = Ret b \<and>
     board_step True sample_arena 0 (id, SysRecv sample_root) b = b' \<and> b_sys b' = demo_blocked \<and>
     m_pc (b_m b') = 0x40081000 \<and> m_sp (b_m b') = 0x40091000 \<and> bit (m_daif (b_m b')) 7"
proof -
  obtain b where b: "board_start 0 demo_setup sample_board = Ret b" using sample_board_start by blast
  note e = board_start_eval [OF kernel_setup_eval b]
  define b' where "b' = board_step True sample_arena 0 (id, SysRecv sample_root) b"
  have s': "b_sys b' = demo_blocked"
    using demo_task_step_1 [of True] e(2) by (simp add: b'_def board_step_def Let_def demo_blocked_def board_switch_def
        cpu_disable_irqs_def split: option.split)
  have inv: "board_inv sample_arena 0 b" using e(1) kernel_started [OF kernel_setup_eval] by simp
  have sp: "spares_contexts 0 id" by (simp add: spares_contexts_def)
  have cur: "sch_current (sy_sched (b_sys b)) = Some handle_b" "sch_current (sy_sched (b_sys b')) = Some handle_a"
    "sy_point (b_sys b') = Running" "handle_a \<noteq> handle_b"
    by (simp_all add: e(2) s' demo_boot_def demo_blocked_def demo_snap_def demo_handles)
  have "b_left b (hidx handle_a) = fresh_ctx (env_task_a sample_env)"
    using contexts_at_nth [of 0 TASK_ARENA_CAPACITY "m_mem sample_board" 0] unfolding sample_board_contexts
    by (simp add: e(4) board_contexts_def demo_handles arena_capacities)
  moreover have "m_pc (b_m b') = ctx_lr (b_left b (hidx handle_a)) \<and> m_sp (b_m b') = ctx_sp (b_left b (hidx handle_a)) \<and>
      m_daif (b_m b') = m_daif (b_m b) OR 0x3C0"
    using tasks_resume_where_they_left [OF inv, of "[]" True b id "SysRecv sample_root" b' handle_b handle_a] sp cur
    by (simp add: b'_def)
  ultimately show ?thesis
    using b s' by (intro exI [of _ b] exI [of _ b'])
      (simp add: b'_def [symmetric] fresh_ctx_def init_context_def sample_env_def stack_top_def bit_or_iff)
qed

end
