(* ===== verification/Irq_Mask.thy ===== *)
theory Irq_Mask
  imports Board_Kernel
begin

text \<open>
  The interrupt mask across context switches. Each switch is made under an \<open>IrqGuard\<close> that lives
  on the stack of the task that is switched out and is dropped when that task runs again
  (\<open>kernel/src/sched/mod.rs\<close>, \<open>start\<close>, \<open>yield_now\<close>, \<open>ipc_recv_and_yield\<close>). So the mask belongs to the
  task: whatever the others do to theirs, it keeps its own.
\<close>

section \<open>Runs in which some tasks leave the mask alone\<close>

definition keeps_masked :: "(machine \<Rightarrow> machine) \<Rightarrow> bool" where
  "keeps_masked work \<longleftrightarrow> (\<forall>m. \<not> cpu_irqs_enabled m \<longrightarrow> \<not> cpu_irqs_enabled (work m))"

text \<open>Tasks in the slots \<open>U\<close> may change the mask; the code of the others never unmasks interrupts.\<close>

inductive board_run ::
  "nat set \<Rightarrow> bool \<Rightarrow> EndpointArena \<Rightarrow> u64 \<Rightarrow> board_sys \<Rightarrow> board_sys \<Rightarrow> bool" for U dbg ar base b where
  here: "board_run U dbg ar base b b"
| step: "board_run U dbg ar base b b' \<Longrightarrow> spares_contexts base work \<Longrightarrow>
    (\<And>h. sch_current (sy_sched (b_sys b')) = Some h \<Longrightarrow> hidx h \<notin> U \<Longrightarrow> keeps_masked work) \<Longrightarrow>
    board_run U dbg ar base b (board_step dbg ar base (work, call) b')"

definition mask_inv :: "nat set \<Rightarrow> board_sys \<Rightarrow> bool" where
  "mask_inv U b \<longleftrightarrow>
     (\<forall>h. sch_current (sy_sched (b_sys b)) = Some h \<longrightarrow> hidx h \<notin> U \<longrightarrow> \<not> cpu_irqs_enabled (b_m b)) \<and>
     (\<forall>i < TASK_ARENA_CAPACITY. i \<notin> U \<longrightarrow> sch_contexts (sy_sched (b_sys b)) ! i \<noteq> Running \<longrightarrow> bit (b_mask b i) 7) \<and>
     (\<forall>w \<in> set (b_window b). \<not> cpu_irqs_enabled w)"

lemma board_step_mask:
  assumes "board_inv ar base b" and "mask_inv U b" and "spares_contexts base work"
    and keep: "\<And>h. sch_current (sy_sched (b_sys b)) = Some h \<Longrightarrow> hidx h \<notin> U \<Longrightarrow> keeps_masked work"
  shows "mask_inv U (board_step dbg ar base (work, call) b)"
proof -
  define b' where "b' = board_step dbg ar base (work, call) b"
  have inv: "sys_inv ar (b_sys b)" using assms(1) by (simp add: board_inv_def)
  obtain r \<sigma>' where step: "task_step dbg ar call (b_sys b) = (Ret r, \<sigma>')" using task_step_inv [OF inv] by blast
  obtain h where cur: "sch_current (sy_sched (b_sys b)) = Some h" using inv by (auto simp: sys_inv_def)
  note mv = task_step_moves [OF inv cur step]
  have own: "\<not> cpu_irqs_enabled (work (b_m b))" if "hidx h \<notin> U"
    using that assms(2) cur keep by (simp add: mask_inv_def keeps_masked_def)
  show ?thesis
  proof (cases "r = Switched")
    case False
    with mv have "sch_current (sy_sched \<sigma>') = Some h" "sch_contexts (sy_sched \<sigma>') = sch_contexts (sy_sched (b_sys b))"
      by (simp_all add: moved_def)
    then show ?thesis using assms(2) own by (simp add: board_step_stays [OF step False] mask_inv_def)
  next
    case True
    obtain n where n: "switched_to (b_sys b) h n \<sigma>'" using mv True by (auto simp: moved_def)
    note e = board_step_switches [OF assms(1,3) step [unfolded True] cur n b'_def [symmetric]]
    obtain k where k: "sch_contexts (sy_sched \<sigma>') = (sch_contexts (sy_sched (b_sys b)))[hidx h := Suspended k]"
      "sch_current (sy_sched \<sigma>') = Some n" "hidx h \<noteq> hidx n" "hidx n < TASK_ARENA_CAPACITY"
      "sy_point \<sigma>' = sch_contexts (sy_sched (b_sys b)) ! hidx n" using n by (auto simp: switched_to_def)
    have "\<not> cpu_irqs_enabled (b_m b')" if "hidx n \<notin> U"
      using that assms(2) k(4,5) by (auto simp: cpu_irqs_enabled_def e(8) mask_inv_def bit_or_iff bit_and_iff)
    moreover have "bit (b_mask b' i) 7"
      if "i < TASK_ARENA_CAPACITY" "i \<notin> U" "sch_contexts (sy_sched \<sigma>') ! i \<noteq> Running" for i
      using that assms(2) own by (cases "i = hidx h") (simp_all add: e(3) k(1) mask_inv_def cpu_irqs_enabled_def)
    moreover have "\<not> cpu_irqs_enabled w" if "w \<in> set (b_window b')" for w
      using e(11) [OF that] by (simp add: cpu_irqs_enabled_def bit_or_iff)
    ultimately show ?thesis using k(2) by (simp add: mask_inv_def b'_def [symmetric] e(1))
  qed
qed

lemma board_run_mask:
  assumes "board_run U dbg ar base b b'" and "board_inv ar base b" and "mask_inv U b"
  shows "board_inv ar base b' \<and> mask_inv U b'"
  using assms by (induction rule: board_run.induct) (simp_all add: board_step_inv board_step_mask)

section \<open>Properties\<close>

text \<open>C14. The interrupt mask belongs to the task. The kernel that boot sets up is started on the board with
  any mask; then tasks make any calls, and the tasks in the slots \<open>U\<close> change the mask as they like.
  A task outside \<open>U\<close>, whose own code never unmasks interrupts, always runs with interrupts masked:
  \<open>start\<close> masks them for the first task, a later first run begins masked, and a resumed task gets its
  own mask back. And interrupts are masked in every state of the processor during every switch,
  whoever made it.\<close>

theorem tasks_run_masked:
  assumes "kernel_setup dbg = Ret img" and "board_start base img m = Ret b"
    and "board_run U dbg (bi_arena img) base b b'" and "sch_current (sy_sched (b_sys b')) = Some h"
  shows "(hidx h \<notin> U \<longrightarrow> \<not> cpu_irqs_enabled (b_m b')) \<and> (\<forall>w \<in> set (b_window b'). \<not> cpu_irqs_enabled w)"
proof -
  note e = board_start_eval [OF assms(1,2)]
  have "sch_contexts (sy_sched (bi_sys demo_boot)) ! i = Running" if "i < TASK_ARENA_CAPACITY" for i
    using that by (simp add: demo_boot_def arena_capacities)
  then have "mask_inv U b" by (simp add: mask_inv_def e(2,3,5) cpu_irqs_enabled_def bit_or_iff)
  then show ?thesis using board_run_mask [OF assms(3) e(1)] assms(4) by (simp add: mask_inv_def)
qed

text \<open>On the demo, task B (slot 1) unmasks interrupts and then blocks in its receive: task A, which runs
  next, is masked.\<close>

theorem tasks_run_masked_witness:
  "\<exists>b b'. board_start 0 demo_setup sample_board = Ret b \<and>
     board_run {1} True sample_arena 0 b b' \<and>
     b' = board_step True sample_arena 0 (\<lambda>m. m\<lparr>m_daif := 0\<rparr>, SysRecv sample_root) b \<and>
     sch_current (sy_sched (b_sys b')) = Some handle_a \<and> \<not> cpu_irqs_enabled (b_m b')"
proof -
  let ?work = "\<lambda>m. m\<lparr>m_daif := 0\<rparr>"
  obtain b where b: "board_start 0 demo_setup sample_board = Ret b" using sample_board_start by blast
  note e = board_start_eval [OF kernel_setup_eval b]
  define b' where "b' = board_step True sample_arena 0 (?work, SysRecv sample_root) b"
  have ar: "bi_arena demo_setup = sample_arena" using kernel_started [OF kernel_setup_eval] by simp
  have s': "b_sys b' = demo_blocked"
    using demo_task_step_1 [of True] e(2) by (simp add: b'_def board_step_def Let_def demo_blocked_def board_switch_def
        cpu_disable_irqs_def split: option.split)
  have cur: "sch_current (sy_sched (b_sys b')) = Some handle_a" by (simp add: s' demo_blocked_def demo_snap_current)
  have run: "board_run {1} True sample_arena 0 b b'"
    unfolding b'_def by (rule board_run.step [OF board_run.here])
      (auto simp: spares_contexts_def e(2) demo_boot_fields demo_handles)
  have "\<not> cpu_irqs_enabled (b_m b')"
    using tasks_run_masked [OF kernel_setup_eval [of True] b, unfolded ar, OF run cur] by (simp add: demo_handles)
  with b run cur show ?thesis unfolding b'_def by blast
qed

end
