(* ===== verification/Test_Kit.thy ===== *)
theory Test_Kit
  imports Tyrne_Prelude
begin

text \<open>
  The vocabulary of the repository's unit tests, so that its test modules can be translated: a test
  is a truth value, true when the test passes. \<open>unwrap\<close> goes on with a result and fails the test on
  an error, a panic or a loop; \<open>unwrap_err\<close> demands a particular error; \<open>for_each\<close> is a loop of
  unwrapped calls.
\<close>

fun unwrap :: "('e, 'a) result run \<times> 's \<Rightarrow> ('a \<Rightarrow> 's \<Rightarrow> bool) \<Rightarrow> bool" where
  "unwrap (Ret (Ok a), s) k = k a s"
| "unwrap (Ret (Err e), s) k = False"
| "unwrap (Panic, s) k = False"
| "unwrap (Diverge, s) k = False"

fun unwrap_err :: "('e, 'a) result run \<times> 's \<Rightarrow> 'e \<Rightarrow> ('s \<Rightarrow> bool) \<Rightarrow> bool" where
  "unwrap_err (Ret (Err e'), s) e k = (e' = e \<and> k s)"
| "unwrap_err (Ret (Ok a), s) e k = False"
| "unwrap_err (Panic, s) e k = False"
| "unwrap_err (Diverge, s) e k = False"

fun unwrap_some :: "'a option run \<times> 's \<Rightarrow> ('a \<Rightarrow> 's \<Rightarrow> bool) \<Rightarrow> bool" where
  "unwrap_some (Ret (Some a), s) k = k a s"
| "unwrap_some (Ret None, s) k = False"
| "unwrap_some (Panic, s) k = False"
| "unwrap_some (Diverge, s) k = False"

fun expect_none :: "'a option run \<times> 's \<Rightarrow> bool" where
  "expect_none (Ret None, s) = True"
| "expect_none (Ret (Some a), s) = False"
| "expect_none (Panic, s) = False"
| "expect_none (Diverge, s) = False"

text \<open>A call that returns a plain value; an expected panic.\<close>

fun returns :: "'a run \<times> 's \<Rightarrow> ('a \<Rightarrow> 's \<Rightarrow> bool) \<Rightarrow> bool" where
  "returns (Ret a, s) k = k a s"
| "returns (Panic, s) k = False"
| "returns (Diverge, s) k = False"

definition should_panic :: "'a run \<Rightarrow> bool" where
  "should_panic r = (r = Panic)"

fun is_ok :: "('e, 'a) result run \<Rightarrow> bool" where
  "is_ok (Ret (Ok a)) = True"
| "is_ok (Ret (Err e)) = False"
| "is_ok Panic = False"
| "is_ok Diverge = False"

fun is_err :: "('e, 'a) result run \<Rightarrow> bool" where
  "is_err (Ret (Err e)) = True"
| "is_err (Ret (Ok a)) = False"
| "is_err Panic = False"
| "is_err Diverge = False"

text \<open>Calls that cannot panic return their result directly.\<close>

fun lift_run :: "'r \<times> 's \<Rightarrow> 'r run \<times> 's" where
  "lift_run (r, s) = (Ret r, s)"

fun for_each ::
  "'i list \<Rightarrow> ('i \<Rightarrow> 's \<Rightarrow> ('e, 'a) result run \<times> 's) \<Rightarrow> 's \<Rightarrow> ('a list \<Rightarrow> 's \<Rightarrow> bool) \<Rightarrow> bool" where
  "for_each [] f s k = k [] s"
| "for_each (i # is) f s k = unwrap (f i s) (\<lambda>a s. for_each is f s (\<lambda>as. k (a # as)))"

text \<open>Evaluation proceeds call by call: the continuation of a call is not looked at before the call
  has returned.\<close>

lemma unwrap_cong: "r = r' \<Longrightarrow> unwrap r k = unwrap r' k"
  by simp

lemma unwrap_err_cong: "r = r' \<Longrightarrow> unwrap_err r e k = unwrap_err r' e k"
  by simp

lemma unwrap_some_cong: "r = r' \<Longrightarrow> unwrap_some r k = unwrap_some r' k"
  by simp

lemma returns_cong: "r = r' \<Longrightarrow> returns r k = returns r' k"
  by simp

lemma and_then_cong: "r = r' \<Longrightarrow> and_then r k = and_then r' k"
  by simp

lemma for_each_cong: "is = is' \<Longrightarrow> s = s' \<Longrightarrow> for_each is f s k = for_each is' f s' k"
  by simp

lemmas test_congs = unwrap_cong unwrap_err_cong unwrap_some_cong returns_cong and_then_cong for_each_cong

lemma unwrap_iff: "unwrap r k \<longleftrightarrow> (\<exists>a s. r = (Ret (Ok a), s) \<and> k a s)"
  by (cases "(r, k)" rule: unwrap.cases) simp_all

end
