(* ===== verification/Unit_Tests_Objects.thy ===== *)
theory Unit_Tests_Objects
  imports Test_Kit Cap_Rights
begin

text \<open>
  The unit tests of the kernel objects and of the rights field, run on the model: the test modules of
  \<open>kernel/src/obj/arena.rs\<close>, \<open>task.rs\<close>, \<open>endpoint.rs\<close>, \<open>notification.rs\<close> and
  \<open>kernel/src/cap/rights.rs\<close>. Tests are built with debug assertions.
\<close>

section \<open>Arena\<close>

definition test_allocate_and_get_round_trip :: bool where
  "test_allocate_and_get_round_trip =
     unwrap_some (allocate True (42 :: u32) (arena_new 4)) (\<lambda>i ar.
       get ar i = Some 42 \<and> contains ar i)"

definition test_free_invalidates_id :: bool where
  "test_free_invalidates_id =
     unwrap_some (allocate True (7 :: u32) (arena_new 4)) (\<lambda>i ar.
       returns (lift_run (free i ar)) (\<lambda>r ar.
         r = Some 7 \<and> get ar i = None \<and> \<not> contains ar i))"

definition test_free_then_allocate_bumps_generation :: bool where
  "test_free_then_allocate_bumps_generation =
     unwrap_some (allocate True (1 :: u32) (arena_new 4)) (\<lambda>first ar.
       unwrap_some (lift_run (free first ar)) (\<lambda>_ ar.
         unwrap_some (allocate True 2 ar) (\<lambda>second ar.
           sid_index first = sid_index second \<and> sid_generation first \<noteq> sid_generation second \<and>
           get ar first = None \<and> get ar second = Some 2)))"

definition test_exhaustion_returns_none :: bool where
  "test_exhaustion_returns_none =
     unwrap_some (allocate True (1 :: u8) (arena_new 2)) (\<lambda>_ ar.
       unwrap_some (allocate True 2 ar) (\<lambda>_ ar.
         expect_none (allocate True 3 ar)))"

definition test_free_middle_then_allocate_reuses_that_slot :: bool where
  "test_free_middle_then_allocate_reuses_that_slot =
     unwrap_some (allocate True (10 :: u32) (arena_new 3)) (\<lambda>a ar.
       unwrap_some (allocate True 20 ar) (\<lambda>b ar.
         unwrap_some (allocate True 30 ar) (\<lambda>c ar.
           unwrap_some (lift_run (free b ar)) (\<lambda>_ ar.
             unwrap_some (allocate True 99 ar) (\<lambda>d ar.
               sid_index d = sid_index b \<and> get ar a = Some 10 \<and> get ar c = Some 30 \<and>
               get ar d = Some 99 \<and> get ar b = None)))))"

definition test_get_mut_permits_mutation :: bool where
  "test_get_mut_permits_mutation =
     unwrap_some (allocate True (1 :: u32) (arena_new 2)) (\<lambda>i ar.
       case get_mut (\<lambda>_. 2) i ar of
         None \<Rightarrow> False
       | Some ar \<Rightarrow> get ar i = Some 2)"

definition test_empty_capacity_arena_has_no_free_slot :: bool where
  "test_empty_capacity_arena_has_no_free_slot = expect_none (allocate True (0 :: u32) (arena_new 0))"

lemmas arena_test_defs = test_allocate_and_get_round_trip_def test_free_invalidates_id_def
  test_free_then_allocate_bumps_generation_def test_exhaustion_returns_none_def
  test_free_middle_then_allocate_reuses_that_slot_def test_get_mut_permits_mutation_def
  test_empty_capacity_arena_has_no_free_slot_def

lemmas arena_eval [eval_defs] = arena_new_def allocate_def free_def get_def get_mut_def contains_def
  usize_wrapping_add_def upt_rec Let_def

lemma arena_tests_pass:
  "test_allocate_and_get_round_trip" "test_free_invalidates_id" "test_free_then_allocate_bumps_generation"
  "test_exhaustion_returns_none" "test_free_middle_then_allocate_reuses_that_slot"
  "test_get_mut_permits_mutation" "test_empty_capacity_arena_has_no_free_slot"
  by (simp_all add: arena_test_defs arena_eval cong: test_congs)

section \<open>Tasks, endpoints, notifications\<close>

definition test_create_then_get_round_trip :: bool where
  "test_create_then_get_round_trip =
     unwrap (create_task True task_arena_new (task_new 7)) (\<lambda>handle ar.
       map_option task_id (get_task ar handle) = Some 7)"

definition test_task_destroy_invalidates_handle :: bool where
  "test_task_destroy_invalidates_handle =
     unwrap (create_task True task_arena_new (task_new 1)) (\<lambda>handle ar.
       unwrap (lift_run (destroy_task ar handle)) (\<lambda>removed ar.
         task_id removed = 1 \<and> get_task ar handle = None \<and>
         unwrap_err (lift_run (destroy_task ar handle)) InvalidHandle (\<lambda>_. True)))"

definition test_arena_exhaustion_returns_arena_full :: bool where
  "test_arena_exhaustion_returns_arena_full =
     for_each [0..<TASK_ARENA_CAPACITY] (\<lambda>i ar. create_task True ar (task_new (of_nat i))) task_arena_new (\<lambda>_ ar.
       unwrap_err (create_task True ar (task_new 99)) ArenaFull (\<lambda>_. True))"

definition test_create_destroy_round_trip :: bool where
  "test_create_destroy_round_trip =
     unwrap (create_endpoint True endpoint_arena_new (endpoint_new 42)) (\<lambda>handle ar.
       map_option endpoint_id (get_endpoint ar handle) = Some 42 \<and>
       unwrap (lift_run (destroy_endpoint ar handle)) (\<lambda>removed ar.
         endpoint_id removed = 42 \<and> get_endpoint ar handle = None))"

definition test_set_and_consume_round_trip :: bool where
  "test_set_and_consume_round_trip =
     unwrap (create_notification True notification_arena_new (notif_new 0)) (\<lambda>handle ar.
       case get_mut (\<lambda>note. notif_set 4 (notif_set 1 note)) (notif_slot handle) ar of
         None \<Rightarrow> False
       | Some ar \<Rightarrow>
           map_option notif_word (get_notification ar handle) = Some 5 \<and>
           (case get ar (notif_slot handle) of
              None \<Rightarrow> False
            | Some note \<Rightarrow> fst (notif_consume note) = 5 \<and> fst (notif_consume (snd (notif_consume note))) = 0))"

definition test_notification_destroy_invalidates_handle :: bool where
  "test_notification_destroy_invalidates_handle =
     unwrap (create_notification True notification_arena_new (notif_new 0)) (\<lambda>handle ar.
       unwrap (lift_run (destroy_notification ar handle)) (\<lambda>_ ar.
         get_notification ar handle = None \<and>
         unwrap (create_notification True ar (notif_new 1)) (\<lambda>_ ar.
           get_notification ar handle = None)))"

lemmas object_test_defs = test_create_then_get_round_trip_def test_task_destroy_invalidates_handle_def
  test_arena_exhaustion_returns_arena_full_def test_create_destroy_round_trip_def
  test_set_and_consume_round_trip_def test_notification_destroy_invalidates_handle_def

lemmas object_eval [eval_defs] = create_task_def destroy_task_def get_task_def task_arena_new_def task_new_def
  create_endpoint_def destroy_endpoint_def get_endpoint_def endpoint_arena_new_def endpoint_new_def
  create_notification_def destroy_notification_def get_notification_def notification_arena_new_def
  notif_new_def notif_set_def notif_consume_def arena_capacities

lemma object_tests_pass:
  "test_create_then_get_round_trip" "test_task_destroy_invalidates_handle"
  "test_arena_exhaustion_returns_arena_full" "test_create_destroy_round_trip"
  "test_set_and_consume_round_trip" "test_notification_destroy_invalidates_handle"
  by (simp_all add: object_test_defs object_eval arena_eval cong: test_congs)

section \<open>Rights\<close>

definition test_empty_contains_empty_but_nothing_else :: bool where
  "test_empty_contains_empty_but_nothing_else \<longleftrightarrow>
     rights_contains EMPTY EMPTY \<and> \<not> rights_contains EMPTY DUPLICATE \<and> rights_is_empty EMPTY"

definition test_union_and_contains :: bool where
  "test_union_and_contains \<longleftrightarrow> (let rw = rights_bitor DUPLICATE DERIVE in
     rights_contains rw DUPLICATE \<and> rights_contains rw DERIVE \<and> \<not> rights_contains rw REVOKE \<and>
     rights_contains rw EMPTY)"

definition test_intersection_narrows :: bool where
  "test_intersection_narrows \<longleftrightarrow>
     (let all = rights_bitor (rights_bitor DUPLICATE DERIVE) REVOKE; just_dup = rights_bitand all DUPLICATE in
     rights_contains just_dup DUPLICATE \<and> \<not> rights_contains just_dup DERIVE \<and> \<not> rights_contains just_dup REVOKE)"

definition test_difference_clears_bits :: bool where
  "test_difference_clears_bits \<longleftrightarrow>
     (let rwx = rights_bitor DUPLICATE DERIVE; just_derive = rights_difference rwx DUPLICATE in
     rights_contains just_derive DERIVE \<and> \<not> rights_contains just_derive DUPLICATE)"

definition test_from_raw_and_raw_round_trip :: bool where
  "test_from_raw_and_raw_round_trip \<longleftrightarrow>
     (let bits = 11; rights = rights_from_raw bits in rights_raw rights = bits)"

definition test_from_raw_masks_unknown_bits :: bool where
  "test_from_raw_masks_unknown_bits \<longleftrightarrow>
     (let rights = rights_from_raw (0x80000000 OR rights_raw DUPLICATE) in
     rights_contains rights DUPLICATE \<and> rights_raw rights AND NOT (rights_raw KNOWN_BITS) = 0 \<and>
     rights_is_empty (rights_from_raw 0x80000000))"

definition test_bitor_assign_adds_bits :: bool where
  "test_bitor_assign_adds_bits \<longleftrightarrow>
     (let rights = DUPLICATE; rights = rights_bitor_assign rights REVOKE in
     rights_contains rights DUPLICATE \<and> rights_contains rights REVOKE)"

lemmas rights_test_defs = test_empty_contains_empty_but_nothing_else_def test_union_and_contains_def
  test_intersection_narrows_def test_difference_clears_bits_def test_from_raw_and_raw_round_trip_def
  test_from_raw_masks_unknown_bits_def test_bitor_assign_adds_bits_def

lemmas rights_eval = rights_contains_def rights_is_empty_def rights_bitor_def rights_bitand_def
  rights_bitor_assign_def rights_union_def rights_intersection_def rights_difference_def rights_from_raw_def
  KNOWN_BITS_def rights_consts

lemma rights_tests_pass:
  "test_empty_contains_empty_but_nothing_else" "test_union_and_contains" "test_intersection_narrows"
  "test_difference_clears_bits" "test_from_raw_and_raw_round_trip" "test_from_raw_masks_unknown_bits"
  "test_bitor_assign_adds_bits"
  by (simp_all add: rights_test_defs rights_eval Let_def)

section \<open>The modules as a whole\<close>

definition arena_tests :: "bool list" where
  "arena_tests = [
     test_allocate_and_get_round_trip, test_free_invalidates_id, test_free_then_allocate_bumps_generation,
     test_exhaustion_returns_none, test_free_middle_then_allocate_reuses_that_slot, test_get_mut_permits_mutation,
     test_empty_capacity_arena_has_no_free_slot]"

lemma arena_tests_all_pass: "list_all id arena_tests"
  by (simp add: arena_tests_def arena_tests_pass)

definition object_tests :: "bool list" where
  "object_tests = [
     test_create_then_get_round_trip, test_task_destroy_invalidates_handle, test_arena_exhaustion_returns_arena_full,
     test_create_destroy_round_trip, test_set_and_consume_round_trip, test_notification_destroy_invalidates_handle]"

lemma object_tests_all_pass: "list_all id object_tests"
  by (simp add: object_tests_def object_tests_pass)

definition rights_tests :: "bool list" where
  "rights_tests = [
     test_empty_contains_empty_but_nothing_else, test_union_and_contains, test_intersection_narrows,
     test_difference_clears_bits, test_from_raw_and_raw_round_trip, test_from_raw_masks_unknown_bits,
     test_bitor_assign_adds_bits]"

lemma rights_tests_all_pass: "list_all id rights_tests"
  by (simp add: rights_tests_def rights_tests_pass)

end
