(* ===== verification/Unit_Tests_Cap.thy ===== *)
theory Unit_Tests_Cap
  imports Unit_Tests_Objects Cap_Properties
begin

text \<open>
  The unit tests of the capability table, run on the model: the test module of
  \<open>kernel/src/cap/table.rs\<close>. The table is evaluated with its first slots written out and the rest
  unopened; the tests that fill it go through a closed form of the filled table.
\<close>

section \<open>Helpers of the test module\<close>

definition all_rights :: CapRights where
  "all_rights = rights_bitor (rights_bitor (rights_bitor DUPLICATE DERIVE) REVOKE) TRANSFER"

definition task_object :: "u16 \<Rightarrow> CapObject" where
  "task_object tag = ObjTask (TaskHandle \<lparr>sid_index = tag, sid_generation = 0\<rparr>)"

definition root_cap :: Capability where
  "root_cap = capability_new all_rights (task_object 0xAA)"

text \<open>\<open>t.lookup(h).unwrap()\<close> followed by an accessor.\<close>

definition map_lookup :: "(Capability \<Rightarrow> 'a) \<Rightarrow> CapabilityTable \<Rightarrow> CapHandle \<Rightarrow> 'a option" where
  "map_lookup f t h = (case lookup t h of Ret (Ok cap) \<Rightarrow> Some (f cap) | _ \<Rightarrow> None)"

text \<open>The loop that derives from the last handle, and the one that fills the table.\<close>

fun derive_chain :: "nat \<Rightarrow> CapHandle \<Rightarrow> CapabilityTable \<Rightarrow> (CapHandle \<Rightarrow> CapabilityTable \<Rightarrow> bool) \<Rightarrow> bool" where
  "derive_chain 0 current t k = k current t"
| "derive_chain (Suc n) current t k =
     unwrap (cap_derive current all_rights (task_object 0) t) (\<lambda>child t. derive_chain n child t k)"

fun fill_table :: "nat \<Rightarrow> CapabilityTable \<Rightarrow> (CapabilityTable \<Rightarrow> bool) \<Rightarrow> bool" where
  "fill_table 0 t k = (is_full t \<and> k t)"
| "fill_table (Suc n) t k = (\<not> is_full t \<and> unwrap (insert_root root_cap t) (\<lambda>_ t. fill_table n t k))"

section \<open>The tests\<close>

definition test_new_table_can_accept_one_root :: bool where
  "test_new_table_can_accept_one_root =
     unwrap (insert_root root_cap table_new) (\<lambda>h t.
       case lookup t h of
         Ret (Ok cap) \<Rightarrow> cap_kind cap = KindTask \<and> cap_rights cap = all_rights \<and> cap_object cap = task_object 0xAA
       | _ \<Rightarrow> False)"

definition test_drop_invalidates_handle :: bool where
  "test_drop_invalidates_handle =
     unwrap (insert_root root_cap table_new) (\<lambda>h t.
       unwrap (cap_drop h t) (\<lambda>_ t. lookup t h = Ret (Err CapInvalidHandle)))"

definition test_drop_twice_returns_invalid_handle :: bool where
  "test_drop_twice_returns_invalid_handle =
     unwrap (insert_root root_cap table_new) (\<lambda>h t.
       unwrap (cap_drop h t) (\<lambda>_ t.
         unwrap_err (cap_drop h t) CapInvalidHandle (\<lambda>_. True)))"

definition test_freed_slot_is_reused_with_bumped_generation :: bool where
  "test_freed_slot_is_reused_with_bumped_generation =
     unwrap (insert_root root_cap table_new) (\<lambda>h1 t.
       unwrap (cap_drop h1 t) (\<lambda>_ t.
         unwrap (insert_root root_cap t) (\<lambda>h2 t.
           ch_index h1 = ch_index h2 \<and> ch_generation h1 \<noteq> ch_generation h2 \<and>
           lookup t h1 = Ret (Err CapInvalidHandle) \<and> is_ok (lookup t h2))))"

definition test_cap_copy_with_same_rights_succeeds :: bool where
  "test_cap_copy_with_same_rights_succeeds =
     unwrap (insert_root root_cap table_new) (\<lambda>src t.
       unwrap (cap_copy src all_rights t) (\<lambda>dup t.
         map_lookup cap_rights t dup = Some all_rights \<and> is_ok (lookup t src)))"

definition test_cap_copy_narrows_rights :: bool where
  "test_cap_copy_narrows_rights =
     (let narrower = DUPLICATE in
       unwrap (insert_root root_cap table_new) (\<lambda>src t.
         unwrap (cap_copy src narrower t) (\<lambda>dup t.
           map_lookup cap_rights t dup = Some narrower)))"

definition test_cap_copy_rejects_widened_rights :: bool where
  "test_cap_copy_rejects_widened_rights =
     (let narrow = capability_new DUPLICATE (task_object 0); wider = rights_bitor DUPLICATE REVOKE in
       unwrap (insert_root narrow table_new) (\<lambda>src t.
         unwrap_err (cap_copy src wider t) WidenedRights (\<lambda>_. True)))"

definition test_cap_copy_without_duplicate_right_fails :: bool where
  "test_cap_copy_without_duplicate_right_fails =
     (let no_dup = capability_new DERIVE (task_object 0) in
       unwrap (insert_root no_dup table_new) (\<lambda>src t.
         unwrap_err (cap_copy src EMPTY t) InsufficientRights (\<lambda>_. True)))"

definition test_cap_derive_creates_child_with_narrower_rights :: bool where
  "test_cap_derive_creates_child_with_narrower_rights =
     (let child_rights = DUPLICATE in
       unwrap (insert_root root_cap table_new) (\<lambda>src t.
         unwrap (cap_derive src child_rights (task_object 0xBB) t) (\<lambda>child t.
           map_lookup cap_rights t child = Some child_rights \<and>
           map_lookup cap_object t child = Some (task_object 0xBB))))"

definition test_cap_derive_without_derive_right_fails :: bool where
  "test_cap_derive_without_derive_right_fails =
     (let no_derive = capability_new DUPLICATE (task_object 0) in
       unwrap (insert_root no_derive table_new) (\<lambda>src t.
         unwrap_err (cap_derive src EMPTY (task_object 0) t) InsufficientRights (\<lambda>_. True)))"

definition test_cap_derive_rejects_widened_rights :: bool where
  "test_cap_derive_rejects_widened_rights =
     (let narrow = capability_new DERIVE (task_object 0); wider = rights_bitor DERIVE REVOKE in
       unwrap (insert_root narrow table_new) (\<lambda>src t.
         unwrap_err (cap_derive src wider (task_object 0) t) WidenedRights (\<lambda>_. True)))"

definition test_cap_derive_enforces_depth_cap :: bool where
  "test_cap_derive_enforces_depth_cap =
     unwrap (insert_root root_cap table_new) (\<lambda>current t.
       derive_chain MAX_DERIVATION_DEPTH current t (\<lambda>current t.
         unwrap_err (cap_derive current all_rights (task_object 0) t) DerivationTooDeep (\<lambda>_. True)))"

definition test_cap_revoke_removes_only_descendants :: bool where
  "test_cap_revoke_removes_only_descendants =
     unwrap (insert_root root_cap table_new) (\<lambda>src t.
       unwrap (cap_derive src all_rights (task_object 1) t) (\<lambda>child t.
         unwrap (cap_revoke True src t) (\<lambda>_ t.
           is_ok (lookup t src) \<and> lookup t child = Ret (Err CapInvalidHandle))))"

definition test_cap_revoke_cascades_depth_three :: bool where
  "test_cap_revoke_cascades_depth_three =
     unwrap (insert_root root_cap table_new) (\<lambda>root t.
       unwrap (cap_derive root all_rights (task_object 1) t) (\<lambda>child t.
         unwrap (cap_derive child all_rights (task_object 2) t) (\<lambda>grand t.
           unwrap (cap_derive grand all_rights (task_object 3) t) (\<lambda>great t.
             unwrap (cap_revoke True root t) (\<lambda>_ t.
               is_ok (lookup t root) \<and> list_all (\<lambda>h. lookup t h = Ret (Err CapInvalidHandle)) [child, grand, great])))))"

definition test_references_object_sees_live_caps_only :: bool where
  "test_references_object_sees_live_caps_only =
     (let target = task_object 0xCC; other = task_object 0xDD in
       \<not> references_object table_new target \<and>
       unwrap (insert_root (capability_new all_rights target) table_new) (\<lambda>h t.
         references_object t target \<and> \<not> references_object t other \<and>
         unwrap (cap_drop h t) (\<lambda>_ t. \<not> references_object t target)))"

definition test_cap_revoke_clears_references_object :: bool where
  "test_cap_revoke_clears_references_object =
     (let target = task_object 0xEE in
       unwrap (insert_root (capability_new all_rights (task_object 0xAA)) table_new) (\<lambda>root t.
         unwrap (cap_derive root all_rights target t) (\<lambda>child t.
           references_object t target \<and>
           unwrap (cap_revoke True root t) (\<lambda>_ t.
             \<not> references_object t target \<and> lookup t child = Ret (Err CapInvalidHandle)))))"

definition test_cap_revoke_without_revoke_right_fails :: bool where
  "test_cap_revoke_without_revoke_right_fails =
     (let no_revoke = capability_new (rights_bitor DUPLICATE DERIVE) (task_object 0) in
       unwrap (insert_root no_revoke table_new) (\<lambda>src t.
         unwrap_err (cap_revoke True src t) InsufficientRights (\<lambda>_. True)))"

definition test_cap_revoke_on_leaf_is_a_noop :: bool where
  "test_cap_revoke_on_leaf_is_a_noop =
     unwrap (insert_root root_cap table_new) (\<lambda>leaf t.
       unwrap (cap_revoke True leaf t) (\<lambda>_ t. is_ok (lookup t leaf)))"

definition test_cap_revoke_on_stale_handle_fails :: bool where
  "test_cap_revoke_on_stale_handle_fails =
     unwrap (insert_root root_cap table_new) (\<lambda>h t.
       unwrap (cap_drop h t) (\<lambda>_ t.
         unwrap_err (cap_revoke True h t) CapInvalidHandle (\<lambda>_. True)))"

definition test_copy_of_a_child_shares_parent :: bool where
  "test_copy_of_a_child_shares_parent =
     unwrap (insert_root root_cap table_new) (\<lambda>root t.
       unwrap (cap_derive root all_rights (task_object 1) t) (\<lambda>child t.
         unwrap (cap_copy child all_rights t) (\<lambda>peer t.
           unwrap (cap_revoke True root t) (\<lambda>_ t.
             lookup t child = Ret (Err CapInvalidHandle) \<and> lookup t peer = Ret (Err CapInvalidHandle)))))"

definition test_drop_peer_does_not_affect_other_peer :: bool where
  "test_drop_peer_does_not_affect_other_peer =
     unwrap (insert_root root_cap table_new) (\<lambda>root t.
       unwrap (cap_copy root all_rights t) (\<lambda>peer_a t.
         unwrap (cap_copy root all_rights t) (\<lambda>peer_b t.
           unwrap (cap_drop peer_a t) (\<lambda>_ t.
             lookup t peer_a = Ret (Err CapInvalidHandle) \<and> is_ok (lookup t peer_b) \<and> is_ok (lookup t root)))))"

definition test_table_exhaustion_returns_caps_exhausted :: bool where
  "test_table_exhaustion_returns_caps_exhausted =
     for_each [0..<CAP_TABLE_CAPACITY] (\<lambda>_. insert_root root_cap) table_new (\<lambda>handles t.
       unwrap_err (insert_root root_cap t) CapsExhausted (\<lambda>t.
         unwrap (cap_drop (handles ! 0) t) (\<lambda>_ t.
           unwrap (insert_root root_cap t) (\<lambda>_ _. True))))"

definition test_cap_drop_on_interior_node_returns_has_children :: bool where
  "test_cap_drop_on_interior_node_returns_has_children =
     unwrap (insert_root root_cap table_new) (\<lambda>par t.
       unwrap (cap_derive par all_rights (task_object 1) t) (\<lambda>_ t.
         unwrap_err (cap_drop par t) HasChildren (\<lambda>t.
           unwrap (cap_revoke True par t) (\<lambda>_ t.
             unwrap (cap_drop par t) (\<lambda>_ _. True)))))"

definition test_cap_take_returns_capability_and_invalidates_handle :: bool where
  "test_cap_take_returns_capability_and_invalidates_handle =
     unwrap (insert_root root_cap table_new) (\<lambda>h t.
       unwrap (cap_take h t) (\<lambda>taken t.
         cap_rights taken = all_rights \<and> cap_object taken = task_object 0xAA \<and>
         lookup t h = Ret (Err CapInvalidHandle)))"

definition test_cap_take_on_node_with_children_fails :: bool where
  "test_cap_take_on_node_with_children_fails =
     unwrap (insert_root root_cap table_new) (\<lambda>par t.
       unwrap (cap_derive par all_rights (task_object 1) t) (\<lambda>_ t.
         unwrap_err (cap_take par t) HasChildren (\<lambda>t. is_ok (lookup t par))))"

definition test_cap_take_stale_handle_fails :: bool where
  "test_cap_take_stale_handle_fails =
     unwrap (insert_root root_cap table_new) (\<lambda>h t.
       unwrap (cap_take h t) (\<lambda>_ t.
         unwrap_err (cap_take h t) CapInvalidHandle (\<lambda>_. True)))"

definition test_cap_take_middle_sibling_preserves_list_integrity :: bool where
  "test_cap_take_middle_sibling_preserves_list_integrity =
     unwrap (insert_root root_cap table_new) (\<lambda>root t.
       unwrap (cap_derive root all_rights (task_object 1) t) (\<lambda>a t.
         unwrap (cap_derive root all_rights (task_object 2) t) (\<lambda>b t.
           unwrap (cap_derive root all_rights (task_object 3) t) (\<lambda>c t.
             unwrap (cap_take b t) (\<lambda>taken t.
               cap_object taken = task_object 2 \<and> is_ok (lookup t a) \<and> is_ok (lookup t c) \<and>
               lookup t b = Ret (Err CapInvalidHandle) \<and>
               unwrap (cap_revoke True root t) (\<lambda>_ t.
                 lookup t a = Ret (Err CapInvalidHandle) \<and> lookup t c = Ret (Err CapInvalidHandle)))))))"

definition test_cap_take_slot_reusable_with_bumped_generation :: bool where
  "test_cap_take_slot_reusable_with_bumped_generation =
     unwrap (insert_root root_cap table_new) (\<lambda>h1 t.
       unwrap (cap_take h1 t) (\<lambda>_ t.
         unwrap (insert_root root_cap t) (\<lambda>h2 t.
           ch_index h1 = ch_index h2 \<and> ch_generation h1 \<noteq> ch_generation h2 \<and>
           lookup t h1 = Ret (Err CapInvalidHandle) \<and> is_ok (lookup t h2))))"

definition test_is_full_transitions :: bool where
  "test_is_full_transitions \<longleftrightarrow>
     \<not> is_full table_new \<and>
     for_each [0..<CAP_TABLE_CAPACITY] (\<lambda>_. insert_root root_cap) table_new (\<lambda>handles t.
       is_full t \<and>
       unwrap (cap_take (handles ! 0) t) (\<lambda>_ t. \<not> is_full t \<and>
         unwrap (insert_root root_cap t) (\<lambda>refill t. is_full t \<and>
           unwrap (cap_drop refill t) (\<lambda>_ t. \<not> is_full t))))"

definition test_drop_middle_sibling_preserves_list_integrity :: bool where
  "test_drop_middle_sibling_preserves_list_integrity =
     unwrap (insert_root root_cap table_new) (\<lambda>root t.
       unwrap (cap_derive root all_rights (task_object 1) t) (\<lambda>a t.
         unwrap (cap_derive root all_rights (task_object 2) t) (\<lambda>b t.
           unwrap (cap_derive root all_rights (task_object 3) t) (\<lambda>c t.
             unwrap (cap_drop b t) (\<lambda>_ t.
               is_ok (lookup t a) \<and> is_ok (lookup t c) \<and> lookup t b = Ret (Err CapInvalidHandle) \<and>
               unwrap (cap_revoke True root t) (\<lambda>_ t.
                 lookup t a = Ret (Err CapInvalidHandle) \<and> lookup t c = Ret (Err CapInvalidHandle)))))))"

definition test_cap_derive_on_full_table_returns_caps_exhausted :: bool where
  "test_cap_derive_on_full_table_returns_caps_exhausted =
     unwrap (insert_root root_cap table_new) (\<lambda>par t.
       fill_table (CAP_TABLE_CAPACITY - 1) t (\<lambda>t.
         is_full t \<and>
         unwrap_err (cap_derive par all_rights (task_object 0xCD) t) CapsExhausted (\<lambda>t.
           is_ok (lookup t par))))"

definition test_cap_copy_on_stale_handle_returns_invalid_handle :: bool where
  "test_cap_copy_on_stale_handle_returns_invalid_handle =
     unwrap (insert_root root_cap table_new) (\<lambda>h t.
       unwrap (cap_drop h t) (\<lambda>_ t.
         unwrap_err (cap_copy h all_rights t) CapInvalidHandle (\<lambda>_. True)))"

definition test_lookup_on_stale_handle_returns_invalid_handle :: bool where
  "test_lookup_on_stale_handle_returns_invalid_handle =
     unwrap (insert_root root_cap table_new) (\<lambda>h1 t.
       unwrap (cap_drop h1 t) (\<lambda>_ t.
         unwrap (insert_root root_cap t) (\<lambda>h2 t.
           ch_index h1 = ch_index h2 \<and> ch_generation h1 \<noteq> ch_generation h2 \<and>
           lookup t h1 = Ret (Err CapInvalidHandle) \<and> is_ok (lookup t h2))))"

definition test_drop_first_child_updates_parent_first_child_pointer :: bool where
  "test_drop_first_child_updates_parent_first_child_pointer =
     unwrap (insert_root root_cap table_new) (\<lambda>root t.
       unwrap (cap_derive root all_rights (task_object 1) t) (\<lambda>first t.
         unwrap (cap_derive root all_rights (task_object 2) t) (\<lambda>middle t.
           unwrap (cap_derive root all_rights (task_object 3) t) (\<lambda>last t.
             unwrap (cap_drop last t) (\<lambda>_ t.
               lookup t last = Ret (Err CapInvalidHandle) \<and> is_ok (lookup t first) \<and> is_ok (lookup t middle) \<and>
               unwrap (cap_revoke True root t) (\<lambda>_ t.
                 lookup t first = Ret (Err CapInvalidHandle) \<and> lookup t middle = Ret (Err CapInvalidHandle)))))))"

section \<open>Evaluation\<close>

definition free_at :: "u16 option \<Rightarrow> CapSlot" where
  "free_at n = \<lparr>cs_entry = None, cs_generation = 0, cs_next_free = n\<rparr>"

definition next_after :: "nat \<Rightarrow> u16 option" where
  "next_after i = (if i + 1 < 64 then Some (of_nat (i + 1)) else None)"

definition back_slots :: "CapSlot list" where
  "back_slots = map (\<lambda>i. free_at (next_after i)) [6..<64]"

lemma table_new_slots: "ct_slots table_new = map (\<lambda>i. free_at (next_after i)) [0..<64]" "ct_free_head table_new = Some 0"
  by (simp_all add: table_new_def free_at_def next_after_def CAP_TABLE_CAPACITY_def usize_wrapping_add_def Let_def)

lemma table_new_front:
  "table_new = \<lparr>ct_slots = [free_at (Some 1), free_at (Some 2), free_at (Some 3), free_at (Some 4), free_at (Some 5),
     free_at (Some 6)] @ back_slots, ct_free_head = Some 0\<rparr>"
proof -
  have "[0..<64] = [0, 1, 2, 3, 4, 5] @ [6..<(64 :: nat)]" using upt_add_eq_append [of 0 6 58] by (simp add: upt_rec)
  then have "map (\<lambda>i. free_at (next_after i)) [0..<64] =
      map (\<lambda>i. free_at (next_after i)) [0, 1, 2, 3, 4, 5] @ back_slots"
    by (simp add: back_slots_def)
  then show ?thesis using table_new_slots by (cases table_new) (simp add: next_after_def)
qed

lemma back_slots_empty: "\<not> list_ex (\<lambda>s. case cs_entry s of None \<Rightarrow> False | Some e \<Rightarrow> P e) back_slots"
  by (auto simp: back_slots_def list_ex_iff free_at_def simp del: upt_rec_numeral)

lemma all_rights_eval:
  "rights_contains all_rights all_rights" "rights_contains all_rights DERIVE" "rights_contains all_rights REVOKE"
  "rights_contains all_rights DUPLICATE" "rights_contains all_rights TRANSFER"
  "rights_contains DUPLICATE DUPLICATE" "rights_contains DERIVE DERIVE"
  "\<not> rights_contains DUPLICATE (rights_bitor DUPLICATE REVOKE)" "\<not> rights_contains DERIVE (rights_bitor DERIVE REVOKE)"
  "\<not> rights_contains DERIVE DUPLICATE" "\<not> rights_contains DUPLICATE DERIVE"
  "\<not> rights_contains (rights_bitor DUPLICATE DERIVE) REVOKE"
  by (simp_all add: all_rights_def rights_eval)

lemmas cap_eval [eval_defs] = insert_root_def cap_derive_def cap_copy_def cap_drop_def cap_take_def cap_revoke_def entry_of_def
  resolve_handle_def pop_free_def set_entry_def modify_entry_def arr_get_def unlink_from_siblings_def
  unlink_walk.simps sibling_of_def first_child_of_def push_siblings.simps expand.simps lookup_def free_slot_def
  references_object_def is_full_def MAX_DERIVATION_DEPTH_def CAP_TABLE_CAPACITY_def free_at_def capability_new_def
  table_new_front all_rights_eval root_cap_def map_lookup_def cap_kind_def task_object_def back_slots_empty Let_def

lemma table_tests_pass_1:
  "test_new_table_can_accept_one_root"
  "test_drop_invalidates_handle"
  "test_drop_twice_returns_invalid_handle"
  "test_freed_slot_is_reused_with_bumped_generation"
  "test_cap_copy_with_same_rights_succeeds"
  "test_cap_copy_narrows_rights"
  by (simp_all add: cap_eval cong: test_congs add:
      test_new_table_can_accept_one_root_def
      test_drop_invalidates_handle_def
      test_drop_twice_returns_invalid_handle_def
      test_freed_slot_is_reused_with_bumped_generation_def
      test_cap_copy_with_same_rights_succeeds_def
      test_cap_copy_narrows_rights_def)

lemma table_tests_pass_2:
  "test_cap_copy_rejects_widened_rights"
  "test_cap_copy_without_duplicate_right_fails"
  "test_cap_derive_creates_child_with_narrower_rights"
  "test_cap_derive_without_derive_right_fails"
  "test_cap_derive_rejects_widened_rights"
  "test_cap_revoke_removes_only_descendants"
  by (simp_all add: cap_eval cong: test_congs add:
      test_cap_copy_rejects_widened_rights_def
      test_cap_copy_without_duplicate_right_fails_def
      test_cap_derive_creates_child_with_narrower_rights_def
      test_cap_derive_without_derive_right_fails_def
      test_cap_derive_rejects_widened_rights_def
      test_cap_revoke_removes_only_descendants_def)

lemma table_tests_pass_3:
  "test_cap_revoke_cascades_depth_three"
  "test_references_object_sees_live_caps_only"
  "test_cap_revoke_clears_references_object"
  "test_cap_revoke_without_revoke_right_fails"
  "test_cap_revoke_on_leaf_is_a_noop"
  "test_cap_revoke_on_stale_handle_fails"
  by (simp_all add: cap_eval cong: test_congs add:
      test_cap_revoke_cascades_depth_three_def
      test_references_object_sees_live_caps_only_def
      test_cap_revoke_clears_references_object_def
      test_cap_revoke_without_revoke_right_fails_def
      test_cap_revoke_on_leaf_is_a_noop_def
      test_cap_revoke_on_stale_handle_fails_def)

lemma table_tests_pass_4:
  "test_copy_of_a_child_shares_parent"
  "test_drop_peer_does_not_affect_other_peer"
  "test_cap_drop_on_interior_node_returns_has_children"
  "test_cap_take_returns_capability_and_invalidates_handle"
  "test_cap_take_on_node_with_children_fails"
  "test_cap_take_stale_handle_fails"
  by (simp_all add: cap_eval cong: test_congs add:
      test_copy_of_a_child_shares_parent_def
      test_drop_peer_does_not_affect_other_peer_def
      test_cap_drop_on_interior_node_returns_has_children_def
      test_cap_take_returns_capability_and_invalidates_handle_def
      test_cap_take_on_node_with_children_fails_def
      test_cap_take_stale_handle_fails_def)

lemma table_tests_pass_5:
  "test_cap_take_middle_sibling_preserves_list_integrity"
  "test_cap_take_slot_reusable_with_bumped_generation"
  "test_drop_middle_sibling_preserves_list_integrity"
  "test_cap_copy_on_stale_handle_returns_invalid_handle"
  "test_lookup_on_stale_handle_returns_invalid_handle"
  "test_drop_first_child_updates_parent_first_child_pointer"
  by (simp_all add: cap_eval cong: test_congs add:
      test_cap_take_middle_sibling_preserves_list_integrity_def
      test_cap_take_slot_reusable_with_bumped_generation_def
      test_drop_middle_sibling_preserves_list_integrity_def
      test_cap_copy_on_stale_handle_returns_invalid_handle_def
      test_lookup_on_stale_handle_returns_invalid_handle_def
      test_drop_first_child_updates_parent_first_child_pointer_def)

section \<open>Filling the table\<close>

definition used_slot :: "Capability \<Rightarrow> CapSlot" where
  "used_slot c = \<lparr>cs_entry = Some \<lparr>capability = c, parent = None, first_child = None, next_sibling = None,
     depth = 0\<rparr>, cs_generation = 0, cs_next_free = None\<rparr>"

text \<open>The table after the insertion of \<open>f 0\<close>, \<dots>, \<open>f (n - 1)\<close>.\<close>

definition filled :: "(nat \<Rightarrow> Capability) \<Rightarrow> nat \<Rightarrow> CapabilityTable" where
  "filled f n = \<lparr>ct_slots = map (\<lambda>i. if i < n then used_slot (f i) else free_at (next_after i)) [0..<64],
     ct_free_head = (if n < 64 then Some (of_nat n) else None)\<rparr>"

definition nth_handle :: "nat \<Rightarrow> CapHandle" where
  "nth_handle n = \<lparr>ch_index = of_nat n, ch_generation = 0\<rparr>"

lemma filled_0: "table_new = filled f 0"
  using table_new_slots by (cases table_new) (simp add: filled_def)

lemma unat_u16: "n < 64 \<Longrightarrow> unat (of_nat n :: u16) = n"
  by (simp add: unat_of_nat)

lemma insert_filled:
  assumes "n < 64" and "f n = c"
  shows "insert_root c (filled f n) = (Ret (Ok (nth_handle n)), filled f (Suc n))"
proof -
  let ?f = "\<lambda>n i. if i < n then used_slot (f i) else free_at (next_after i)"
  have "(map (?f n) [0..<64])[n := used_slot c] = map (?f (Suc n)) [0..<64]"
    using assms by (intro nth_equalityI) (auto simp: nth_list_update less_Suc_eq)
  moreover have "next_after n = ct_free_head (filled f (Suc n))" by (simp add: next_after_def filled_def)
  ultimately show ?thesis
    using assms by (simp add: insert_root_def pop_free_def arr_get_def set_entry_def unat_u16 filled_def nth_handle_def
        free_at_def used_slot_def)
qed

lemma fill_all:
  "m + n = 64 \<Longrightarrow> for_each [m..<64] (\<lambda>_. insert_root c) (filled (\<lambda>_. c) m) k =
   k (map nth_handle [m..<64]) (filled (\<lambda>_. c) 64)"
proof (induction n arbitrary: m k)
  case (Suc n)
  then have "m < 64" "Suc m + n = 64" by simp_all
  then show ?case
    using Suc.IH [of "Suc m"] by (simp add: upt_conv_Cons insert_filled del: upt_Suc upt_rec_numeral)
qed simp

lemma is_full_filled: "is_full (filled f n) \<longleftrightarrow> 64 \<le> n"
  by (simp add: is_full_def filled_def)

lemma fill_rest: "m + n = 64 \<Longrightarrow> fill_table n (filled (\<lambda>_. root_cap) m) k = k (filled (\<lambda>_. root_cap) 64)"
proof (induction n arbitrary: m)
  case (Suc n)
  then have "m < 64" "Suc m + n = 64" by simp_all
  then show ?case using Suc.IH [of "Suc m"] by (simp add: insert_filled is_full_filled)
qed (simp add: is_full_filled)

lemma filled_slots:
  "i < 64 \<Longrightarrow> ct_slots (filled f n) ! i = (if i < n then used_slot (f i) else free_at (next_after i))"
  "length (ct_slots (filled f n)) = 64" "ct_free_head (filled f 64) = None" "ct_slots (filled f n) \<noteq> []"
  by (simp_all add: filled_def)

lemma filling_tests_pass: "test_table_exhaustion_returns_caps_exhausted"
  "test_is_full_transitions" "test_cap_derive_on_full_table_returns_caps_exhausted"
proof -
  have front: "map nth_handle [0..<64] ! 0 = \<lparr>ch_index = 0, ch_generation = 0\<rparr>" by (simp add: nth_handle_def)
  note ops = insert_root_def cap_derive_def cap_drop_def cap_take_def entry_of_def resolve_handle_def pop_free_def
    set_entry_def arr_get_def unlink_from_siblings_def free_slot_def is_full_def lookup_def filled_slots used_slot_def
    front CAP_TABLE_CAPACITY_def MAX_DERIVATION_DEPTH_def all_rights_eval root_cap_def capability_new_def Let_def
  show "test_table_exhaustion_returns_caps_exhausted"
    unfolding test_table_exhaustion_returns_caps_exhausted_def CAP_TABLE_CAPACITY_def filled_0 [of "\<lambda>_. root_cap"]
    by (subst fill_all [of 0 64]) (simp_all add: ops cong: test_congs)
  show "test_is_full_transitions"
    unfolding test_is_full_transitions_def CAP_TABLE_CAPACITY_def filled_0 [of "\<lambda>_. root_cap"]
    by (subst fill_all [of 0 64]) (simp_all add: ops cong: test_congs, simp add: filled_def)
  have "test_cap_derive_on_full_table_returns_caps_exhausted \<longleftrightarrow> is_full (filled (\<lambda>_. root_cap) 64) \<and>
      unwrap_err (cap_derive (nth_handle 0) all_rights (task_object 0xCD) (filled (\<lambda>_. root_cap) 64)) CapsExhausted (\<lambda>t.
        is_ok (lookup t (nth_handle 0)))"
    unfolding test_cap_derive_on_full_table_returns_caps_exhausted_def CAP_TABLE_CAPACITY_def filled_0 [of "\<lambda>_. root_cap"]
    by (simp add: insert_filled fill_rest)
  then show "test_cap_derive_on_full_table_returns_caps_exhausted"
    by (simp add: ops nth_handle_def cong: test_congs)
qed

section \<open>The depth limit\<close>

lemma table_new_front_18:
  "\<exists>rest. table_new = \<lparr>ct_slots = [free_at (Some 1), free_at (Some 2), free_at (Some 3), free_at (Some 4), free_at (Some 5),
     free_at (Some 6), free_at (Some 7), free_at (Some 8), free_at (Some 9), free_at (Some 10), free_at (Some 11),
     free_at (Some 12), free_at (Some 13), free_at (Some 14), free_at (Some 15), free_at (Some 16), free_at (Some 17),
     free_at (Some 18)] @ rest, ct_free_head = Some 0\<rparr>"
proof -
  have "[0..<64] = [0, 1, 2, 3, 4, 5, 6, 7, 8, 9, 10, 11, 12, 13, 14, 15, 16, 17] @ [18..<(64 :: nat)]"
    using upt_add_eq_append [of 0 18 46] by (simp add: upt_rec)
  then have "map (\<lambda>i. free_at (next_after i)) [0..<64] =
      map (\<lambda>i. free_at (next_after i)) [0, 1, 2, 3, 4, 5, 6, 7, 8, 9, 10, 11, 12, 13, 14, 15, 16, 17] @
      map (\<lambda>i. free_at (next_after i)) [18..<64]" by simp
  then show ?thesis
    using table_new_slots
    by (cases table_new) (simp add: next_after_def exI [of _ "map (\<lambda>i. free_at (next_after i)) [18..<64]"] del: upt_rec_numeral)
qed

lemma derive_chain_cong: "n = n' \<Longrightarrow> t = t' \<Longrightarrow> derive_chain n c t k = derive_chain n' c t' k"
  by simp

lemma derive_chain_numeral:
  "derive_chain (numeral n) c t k =
   unwrap (cap_derive c all_rights (task_object 0) t) (\<lambda>child t. derive_chain (pred_numeral n) child t k)"
  by (simp add: numeral_eq_Suc)

lemma depth_test_passes: "test_cap_derive_enforces_depth_cap"
proof -
  obtain rest where front: "table_new = \<lparr>ct_slots = [free_at (Some 1), free_at (Some 2), free_at (Some 3),
     free_at (Some 4), free_at (Some 5), free_at (Some 6), free_at (Some 7), free_at (Some 8), free_at (Some 9),
     free_at (Some 10), free_at (Some 11), free_at (Some 12), free_at (Some 13), free_at (Some 14), free_at (Some 15),
     free_at (Some 16), free_at (Some 17), free_at (Some 18)] @ rest, ct_free_head = Some 0\<rparr>"
    using table_new_front_18 by blast
  show ?thesis
    unfolding test_cap_derive_enforces_depth_cap_def front
    by (simp add: insert_root_def cap_derive_def entry_of_def resolve_handle_def pop_free_def set_entry_def
        modify_entry_def arr_get_def MAX_DERIVATION_DEPTH_def free_at_def capability_new_def all_rights_eval root_cap_def
        derive_chain_numeral Let_def cong: test_congs derive_chain_cong)
qed

section \<open>The modules as a whole\<close>

definition table_tests :: "bool list" where
  "table_tests = [
     test_new_table_can_accept_one_root, test_drop_invalidates_handle, test_drop_twice_returns_invalid_handle,
     test_freed_slot_is_reused_with_bumped_generation, test_cap_copy_with_same_rights_succeeds,
     test_cap_copy_narrows_rights, test_cap_copy_rejects_widened_rights, test_cap_copy_without_duplicate_right_fails,
     test_cap_derive_creates_child_with_narrower_rights, test_cap_derive_without_derive_right_fails,
     test_cap_derive_rejects_widened_rights, test_cap_revoke_removes_only_descendants,
     test_cap_revoke_cascades_depth_three, test_references_object_sees_live_caps_only,
     test_cap_revoke_clears_references_object, test_cap_revoke_without_revoke_right_fails,
     test_cap_revoke_on_leaf_is_a_noop, test_cap_revoke_on_stale_handle_fails, test_copy_of_a_child_shares_parent,
     test_drop_peer_does_not_affect_other_peer, test_cap_drop_on_interior_node_returns_has_children,
     test_cap_take_returns_capability_and_invalidates_handle, test_cap_take_on_node_with_children_fails,
     test_cap_take_stale_handle_fails, test_cap_take_middle_sibling_preserves_list_integrity,
     test_cap_take_slot_reusable_with_bumped_generation, test_drop_middle_sibling_preserves_list_integrity,
     test_cap_copy_on_stale_handle_returns_invalid_handle, test_lookup_on_stale_handle_returns_invalid_handle,
     test_drop_first_child_updates_parent_first_child_pointer, test_table_exhaustion_returns_caps_exhausted,
     test_is_full_transitions, test_cap_derive_on_full_table_returns_caps_exhausted,
     test_cap_derive_enforces_depth_cap]"

lemma table_tests_pass: "list_all id table_tests"
  by (simp add: table_tests_def table_tests_pass_1 table_tests_pass_2 table_tests_pass_3 table_tests_pass_4 table_tests_pass_5 filling_tests_pass depth_test_passes)

end
