(* ===== verification/Unit_Tests_Ipc.thy ===== *)
theory Unit_Tests_Ipc
  imports Unit_Tests_Cap Ipc_Properties
begin

text \<open>
  The unit tests of IPC, run on the model: the test module of \<open>kernel/src/ipc/mod.rs\<close>. Tests run in
  a debug build. The endpoint's queues and each party's capability table are threaded separately, as
  the tests do: a call takes the queues with the table of the caller.
\<close>

section \<open>Helpers of the test module\<close>

definition all_ep_rights :: CapRights where
  "all_ep_rights = rights_bitor (rights_bitor (rights_bitor (rights_bitor (rights_bitor SEND RECV) DUPLICATE)
     DERIVE) REVOKE) TRANSFER"

definition all_task_rights :: CapRights where
  "all_task_rights = rights_bitor (rights_bitor (rights_bitor DUPLICATE DERIVE) REVOKE) TRANSFER"

definition setup_ep ::
  "CapRights \<Rightarrow> CapabilityTable \<Rightarrow> EndpointArena \<Rightarrow>
   (EndpointHandle \<Rightarrow> CapHandle \<Rightarrow> CapabilityTable \<Rightarrow> EndpointArena \<Rightarrow> bool) \<Rightarrow> bool" where
  "setup_ep rights table ep_arena k =
     unwrap (create_endpoint True ep_arena (endpoint_new 0)) (\<lambda>ep_handle ep_arena.
       unwrap (insert_root (capability_new rights (ObjEndpoint ep_handle)) table) (\<lambda>cap_handle table.
         k ep_handle cap_handle table ep_arena))"

definition setup_notif ::
  "CapabilityTable \<Rightarrow> NotificationArena \<Rightarrow> (CapHandle \<Rightarrow> CapabilityTable \<Rightarrow> NotificationArena \<Rightarrow> bool) \<Rightarrow> bool" where
  "setup_notif table notif_arena k =
     unwrap (create_notification True notif_arena (notif_new 0)) (\<lambda>notif_handle notif_arena.
       unwrap (insert_root (capability_new (rights_bitor NOTIFY DUPLICATE) (ObjNotification notif_handle)) table)
         (\<lambda>c table. k c table notif_arena))"

definition test_msg :: "u64 \<Rightarrow> Message" where
  "test_msg l = \<lparr>msg_label = l, msg_params = (l, l, l)\<rparr>"

definition handle_at :: "u16 \<Rightarrow> u32 \<Rightarrow> EndpointHandle" where
  "handle_at slot_idx generation = EndpointHandle \<lparr>sid_index = slot_idx, sid_generation = generation\<rparr>"

text \<open>The loop that fills a table with dummy task capabilities until it is full, keeping the first
  handle; \<open>n\<close> is the number of rounds the loop makes.\<close>

fun fill_dummies ::
  "nat \<Rightarrow> u16 \<Rightarrow> CapHandle option \<Rightarrow> CapabilityTable \<Rightarrow> (CapHandle option \<Rightarrow> CapabilityTable \<Rightarrow> bool) \<Rightarrow> bool" where
  "fill_dummies 0 tag first_dummy t k = (is_full t \<and> k first_dummy t)"
| "fill_dummies (Suc n) tag first_dummy t k =
     (\<not> is_full t \<and> unwrap (insert_root (capability_new all_rights (task_object tag)) t) (\<lambda>h t.
       fill_dummies n (tag + 1) (if first_dummy = None then Some h else first_dummy) t k))"

section \<open>The tests\<close>

definition test_sender_first_delivers_on_recv :: bool where
  "test_sender_first_delivers_on_recv =
     setup_ep all_ep_rights table_new endpoint_arena_new (\<lambda>_ ep_cap sender_table ep_arena.
       unwrap (ipc_send True ep_arena ep_cap (test_msg 42) None (queues_new, sender_table)) (\<lambda>res (queues, sender_table).
         res = Enqueued \<and>
         (case map_lookup cap_object sender_table ep_cap of
            Some (ObjEndpoint h) \<Rightarrow>
              unwrap (insert_root (capability_new all_ep_rights (ObjEndpoint h)) table_new) (\<lambda>recv_ep_cap recv_table.
                unwrap (ipc_recv True ep_arena recv_ep_cap (queues, recv_table)) (\<lambda>recv_outcome _.
                  recv_outcome = Received (test_msg 42) None))
          | _ \<Rightarrow> False)))"

definition test_receiver_first_delivers_on_send :: bool where
  "test_receiver_first_delivers_on_send =
     setup_ep all_ep_rights table_new endpoint_arena_new (\<lambda>ep_handle recv_ep_cap recv_table ep_arena.
       unwrap (ipc_recv True ep_arena recv_ep_cap (queues_new, recv_table)) (\<lambda>outcome1 (queues, recv_table).
         outcome1 = Pending \<and>
         unwrap (insert_root (capability_new all_ep_rights (ObjEndpoint ep_handle)) table_new) (\<lambda>sender_ep_cap sender_table.
           unwrap (ipc_send True ep_arena sender_ep_cap (test_msg 99) None (queues, sender_table)) (\<lambda>send_outcome (queues, _).
             send_outcome = Delivered \<and>
             unwrap (ipc_recv True ep_arena recv_ep_cap (queues, recv_table)) (\<lambda>outcome2 _.
               outcome2 = Received (test_msg 99) None)))))"

definition test_send_transfers_cap_atomically :: bool where
  "test_send_transfers_cap_atomically =
     setup_ep all_ep_rights table_new endpoint_arena_new (\<lambda>ep_handle ep_cap sender_table ep_arena.
       unwrap (create_endpoint True ep_arena (endpoint_new 1)) (\<lambda>xfer_ep_handle ep_arena.
       unwrap (insert_root (capability_new all_task_rights (ObjEndpoint xfer_ep_handle)) sender_table) (\<lambda>xfer_cap_h sender_table.
         unwrap (ipc_send True ep_arena ep_cap (test_msg 1) (Some xfer_cap_h) (queues_new, sender_table)) (\<lambda>_ (queues, sender_table).
           is_err (lookup sender_table xfer_cap_h) \<and>
           unwrap (insert_root (capability_new all_ep_rights (ObjEndpoint ep_handle)) table_new) (\<lambda>recv_ep_cap recv_table.
             unwrap (ipc_recv True ep_arena recv_ep_cap (queues, recv_table)) (\<lambda>res (_, recv_table).
               case res of
                 Received msg (Some recv_cap_h) \<Rightarrow> msg = test_msg 1 \<and> is_ok (lookup recv_table recv_cap_h)
               | _ \<Rightarrow> False))))))"

definition test_receiver_first_then_send_with_cap :: bool where
  "test_receiver_first_then_send_with_cap =
     setup_ep all_ep_rights table_new endpoint_arena_new (\<lambda>ep_handle recv_ep_cap recv_table ep_arena.
       unwrap (ipc_recv True ep_arena recv_ep_cap (queues_new, recv_table)) (\<lambda>_ (queues, recv_table).
       unwrap (create_endpoint True ep_arena (endpoint_new 2)) (\<lambda>task_ep_handle ep_arena.
       unwrap (insert_root (capability_new all_task_rights (ObjEndpoint task_ep_handle)) table_new) (\<lambda>xfer_cap_h sender_table.
       unwrap (insert_root (capability_new all_ep_rights (ObjEndpoint ep_handle)) sender_table) (\<lambda>sender_ep_cap sender_table.
         unwrap (ipc_send True ep_arena sender_ep_cap (test_msg 77) (Some xfer_cap_h) (queues, sender_table)) (\<lambda>send_out (queues, sender_table).
           send_out = Delivered \<and> is_err (lookup sender_table xfer_cap_h) \<and>
             unwrap (ipc_recv True ep_arena recv_ep_cap (queues, recv_table)) (\<lambda>res (_, recv_table).
               case res of
                 Received msg (Some recv_cap_h) \<Rightarrow> msg = test_msg 77 \<and> is_ok (lookup recv_table recv_cap_h)
               | _ \<Rightarrow> False)))))))"

definition test_send_without_send_right_fails :: bool where
  "test_send_without_send_right_fails =
     setup_ep RECV table_new endpoint_arena_new (\<lambda>_ ep_cap table ep_arena.
       unwrap_err (ipc_send True ep_arena ep_cap (test_msg 0) None (queues_new, table)) InvalidCapability (\<lambda>_. True))"

definition test_recv_without_recv_right_fails :: bool where
  "test_recv_without_recv_right_fails =
     setup_ep SEND table_new endpoint_arena_new (\<lambda>_ ep_cap table ep_arena.
       unwrap_err (ipc_recv True ep_arena ep_cap (queues_new, table)) InvalidCapability (\<lambda>_. True))"

definition test_second_send_when_pending_fails :: bool where
  "test_second_send_when_pending_fails =
     setup_ep all_ep_rights table_new endpoint_arena_new (\<lambda>_ ep_cap table ep_arena.
       unwrap (ipc_send True ep_arena ep_cap (test_msg 1) None (queues_new, table)) (\<lambda>_ s.
         unwrap_err (ipc_send True ep_arena ep_cap (test_msg 2) None s) QueueFull (\<lambda>_. True)))"

definition test_second_recv_when_waiting_fails :: bool where
  "test_second_recv_when_waiting_fails =
     setup_ep all_ep_rights table_new endpoint_arena_new (\<lambda>_ ep_cap table ep_arena.
       unwrap (ipc_recv True ep_arena ep_cap (queues_new, table)) (\<lambda>_ s.
         unwrap_err (ipc_recv True ep_arena ep_cap s) QueueFull (\<lambda>_. True)))"

definition test_send_with_bad_transfer_cap_preserves_recv_waiting :: bool where
  "test_send_with_bad_transfer_cap_preserves_recv_waiting =
     setup_ep all_ep_rights table_new endpoint_arena_new (\<lambda>ep_handle recv_ep_cap recv_table ep_arena.
       unwrap (ipc_recv True ep_arena recv_ep_cap (queues_new, recv_table)) (\<lambda>_ (queues, recv_table).
       unwrap (insert_root (capability_new all_ep_rights (ObjEndpoint ep_handle)) table_new) (\<lambda>sender_ep_cap sender_table.
       unwrap (insert_root root_cap sender_table) (\<lambda>parent_h sender_table.
       unwrap (cap_derive parent_h all_rights (task_object 1) sender_table) (\<lambda>_ sender_table.
         unwrap_err (ipc_send True ep_arena sender_ep_cap (test_msg 0) (Some parent_h) (queues, sender_table))
           InvalidTransferCap (\<lambda>(queues, _).
             unwrap_err (ipc_recv True ep_arena recv_ep_cap (queues, recv_table)) QueueFull (\<lambda>_. True)))))))"

definition test_send_without_transfer_right_on_xfer_cap_fails :: bool where
  "test_send_without_transfer_right_on_xfer_cap_fails =
     setup_ep all_ep_rights table_new endpoint_arena_new (\<lambda>_ ep_cap table ep_arena.
       unwrap (insert_root (capability_new (rights_bitor DUPLICATE DERIVE) (task_object 1)) table) (\<lambda>no_transfer_h table.
         unwrap_err (ipc_send True ep_arena ep_cap (test_msg 0) (Some no_transfer_h) (queues_new, table))
           InvalidTransferCap (\<lambda>_. True)))"

definition test_stale_queue_state_reset_on_slot_reuse :: bool where
  "test_stale_queue_state_reset_on_slot_reuse =
     setup_ep all_ep_rights table_new endpoint_arena_new (\<lambda>ep_handle ep_cap table ep_arena.
       unwrap (ipc_recv True ep_arena ep_cap (queues_new, table)) (\<lambda>_ (queues, table).
       unwrap (cap_drop ep_cap table) (\<lambda>_ table.
       unwrap (lift_run (destroy_endpoint ep_arena ep_handle)) (\<lambda>_ ep_arena.
       setup_ep all_ep_rights table ep_arena (\<lambda>_ new_ep_cap table ep_arena.
         unwrap (ipc_send True ep_arena new_ep_cap (test_msg 7) None (queues, table)) (\<lambda>res _.
           res = Enqueued))))))"

definition test_notify_sets_bits :: bool where
  "test_notify_sets_bits =
     setup_notif table_new notification_arena_new (\<lambda>notif_cap table notif_arena.
       unwrap (ipc_notify notif_cap table 5 notif_arena) (\<lambda>_ notif_arena.
       unwrap (ipc_notify notif_cap table 10 notif_arena) (\<lambda>_ notif_arena.
         case map_lookup cap_object table notif_cap of
           Some (ObjNotification notif_handle) \<Rightarrow>
             map_option notif_word (get notif_arena (notif_slot notif_handle)) = Some 15
         | _ \<Rightarrow> False)))"

definition test_notify_without_notify_right_fails :: bool where
  "test_notify_without_notify_right_fails =
     unwrap (create_notification True notification_arena_new (notif_new 0)) (\<lambda>notif_handle notif_arena.
       unwrap (insert_root (capability_new DUPLICATE (ObjNotification notif_handle)) table_new) (\<lambda>cap_h table.
         unwrap_err (ipc_notify cap_h table 255 notif_arena) InvalidCapability (\<lambda>_. True)))"

definition test_blocked_sender_delivered_on_subsequent_recv :: bool where
  "test_blocked_sender_delivered_on_subsequent_recv =
     setup_ep all_ep_rights table_new endpoint_arena_new (\<lambda>ep_handle ep_cap sender_table ep_arena.
       unwrap (ipc_send True ep_arena ep_cap (test_msg 55) None (queues_new, sender_table)) (\<lambda>res (queues, _).
         res = Enqueued \<and>
         unwrap (insert_root (capability_new all_ep_rights (ObjEndpoint ep_handle)) table_new) (\<lambda>recv_ep_cap recv_table.
           unwrap (ipc_recv True ep_arena recv_ep_cap (queues, recv_table)) (\<lambda>res _.
             res = Received (test_msg 55) None))))"

definition test_recv_with_full_table_preserves_pending_cap :: bool where
  "test_recv_with_full_table_preserves_pending_cap =
     setup_ep all_ep_rights table_new endpoint_arena_new (\<lambda>ep_handle send_ep_cap sender_table ep_arena.
       unwrap (create_endpoint True ep_arena (endpoint_new 0xBB)) (\<lambda>xfer_target ep_arena.
       unwrap (insert_root (capability_new all_task_rights (ObjEndpoint xfer_target)) sender_table) (\<lambda>xfer_cap_h sender_table.
       unwrap (ipc_send True ep_arena send_ep_cap (test_msg 7) (Some xfer_cap_h) (queues_new, sender_table)) (\<lambda>send_outcome (queues, _).
       send_outcome = Enqueued \<and>
       unwrap (insert_root (capability_new RECV (ObjEndpoint ep_handle)) table_new) (\<lambda>recv_ep_cap recv_table.
       fill_dummies (CAP_TABLE_CAPACITY - 1) 0 None recv_table (\<lambda>first_dummy recv_table.
         is_full recv_table \<and>
         unwrap_err (ipc_recv True ep_arena recv_ep_cap (queues, recv_table)) ReceiverTableFull (\<lambda>(queues, recv_table).
         case first_dummy of
           None \<Rightarrow> False
         | Some dummy \<Rightarrow>
             unwrap (cap_drop dummy recv_table) (\<lambda>_ recv_table.
               \<not> is_full recv_table \<and>
             unwrap (ipc_recv True ep_arena recv_ep_cap (queues, recv_table)) (\<lambda>res (_, recv_table).
               case res of
                 Received msg (Some recv_cap_h) \<Rightarrow> msg = test_msg 7 \<and> is_ok (lookup recv_table recv_cap_h)
               | _ \<Rightarrow> False)))))))))"

definition test_stale_send_pending_with_some_cap_panics_in_debug :: bool where
  "test_stale_send_pending_with_some_cap_panics_in_debug =
     (let leaked_cap = capability_new all_rights (task_object 0xDE);
          queues = set_state 0 (SendPending (test_msg 0xCAFE) (Some leaked_cap)) queues_new;
          queues = queues\<lparr>iq_generations := (iq_generations queues)[0 := 0]\<rparr>
      in should_panic (fst (peek_state True (handle_at 0 1) queues)))"

definition test_stale_recv_waiting_resets_silently :: bool where
  "test_stale_recv_waiting_resets_silently =
     (let queues = set_state 0 RecvWaiting queues_new;
          queues = queues\<lparr>iq_generations := (iq_generations queues)[0 := 0]\<rparr>
      in returns (peek_state True (handle_at 0 1) queues) (\<lambda>_ queues.
           iq_states queues ! 0 = Idle \<and> iq_generations queues ! 0 = 1))"

definition test_stale_send_pending_without_cap_resets_silently :: bool where
  "test_stale_send_pending_without_cap_resets_silently =
     (let queues = set_state 0 (SendPending (test_msg 0xBEEF) None) queues_new;
          queues = queues\<lparr>iq_generations := (iq_generations queues)[0 := 0]\<rparr>
      in returns (peek_state True (handle_at 0 1) queues) (\<lambda>_ queues.
           iq_states queues ! 0 = Idle \<and> iq_generations queues ! 0 = 1))"

section \<open>Evaluation\<close>

lemma ep_rights_eval:
  "rights_contains all_ep_rights SEND" "rights_contains all_ep_rights RECV" "rights_contains all_task_rights TRANSFER"
  "\<not> rights_contains SEND RECV" "\<not> rights_contains RECV SEND" "rights_contains RECV RECV"
  "\<not> rights_contains (rights_bitor DUPLICATE DERIVE) TRANSFER" "rights_contains (rights_bitor NOTIFY DUPLICATE) NOTIFY"
  "\<not> rights_contains DUPLICATE NOTIFY"
  by (simp_all add: all_ep_rights_def all_task_rights_def rights_eval)

lemmas ipc_eval [eval_defs] = ipc_send_def ipc_recv_def ipc_notify_def validate_ep_cap_def validate_notif_cap_def check_transfer_def
  take_cap_if_some_def install_cap_if_some_def peek_state_def state_of_def reset_if_stale_generation_def set_state_def
  queues_new_def setup_ep_def setup_notif_def ep_rights_eval handle_at_def should_panic_def
  object_eval arena_eval

lemma ipc_tests_pass_1:
  "test_sender_first_delivers_on_recv"
  "test_receiver_first_delivers_on_send"
  "test_send_transfers_cap_atomically"
  "test_receiver_first_then_send_with_cap"
  "test_send_without_send_right_fails"
  "test_recv_without_recv_right_fails"
  by (simp_all add: eval_defs cong: test_congs add:
      test_sender_first_delivers_on_recv_def
      test_receiver_first_delivers_on_send_def
      test_send_transfers_cap_atomically_def
      test_receiver_first_then_send_with_cap_def
      test_send_without_send_right_fails_def
      test_recv_without_recv_right_fails_def)

lemma ipc_tests_pass_2:
  "test_second_send_when_pending_fails"
  "test_second_recv_when_waiting_fails"
  "test_send_with_bad_transfer_cap_preserves_recv_waiting"
  "test_send_without_transfer_right_on_xfer_cap_fails"
  "test_stale_queue_state_reset_on_slot_reuse"
  "test_notify_sets_bits"
  by (simp_all add: eval_defs cong: test_congs add:
      test_second_send_when_pending_fails_def
      test_second_recv_when_waiting_fails_def
      test_send_with_bad_transfer_cap_preserves_recv_waiting_def
      test_send_without_transfer_right_on_xfer_cap_fails_def
      test_stale_queue_state_reset_on_slot_reuse_def
      test_notify_sets_bits_def)

lemma ipc_tests_pass_3:
  "test_notify_without_notify_right_fails"
  "test_blocked_sender_delivered_on_subsequent_recv"
  "test_stale_send_pending_with_some_cap_panics_in_debug"
  "test_stale_recv_waiting_resets_silently"
  "test_stale_send_pending_without_cap_resets_silently"
  by (simp_all add: eval_defs cong: test_congs add:
      test_notify_without_notify_right_fails_def
      test_blocked_sender_delivered_on_subsequent_recv_def
      test_stale_send_pending_with_some_cap_panics_in_debug_def
      test_stale_recv_waiting_resets_silently_def
      test_stale_send_pending_without_cap_resets_silently_def)

section \<open>Filling the receiver's table\<close>

definition dummies :: "EndpointHandle \<Rightarrow> nat \<Rightarrow> Capability" where
  "dummies h n = (if n = 0 then capability_new RECV (ObjEndpoint h)
     else capability_new all_rights (task_object (of_nat (n - 1))))"

lemma fill_dummies_some:
  "m + n = 64 \<Longrightarrow> 0 < m \<Longrightarrow> fill_dummies n (of_nat (m - 1)) (Some d) (filled (dummies h) m) k =
   k (Some d) (filled (dummies h) 64)"
proof (induction n arbitrary: m)
  case (Suc n)
  then have "m < 64" "Suc m + n = 64" "dummies h m = capability_new all_rights (task_object (of_nat (m - 1)))"
    by (simp_all add: dummies_def)
  moreover have "(of_nat (m - 1) :: u16) + 1 = of_nat (Suc m - 1)" using Suc.prems by (cases m) simp_all
  ultimately show ?case
    using Suc.IH [of "Suc m"] by (simp add: insert_filled is_full_filled)
qed (simp add: is_full_filled)

lemma fill_dummies_first:
  "fill_dummies 63 0 None (filled (dummies h) 1) k = k (Some (nth_handle 1)) (filled (dummies h) 64)"
proof -
  have "(63 :: nat) = Suc 62" by simp
  moreover have "dummies h 1 = capability_new all_rights (task_object 0)" by (simp add: dummies_def)
  ultimately show ?thesis
    using fill_dummies_some [of 2 62 "nth_handle 1" h k]
    by (simp only: fill_dummies.simps) (simp add: insert_filled is_full_filled numeral_2_eq_2)
qed

text \<open>The sender's half of the test: what is left of it are the arena and the queue.\<close>

definition two_endpoints :: EndpointArena where
  "two_endpoints = snd (create_endpoint True (snd (create_endpoint True endpoint_arena_new (endpoint_new 0))) (endpoint_new 0xBB))"

definition parked :: IpcQueues where
  "parked = set_state 0 (SendPending (test_msg 7) (Some (capability_new all_task_rights (ObjEndpoint (handle_at 1 0))))) queues_new"

lemma sender_half:
  "setup_ep all_ep_rights table_new endpoint_arena_new (\<lambda>ep_handle send_ep_cap sender_table ep_arena.
     unwrap (create_endpoint True ep_arena (endpoint_new 0xBB)) (\<lambda>xfer_target ep_arena.
     unwrap (insert_root (capability_new all_task_rights (ObjEndpoint xfer_target)) sender_table) (\<lambda>xfer_cap_h sender_table.
     unwrap (ipc_send True ep_arena send_ep_cap (test_msg 7) (Some xfer_cap_h) (queues_new, sender_table))
       (\<lambda>res (queues, _). K ep_handle ep_arena res queues)))) \<longleftrightarrow>
   K (handle_at 0 0) two_endpoints Enqueued parked"
  by (simp add: two_endpoints_def parked_def eval_defs cong: test_congs)

lemma two_endpoints_get: "get two_endpoints \<lparr>sid_index = 0, sid_generation = 0\<rparr> \<noteq> None"
  by (simp add: two_endpoints_def object_eval arena_eval)

lemma receiver_half:
  "insert_root (capability_new RECV (ObjEndpoint h)) table_new = (Ret (Ok (nth_handle 0)), filled (dummies h) 1)"
  using insert_filled [of 0 "dummies h"] by (simp add: dummies_def filled_0 [of "dummies h"])

lemma full_table_test_passes: "test_recv_with_full_table_preserves_pending_cap"
proof -
  obtain e where e: "get two_endpoints \<lparr>sid_index = 0, sid_generation = 0\<rparr> = Some e"
    using two_endpoints_get by blast
  note table_ops = insert_root_def cap_drop_def lookup_def entry_of_def resolve_handle_def pop_free_def set_entry_def
    arr_get_def unlink_from_siblings_def free_slot_def is_full_def filled_slots used_slot_def capability_new_def
    nth_handle_def dummies_def Let_def
  note ipc_ops = ipc_recv_def validate_ep_cap_def install_cap_if_some_def peek_state_def state_of_def
    reset_if_stale_generation_def set_state_def queues_new_def parked_def handle_at_def ep_rights_eval arena_capacities
  show ?thesis
    unfolding test_recv_with_full_table_preserves_pending_cap_def sender_half receiver_half unwrap.simps
      CAP_TABLE_CAPACITY_def
    by (simp add: fill_dummies_first [unfolded One_nat_def] e table_ops ipc_ops cong: test_congs)
qed

section \<open>The modules as a whole\<close>

definition ipc_tests :: "bool list" where
  "ipc_tests = [
     test_sender_first_delivers_on_recv, test_receiver_first_delivers_on_send, test_send_transfers_cap_atomically,
     test_receiver_first_then_send_with_cap, test_send_without_send_right_fails, test_recv_without_recv_right_fails,
     test_second_send_when_pending_fails, test_second_recv_when_waiting_fails,
     test_send_with_bad_transfer_cap_preserves_recv_waiting, test_send_without_transfer_right_on_xfer_cap_fails,
     test_stale_queue_state_reset_on_slot_reuse, test_notify_sets_bits, test_notify_without_notify_right_fails,
     test_blocked_sender_delivered_on_subsequent_recv, test_stale_send_pending_with_some_cap_panics_in_debug,
     test_stale_recv_waiting_resets_silently, test_stale_send_pending_without_cap_resets_silently,
     test_recv_with_full_table_preserves_pending_cap]"

lemma ipc_tests_pass: "list_all id ipc_tests"
  by (simp add: ipc_tests_def ipc_tests_pass_1 ipc_tests_pass_2 ipc_tests_pass_3 full_table_test_passes)

end
