(* ===== verification/Unit_Tests_Sched.thy ===== *)
theory Unit_Tests_Sched
  imports Unit_Tests_Ipc Scheduler
begin

text \<open>
  The unit tests of the scheduler, run on the model: the test module of \<open>kernel/src/sched/mod.rs\<close>.
  The two CPUs of the module do not switch: their \<open>context_switch\<close> marks the saved context and comes
  straight back, so a bridge call that reaches the switch goes on at once. Tests run in a debug build.
\<close>

section \<open>The CPUs of the test module\<close>

record FakeCtx =
  switched :: bool

definition fake_ctx_default :: FakeCtx where
  "fake_ctx_default = \<lparr>switched = False\<rparr>"

text \<open>What \<open>context_switch\<close> does to the scheduler's contexts and to the queues, for the slot of the
  task that is switched away from.\<close>

type_synonym cpu_switch = "nat \<Rightarrow> FakeCtx kernel \<Rightarrow> FakeCtx kernel"

definition fake_cpu_switch :: cpu_switch where
  "fake_cpu_switch cur k = (case k of (s, qt) \<Rightarrow>
     (s\<lparr>sch_contexts := (sch_contexts s)[cur := (sch_contexts s ! cur)\<lparr>switched := True\<rparr>]\<rparr>, qt))"

definition reset_queues_switch :: cpu_switch where
  "reset_queues_switch cur k = (case fake_cpu_switch cur k of (s, (q, t)) \<Rightarrow> (s, (queues_new, t)))"

definition fake_init_context :: "FakeCtx \<Rightarrow> unit \<Rightarrow> unit \<Rightarrow> FakeCtx" where
  "fake_init_context ctx entry stack_top = ctx"

text \<open>The calls on such a CPU: the part up to the switch, the switch, and what follows it.\<close>

definition yield_now_on ::
  "cpu_switch \<Rightarrow> FakeCtx kernel \<Rightarrow> (SchedError, unit) result run \<times> FakeCtx kernel" where
  "yield_now_on cpu k = and_then (on_fst (yield_now True) k) (\<lambda>p k. case p of
     Done _ \<Rightarrow> (Ret (Ok ()), k)
   | SwitchTo cur nxt _ \<Rightarrow> (Ret (Ok ()), cpu cur k))"

definition ipc_send_and_yield_on ::
  "cpu_switch \<Rightarrow> EndpointArena \<Rightarrow> CapHandle \<Rightarrow> Message \<Rightarrow> CapHandle option \<Rightarrow> FakeCtx kernel \<Rightarrow>
   (SchedError, SendOutcome) result run \<times> FakeCtx kernel" where
  "ipc_send_and_yield_on cpu ep_arena ep_cap msg transfer k =
     and_then (ipc_send_and_yield True ep_arena ep_cap msg transfer k) (\<lambda>p k. case p of
       Done res \<Rightarrow> (Ret (Ok res), k)
     | SwitchTo cur nxt r \<Rightarrow> (case r of
         ResumeSend res \<Rightarrow> (Ret (Ok res), cpu cur k)
       | _ \<Rightarrow> (Panic, k)))"

definition ipc_recv_and_yield_on ::
  "cpu_switch \<Rightarrow> EndpointArena \<Rightarrow> CapHandle \<Rightarrow> FakeCtx kernel \<Rightarrow>
   (SchedError, RecvOutcome) result run \<times> FakeCtx kernel" where
  "ipc_recv_and_yield_on cpu ep_arena ep_cap k =
     and_then (ipc_recv_and_yield True ep_arena ep_cap k) (\<lambda>p k. case p of
       Done res \<Rightarrow> (Ret (Ok res), k)
     | SwitchTo cur nxt r \<Rightarrow> (case r of
         ResumeRecv c \<Rightarrow> on_snd (ipc_recv_resume True ep_arena c) (cpu cur k)
       | _ \<Rightarrow> (Panic, k)))"

section \<open>Helpers of the test module\<close>

definition task_handle :: "u16 \<Rightarrow> TaskHandle" where
  "task_handle i = TaskHandle \<lparr>sid_index = i, sid_generation = 0\<rparr>"

definition ep_handle :: "u16 \<Rightarrow> EndpointHandle" where
  "ep_handle i = EndpointHandle \<lparr>sid_index = i, sid_generation = 0\<rparr>"

text \<open>\<open>sched.add_task(&cpu, h, spin_entry(), stack.top()).unwrap()\<close>, and the test's own
  \<open>sched.ready.dequeue()\<close>.\<close>

definition add_tasks :: "TaskHandle list \<Rightarrow> (FakeCtx Scheduler \<Rightarrow> bool) \<Rightarrow> bool" where
  "add_tasks hs k = for_each hs (\<lambda>h. add_task fake_init_context h () ()) (scheduler_new fake_ctx_default) (\<lambda>_. k)"

definition drop_head :: "FakeCtx Scheduler \<Rightarrow> (FakeCtx Scheduler \<Rightarrow> bool) \<Rightarrow> bool" where
  "drop_head s k = returns (dequeue (sch_ready s)) (\<lambda>_ r. k (s\<lparr>sch_ready := r\<rparr>))"

definition setup_single_task_with_recv_cap ::
  "TaskHandle \<Rightarrow> EndpointArena \<Rightarrow> CapabilityTable \<Rightarrow>
   (CapHandle \<Rightarrow> FakeCtx Scheduler \<Rightarrow> EndpointArena \<Rightarrow> CapabilityTable \<Rightarrow> bool) \<Rightarrow> bool" where
  "setup_single_task_with_recv_cap task ep_arena table k =
     add_tasks [task] (\<lambda>sched. drop_head sched (\<lambda>sched.
       let sched = sched\<lparr>sch_current := Some task\<rparr> in
       unwrap (create_endpoint True ep_arena (endpoint_new 0)) (\<lambda>ep ep_arena.
         unwrap (insert_root (capability_new RECV (ObjEndpoint ep)) table) (\<lambda>cap_h table.
           k cap_h sched ep_arena table))))"

definition setup_send_endpoint ::
  "CapRights \<Rightarrow> EndpointArena \<Rightarrow> CapabilityTable \<Rightarrow>
   (EndpointHandle \<Rightarrow> CapHandle \<Rightarrow> EndpointArena \<Rightarrow> CapabilityTable \<Rightarrow> bool) \<Rightarrow> bool" where
  "setup_send_endpoint rights ep_arena table k =
     unwrap (create_endpoint True ep_arena (endpoint_new 0)) (\<lambda>ep ep_arena.
       unwrap (insert_root (capability_new rights (ObjEndpoint ep)) table) (\<lambda>cap_h table.
         k ep cap_h ep_arena table))"

definition send_msg :: "u64 \<Rightarrow> Message" where
  "send_msg l = \<lparr>msg_label = l, msg_params = (l, l, l)\<rparr>"

section \<open>The tests\<close>

definition test_queue_enqueue_dequeue_fifo_order :: bool where
  "test_queue_enqueue_dequeue_fifo_order =
     unwrap (enqueue (task_handle 0) (queue_new 4)) (\<lambda>_ q.
     unwrap (enqueue (task_handle 1) q) (\<lambda>_ q.
     returns (dequeue q) (\<lambda>r q. r = Some (task_handle 0) \<and>
     returns (dequeue q) (\<lambda>r q. r = Some (task_handle 1) \<and>
     returns (dequeue q) (\<lambda>r q. r = None)))))"

definition test_queue_full_returns_error :: bool where
  "test_queue_full_returns_error =
     unwrap (enqueue (task_handle 0) (queue_new 2)) (\<lambda>_ q.
     unwrap (enqueue (task_handle 1) q) (\<lambda>_ q.
       is_err (fst (enqueue (task_handle 2) q))))"

definition test_queue_empty_dequeue_is_none :: bool where
  "test_queue_empty_dequeue_is_none =
     returns (dequeue (queue_new 4)) (\<lambda>r _. r = None)"

definition test_queue_wraps_around :: bool where
  "test_queue_wraps_around =
     unwrap (enqueue (task_handle 0) (queue_new 2)) (\<lambda>_ q.
     returns (dequeue q) (\<lambda>_ q.
     unwrap (enqueue (task_handle 1) q) (\<lambda>_ q.
     returns (dequeue q) (\<lambda>r _. r = Some (task_handle 1)))))"

definition test_queue_len_and_is_empty :: bool where
  "test_queue_len_and_is_empty =
     (let q = queue_new 4 in
      queue_is_empty q \<and> queue_len q = 0 \<and>
      unwrap (enqueue (task_handle 0) q) (\<lambda>_ q. \<not> queue_is_empty q \<and> queue_len q = 1))"

definition test_add_task_sets_ready_state_and_stores_handle :: bool where
  "test_add_task_sets_ready_state_and_stores_handle =
     add_tasks [task_handle 0] (\<lambda>sched.
       sch_states sched ! 0 = TaskReady \<and> sch_handles sched ! 0 = Some (task_handle 0) \<and>
       queue_len (sch_ready sched) = 1)"

definition test_yield_now_switches_context_and_updates_current :: bool where
  "test_yield_now_switches_context_and_updates_current =
     add_tasks [task_handle 0, task_handle 1] (\<lambda>sched. drop_head sched (\<lambda>sched.
       let sched = sched\<lparr>sch_current := Some (task_handle 0)\<rparr> in
       queue_len (sch_ready sched) = 1 \<and>
       unwrap (yield_now_on fake_cpu_switch (sched, (queues_new, table_new))) (\<lambda>_ (sched, _).
         sch_current sched = Some (task_handle 1) \<and> sch_states sched ! 0 = TaskReady \<and>
         sch_states sched ! 1 = TaskReady \<and> switched (sch_contexts sched ! 0))))"

definition test_yield_now_with_no_current_returns_error :: bool where
  "test_yield_now_with_no_current_returns_error =
     unwrap_err (yield_now_on fake_cpu_switch (scheduler_new fake_ctx_default, (queues_new, table_new)))
       NoCurrentTask (\<lambda>_. True)"

definition test_unblock_receiver_on_moves_task_to_ready :: bool where
  "test_unblock_receiver_on_moves_task_to_ready =
     (let sched = scheduler_new fake_ctx_default;
          sched = sched\<lparr>sch_states := (sch_states sched)[0 := TaskBlocked (ep_handle 0)],
            sch_handles := (sch_handles sched)[0 := Some (task_handle 0)]\<rparr>
      in returns (unblock_receiver_on (ep_handle 0) sched) (\<lambda>_ sched. 
           sch_states sched ! 0 = TaskReady \<and> queue_len (sch_ready sched) = 1))"

definition test_unblock_receiver_on_wrong_ep_is_noop :: bool where
  "test_unblock_receiver_on_wrong_ep_is_noop =
     (let sched = scheduler_new fake_ctx_default;
          sched = sched\<lparr>sch_states := (sch_states sched)[0 := TaskBlocked (ep_handle 0)],
            sch_handles := (sch_handles sched)[0 := Some (task_handle 0)]\<rparr>
      in returns (unblock_receiver_on (ep_handle 1) sched) (\<lambda>_ sched. 
           sch_states sched ! 0 = TaskBlocked (ep_handle 0) \<and> queue_is_empty (sch_ready sched)))"

definition test_task_state_variants_are_distinct :: bool where
  "test_task_state_variants_are_distinct \<longleftrightarrow>
     TaskIdle \<noteq> TaskReady \<and> TaskReady \<noteq> TaskBlocked (ep_handle 0) \<and> TaskIdle \<noteq> TaskBlocked (ep_handle 0) \<and>
     TaskBlocked (ep_handle 0) = TaskBlocked (ep_handle 0)"

definition test_ipc_recv_and_yield_returns_deadlock_when_ready_queue_empty :: bool where
  "test_ipc_recv_and_yield_returns_deadlock_when_ready_queue_empty =
     setup_single_task_with_recv_cap (task_handle 0) endpoint_arena_new table_new (\<lambda>ep_cap sched ep_arena table.
       let prior_current = sch_current sched; prior_state = sch_states sched ! 0 in
       prior_current = Some (task_handle 0) \<and> prior_state = TaskReady \<and>
       unwrap_err (ipc_recv_and_yield_on fake_cpu_switch ep_arena ep_cap (sched, (queues_new, table))) Deadlock
         (\<lambda>(sched, _). sch_current sched = prior_current \<and> sch_states sched ! 0 = prior_state \<and>
            queue_is_empty (sch_ready sched)))"

definition test_ipc_recv_and_yield_resume_pending_returns_typed_err :: bool where
  "test_ipc_recv_and_yield_resume_pending_returns_typed_err =
     unwrap (create_endpoint True endpoint_arena_new (endpoint_new 0)) (\<lambda>ep ep_arena.
       sid_generation (endpoint_slot ep) = 0 \<and>
       unwrap (insert_root (capability_new RECV (ObjEndpoint ep)) table_new) (\<lambda>ep_cap table.
       add_tasks [task_handle 0, task_handle 1] (\<lambda>sched. drop_head sched (\<lambda>sched.
         let sched = sched\<lparr>sch_current := Some (task_handle 0)\<rparr> in
         unwrap_err (ipc_recv_and_yield_on reset_queues_switch ep_arena ep_cap (sched, (queues_new, table)))
           (IpcErr PendingAfterResume) (\<lambda>_. True)))))"

definition test_start_prelude_dispatches_head_and_marks_ready :: bool where
  "test_start_prelude_dispatches_head_and_marks_ready =
     add_tasks [task_handle 0, task_handle 1] (\<lambda>sched.
       queue_len (sch_ready sched) = 2 \<and> sch_current sched = None \<and>
       returns (start_prelude sched) (\<lambda>next_idx sched.
         next_idx = 0 \<and> sch_states sched ! next_idx = TaskReady \<and> sch_current sched = Some (task_handle 0) \<and>
         queue_len (sch_ready sched) = 1))"

definition test_start_prelude_panics_on_empty_ready_queue :: bool where
  "test_start_prelude_panics_on_empty_ready_queue =
     should_panic (fst (start_prelude (scheduler_new fake_ctx_default)))"

definition test_ipc_send_and_yield_delivered_unblocks_receiver_and_yields :: bool where
  "test_ipc_send_and_yield_delivered_unblocks_receiver_and_yields =
     setup_send_endpoint (rights_bitor SEND RECV) endpoint_arena_new table_new (\<lambda>ep ep_cap ep_arena table.
       unwrap (ipc_recv True ep_arena ep_cap (queues_new, table)) (\<lambda>recv_outcome qt.
         recv_outcome = Pending \<and>
         add_tasks [task_handle 0, task_handle 1] (\<lambda>sched. drop_head sched (\<lambda>sched. drop_head sched (\<lambda>sched.
           let sched = sched\<lparr>sch_current := Some (task_handle 0),
                 sch_states := (sch_states sched)[1 := TaskBlocked ep]\<rparr> in
           unwrap (ipc_send_and_yield_on fake_cpu_switch ep_arena ep_cap (send_msg 42) None (sched, qt)) (\<lambda>res (sched, _).
             res = Delivered \<and> sch_current sched = Some (task_handle 1) \<and>
             sch_states sched ! 0 = TaskReady \<and> sch_states sched ! 1 = TaskReady \<and>
             queue_len (sch_ready sched) = 1 \<and> switched (sch_contexts sched ! 0)))))))"

definition test_ipc_send_and_yield_enqueued_does_not_yield :: bool where
  "test_ipc_send_and_yield_enqueued_does_not_yield =
     setup_send_endpoint (rights_bitor SEND RECV) endpoint_arena_new table_new (\<lambda>_ ep_cap ep_arena table.
       add_tasks [task_handle 0] (\<lambda>sched. drop_head sched (\<lambda>sched.
         let sched = sched\<lparr>sch_current := Some (task_handle 0)\<rparr> in
         unwrap (ipc_send_and_yield_on fake_cpu_switch ep_arena ep_cap (send_msg 99) None (sched, (queues_new, table)))
           (\<lambda>res (sched, _).
             res = Enqueued \<and> sch_current sched = Some (task_handle 0) \<and> sch_states sched ! 0 = TaskReady \<and>
             queue_len (sch_ready sched) = 0 \<and> \<not> switched (sch_contexts sched ! 0)))))"

definition test_ipc_send_and_yield_send_error_preserves_scheduler_state :: bool where
  "test_ipc_send_and_yield_send_error_preserves_scheduler_state =
     setup_send_endpoint RECV endpoint_arena_new table_new (\<lambda>_ ep_cap ep_arena table.
       add_tasks [task_handle 0, task_handle 1] (\<lambda>sched. drop_head sched (\<lambda>sched.
         let sched = sched\<lparr>sch_current := Some (task_handle 0)\<rparr>;
             prior_current = sch_current sched; prior_state_0 = sch_states sched ! 0;
             prior_state_1 = sch_states sched ! 1; prior_ready_len = queue_len (sch_ready sched) in
         unwrap_err (ipc_send_and_yield_on fake_cpu_switch ep_arena ep_cap (send_msg 0) None (sched, (queues_new, table)))
           (IpcErr InvalidCapability) (\<lambda>(sched, _).
             sch_current sched = prior_current \<and> sch_states sched ! 0 = prior_state_0 \<and>
             sch_states sched ! 1 = prior_state_1 \<and> queue_len (sch_ready sched) = prior_ready_len \<and>
             \<not> switched (sch_contexts sched ! 0)))))"

section \<open>Evaluation\<close>

lemma sched_rights_eval:
  "rights_contains (rights_bitor SEND RECV) SEND" "rights_contains (rights_bitor SEND RECV) RECV"
  by (simp_all add: rights_eval)

lemma first_slots: "[0..<16] = 0 # 1 # [2..<(16 :: nat)]"
  by (simp add: upt_rec)

lemmas sched_test_eval [eval_defs] = queue_new_def enqueue_def dequeue_def queue_len_def queue_is_empty_def scheduler_new_def
  add_task_def hidx_def dispatch_def start_prelude_def switch_window_def yield_now_def unblock_receiver_on_def
  resolve_ep_cap_def block_current_def ipc_send_and_yield_def ipc_recv_and_yield_def ipc_recv_resume_def
  yield_now_on_def ipc_send_and_yield_on_def ipc_recv_and_yield_on_def fake_cpu_switch_def reset_queues_switch_def
  fake_init_context_def fake_ctx_default_def add_tasks_def drop_head_def setup_single_task_with_recv_cap_def
  setup_send_endpoint_def task_handle_def ep_handle_def arr_get_def usize_wrapping_add_small sched_rights_eval first_slots
  arena_capacities Let_def

lemma sched_tests_pass_1:
  "test_queue_enqueue_dequeue_fifo_order"
  "test_queue_full_returns_error"
  "test_queue_empty_dequeue_is_none"
  "test_queue_wraps_around"
  "test_queue_len_and_is_empty"
  "test_add_task_sets_ready_state_and_stores_handle"
  by (simp_all add: sched_test_eval cong: test_congs add:
      test_queue_enqueue_dequeue_fifo_order_def
      test_queue_full_returns_error_def
      test_queue_empty_dequeue_is_none_def
      test_queue_wraps_around_def
      test_queue_len_and_is_empty_def
      test_add_task_sets_ready_state_and_stores_handle_def)

lemma sched_tests_pass_2:
  "test_yield_now_switches_context_and_updates_current"
  "test_yield_now_with_no_current_returns_error"
  "test_unblock_receiver_on_moves_task_to_ready"
  "test_unblock_receiver_on_wrong_ep_is_noop"
  "test_task_state_variants_are_distinct"
  "test_ipc_recv_and_yield_returns_deadlock_when_ready_queue_empty"
  by (simp_all add: eval_defs del: upt_rec_numeral cong: test_congs add:
      test_yield_now_switches_context_and_updates_current_def
      test_yield_now_with_no_current_returns_error_def
      test_unblock_receiver_on_moves_task_to_ready_def
      test_unblock_receiver_on_wrong_ep_is_noop_def
      test_task_state_variants_are_distinct_def
      test_ipc_recv_and_yield_returns_deadlock_when_ready_queue_empty_def)

lemma sched_tests_pass_3:
  "test_ipc_recv_and_yield_resume_pending_returns_typed_err"
  "test_start_prelude_dispatches_head_and_marks_ready"
  "test_start_prelude_panics_on_empty_ready_queue"
  "test_ipc_send_and_yield_delivered_unblocks_receiver_and_yields"
  "test_ipc_send_and_yield_enqueued_does_not_yield"
  "test_ipc_send_and_yield_send_error_preserves_scheduler_state"
  by (simp_all add: eval_defs del: upt_rec_numeral cong: test_congs add:
      test_ipc_recv_and_yield_resume_pending_returns_typed_err_def
      test_start_prelude_dispatches_head_and_marks_ready_def
      test_start_prelude_panics_on_empty_ready_queue_def
      test_ipc_send_and_yield_delivered_unblocks_receiver_and_yields_def
      test_ipc_send_and_yield_enqueued_does_not_yield_def
      test_ipc_send_and_yield_send_error_preserves_scheduler_state_def)

section \<open>The modules as a whole\<close>

definition sched_tests :: "bool list" where
  "sched_tests = [
     test_queue_enqueue_dequeue_fifo_order, test_queue_full_returns_error, test_queue_empty_dequeue_is_none,
     test_queue_wraps_around, test_queue_len_and_is_empty, test_add_task_sets_ready_state_and_stores_handle,
     test_yield_now_switches_context_and_updates_current, test_yield_now_with_no_current_returns_error,
     test_unblock_receiver_on_moves_task_to_ready, test_unblock_receiver_on_wrong_ep_is_noop,
     test_task_state_variants_are_distinct, test_ipc_recv_and_yield_returns_deadlock_when_ready_queue_empty,
     test_ipc_recv_and_yield_resume_pending_returns_typed_err, test_start_prelude_dispatches_head_and_marks_ready,
     test_start_prelude_panics_on_empty_ready_queue, test_ipc_send_and_yield_delivered_unblocks_receiver_and_yields,
     test_ipc_send_and_yield_enqueued_does_not_yield, test_ipc_send_and_yield_send_error_preserves_scheduler_state]"

lemma sched_tests_pass: "list_all id sched_tests"
  by (simp add: sched_tests_def sched_tests_pass_1 sched_tests_pass_2 sched_tests_pass_3)

end
