(* ===== verification/Hal_Fakes.thy ===== *)
theory Hal_Fakes
  imports Hal_Contracts Uart
begin

text \<open>
  The test doubles of \<open>test-hal/src\<close> for the CPU, the interrupt controller, the timer and the
  console, each interpreted as an instance of the contract it stands in for. The mutex around each
  is not modelled: the doubles are used by one thread at a time here. A counter that overflows
  panics in a debug build.
\<close>

section \<open>FakeCpu\<close>

record FakeCpu =
  fc_core_id :: u32
  fc_irqs_enabled :: bool
  fc_wait_for_interrupt_count :: u64
  fc_instruction_barrier_count :: u64

definition fake_cpu_with_core_id :: "u32 \<Rightarrow> FakeCpu" where
  "fake_cpu_with_core_id core_id = \<lparr>fc_core_id = core_id, fc_irqs_enabled = True,
     fc_wait_for_interrupt_count = 0, fc_instruction_barrier_count = 0\<rparr>"

definition fake_cpu_new :: FakeCpu where
  "fake_cpu_new = fake_cpu_with_core_id 0"

definition fake_disable_irqs :: "FakeCpu \<Rightarrow> u64 \<times> FakeCpu" where
  "fake_disable_irqs c = (if fc_irqs_enabled c then 1 else 0, c\<lparr>fc_irqs_enabled := False\<rparr>)"

definition fake_restore_irq_state :: "u64 \<Rightarrow> FakeCpu \<Rightarrow> FakeCpu" where
  "fake_restore_irq_state state c = c\<lparr>fc_irqs_enabled := state \<noteq> 0\<rparr>"

definition bump :: "bool \<Rightarrow> u64 \<Rightarrow> u64 run" where
  "bump dbg n = (if dbg \<and> n = - 1 then Panic else Ret (n + 1))"

definition fake_wait_for_interrupt :: "bool \<Rightarrow> FakeCpu \<Rightarrow> unit run \<times> FakeCpu" where
  "fake_wait_for_interrupt dbg c = (case bump dbg (fc_wait_for_interrupt_count c) of
     Ret n \<Rightarrow> (Ret (), c\<lparr>fc_wait_for_interrupt_count := n\<rparr>)
   | _ \<Rightarrow> (Panic, c))"

definition fake_instruction_barrier :: "bool \<Rightarrow> FakeCpu \<Rightarrow> unit run \<times> FakeCpu" where
  "fake_instruction_barrier dbg c = (case bump dbg (fc_instruction_barrier_count c) of
     Ret n \<Rightarrow> (Ret (), c\<lparr>fc_instruction_barrier_count := n\<rparr>)
   | _ \<Rightarrow> (Panic, c))"

interpretation fake_irqs: irq_masking fake_disable_irqs fake_restore_irq_state fc_irqs_enabled
  by unfold_locales (simp_all add: fake_disable_irqs_def fake_restore_irq_state_def)

section \<open>FakeIrqController\<close>

record FakeIrqController =
  fi_enabled :: "IrqNumber set"
  fi_pending :: "IrqNumber list"
  fi_eoi_history :: "IrqNumber list"

definition fake_irq_new :: FakeIrqController where
  "fake_irq_new = \<lparr>fi_enabled = {}, fi_pending = [], fi_eoi_history = []\<rparr>"

definition fake_inject :: "IrqNumber \<Rightarrow> FakeIrqController \<Rightarrow> FakeIrqController" where
  "fake_inject irq c = c\<lparr>fi_pending := fi_pending c @ [irq]\<rparr>"

definition fake_is_enabled :: "FakeIrqController \<Rightarrow> IrqNumber \<Rightarrow> bool" where
  "fake_is_enabled c irq \<longleftrightarrow> irq \<in> fi_enabled c"

definition fake_pending_count :: "FakeIrqController \<Rightarrow> nat" where
  "fake_pending_count c = length (fi_pending c)"

definition fake_enable :: "IrqNumber \<Rightarrow> FakeIrqController \<Rightarrow> FakeIrqController" where
  "fake_enable irq c = c\<lparr>fi_enabled := insert irq (fi_enabled c)\<rparr>"

definition fake_disable :: "IrqNumber \<Rightarrow> FakeIrqController \<Rightarrow> FakeIrqController" where
  "fake_disable irq c = c\<lparr>fi_enabled := fi_enabled c - {irq}\<rparr>"

definition fake_acknowledge :: "FakeIrqController \<Rightarrow> IrqNumber option \<times> FakeIrqController" where
  "fake_acknowledge c = (case fi_pending c of
     [] \<Rightarrow> (None, c)
   | i # rest \<Rightarrow> (Some i, c\<lparr>fi_pending := rest\<rparr>))"

definition fake_end_of_interrupt :: "IrqNumber \<Rightarrow> FakeIrqController \<Rightarrow> FakeIrqController" where
  "fake_end_of_interrupt irq c = c\<lparr>fi_eoi_history := fi_eoi_history c @ [irq]\<rparr>"

interpretation fake_lines: irq_lines fake_enable fake_disable fi_enabled "\<lambda>_. True"
  by unfold_locales (simp_all add: fake_enable_def fake_disable_def)

section \<open>FakeTimer\<close>

record FakeTimer =
  ft_resolution_ns :: u64
  ft_now_ns :: u64
  ft_armed_deadline :: "u64 option"
  ft_cancel_count :: u64

definition fake_timer_new :: "u64 \<Rightarrow> FakeTimer" where
  "fake_timer_new resolution = \<lparr>ft_resolution_ns = resolution, ft_now_ns = 0, ft_armed_deadline = None,
     ft_cancel_count = 0\<rparr>"

definition fake_timer_default :: FakeTimer where
  "fake_timer_default = fake_timer_new 1"

text \<open>\<open>saturating_add\<close>\<close>

definition fake_advance :: "u64 \<Rightarrow> FakeTimer \<Rightarrow> FakeTimer" where
  "fake_advance delta t = t\<lparr>ft_now_ns :=
     (if unat (ft_now_ns t) + unat delta < 2 ^ 64 then ft_now_ns t + delta else - 1)\<rparr>"

definition fake_set_now :: "u64 \<Rightarrow> FakeTimer \<Rightarrow> FakeTimer" where
  "fake_set_now ns t = t\<lparr>ft_now_ns := ns\<rparr>"

definition fake_arm_deadline :: "u64 \<Rightarrow> FakeTimer \<Rightarrow> FakeTimer" where
  "fake_arm_deadline deadline t = t\<lparr>ft_armed_deadline := Some deadline\<rparr>"

definition fake_cancel_deadline :: "bool \<Rightarrow> FakeTimer \<Rightarrow> unit run \<times> FakeTimer" where
  "fake_cancel_deadline dbg t =
     (let t = t\<lparr>ft_armed_deadline := None\<rparr> in
      case bump dbg (ft_cancel_count t) of
        Ret n \<Rightarrow> (Ret (), t\<lparr>ft_cancel_count := n\<rparr>)
      | _ \<Rightarrow> (Panic, t))"

text \<open>The double has no interrupt of its own; a deadline counts as reached when the clock shows it.\<close>

definition fake_reached :: "FakeTimer \<Rightarrow> u64 \<Rightarrow> bool" where
  "fake_reached t now = (case ft_armed_deadline t of None \<Rightarrow> False | Some d \<Rightarrow> d \<le> now)"

interpretation fake_timer: one_shot_timer id fake_arm_deadline "\<lambda>t. snd (fake_cancel_deadline False t)" fake_reached
  by unfold_locales (simp_all add: fake_arm_deadline_def fake_cancel_deadline_def fake_reached_def Let_def bump_def)

section \<open>FakeConsole\<close>

record FakeConsole =
  captured :: "u8 list"

definition fake_console_new :: FakeConsole where
  "fake_console_new = \<lparr>captured = []\<rparr>"

definition fake_write_bytes :: "u8 list \<Rightarrow> FakeConsole \<Rightarrow> unit run \<times> FakeConsole" where
  "fake_write_bytes bytes c = (Ret (), c\<lparr>captured := captured c @ bytes\<rparr>)"

interpretation fake_console: console fake_write_bytes captured
  by unfold_locales (simp add: fake_write_bytes_def)

end
