(* ===== verification/Mmu.thy ===== *)
theory Mmu
  imports Bit_Field
begin

text \<open>
  The memory-management interface of \<open>hal/src/mmu.rs\<close>: addresses, page-aligned frames, mapping
  flags and the contract of map and unmap; and the test double \<open>FakeMmu\<close> of \<open>test-hal/src/mmu.rs\<close>
  that stands in for it. No board implements the interface yet.
\<close>

section \<open>Types\<close>

definition PAGE_SIZE :: nat where "PAGE_SIZE = 4096"

datatype VirtAddr = VirtAddr (va_raw: u64)

datatype PhysAddr = PhysAddr (pa_raw: u64)

datatype PhysFrame = PhysFrame (frame_addr: PhysAddr)

definition from_aligned :: "PhysAddr \<Rightarrow> PhysFrame option" where
  "from_aligned addr = (if unat (pa_raw addr) mod PAGE_SIZE = 0 then Some (PhysFrame addr) else None)"

definition frame_as_usize :: "PhysFrame \<Rightarrow> u64" where
  "frame_as_usize f = pa_raw (frame_addr f)"

datatype MappingFlags = MappingFlags (flags_raw: u32)

definition FLAGS_EMPTY :: MappingFlags where "FLAGS_EMPTY = MappingFlags 0"
definition FLAG_WRITE :: MappingFlags where "FLAG_WRITE = MappingFlags (push_bit 0 1)"
definition FLAG_EXECUTE :: MappingFlags where "FLAG_EXECUTE = MappingFlags (push_bit 1 1)"
definition FLAG_USER :: MappingFlags where "FLAG_USER = MappingFlags (push_bit 2 1)"
definition FLAG_DEVICE :: MappingFlags where "FLAG_DEVICE = MappingFlags (push_bit 3 1)"
definition FLAG_GLOBAL :: MappingFlags where "FLAG_GLOBAL = MappingFlags (push_bit 4 1)"

definition flags_from_raw :: "u32 \<Rightarrow> MappingFlags" where
  "flags_from_raw bits = MappingFlags bits"

definition flags_contains :: "MappingFlags \<Rightarrow> MappingFlags \<Rightarrow> bool" where
  "flags_contains a b \<longleftrightarrow> flags_raw a AND flags_raw b = flags_raw b"

definition flags_union :: "MappingFlags \<Rightarrow> MappingFlags \<Rightarrow> MappingFlags" where
  "flags_union a b = MappingFlags (flags_raw a OR flags_raw b)"

definition flags_intersection :: "MappingFlags \<Rightarrow> MappingFlags \<Rightarrow> MappingFlags" where
  "flags_intersection a b = MappingFlags (flags_raw a AND flags_raw b)"

definition flags_difference :: "MappingFlags \<Rightarrow> MappingFlags \<Rightarrow> MappingFlags" where
  "flags_difference a b = MappingFlags (flags_raw a AND NOT (flags_raw b))"

definition flags_is_empty :: "MappingFlags \<Rightarrow> bool" where
  "flags_is_empty a \<longleftrightarrow> flags_raw a = 0"

definition flags_bitor :: "MappingFlags \<Rightarrow> MappingFlags \<Rightarrow> MappingFlags" where
  "flags_bitor a rhs = flags_union a rhs"

definition flags_bitand :: "MappingFlags \<Rightarrow> MappingFlags \<Rightarrow> MappingFlags" where
  "flags_bitand a rhs = flags_intersection a rhs"

definition flags_bitor_assign :: "MappingFlags \<Rightarrow> MappingFlags \<Rightarrow> MappingFlags" where
  "flags_bitor_assign a rhs = flags_bitor a rhs"

interpretation flags: bit_field flags_raw flags_contains flags_union flags_intersection flags_difference
  flags_is_empty
  by unfold_locales (simp_all add: MappingFlags.expand flags_contains_def flags_union_def flags_intersection_def
      flags_difference_def flags_is_empty_def)

datatype MmuError = AlreadyMapped | NotMapped | MisalignedAddress | OutOfFrames | InvalidFlags

section \<open>The contract of map and unmap\<close>

definition page_aligned :: "VirtAddr \<Rightarrow> bool" where
  "page_aligned va \<longleftrightarrow> unat (va_raw va) mod PAGE_SIZE = 0"

text \<open>What the interface promises on aligned addresses, as a map from pages to frames.\<close>

locale address_space =
  fixes map_page :: "'as \<Rightarrow> VirtAddr \<Rightarrow> PhysFrame \<Rightarrow> MappingFlags \<Rightarrow> 'fp \<Rightarrow> (MmuError, unit) result \<times> 'as \<times> 'fp"
    and unmap_page :: "'as \<Rightarrow> VirtAddr \<Rightarrow> (MmuError, PhysFrame) result \<times> 'as"
    and translate :: "'as \<Rightarrow> VirtAddr \<Rightarrow> (PhysFrame \<times> MappingFlags) option"
    and frames_suffice :: "'as \<Rightarrow> VirtAddr \<Rightarrow> 'fp \<Rightarrow> bool"
  assumes map_fresh: "page_aligned va \<Longrightarrow> translate sp va = None \<Longrightarrow> frames_suffice sp va fp \<Longrightarrow>
      \<exists>sp' fp'. map_page sp va pa fl fp = (Ok (), sp', fp') \<and> translate sp' = (translate sp)(va \<mapsto> (pa, fl))"
    and map_taken: "page_aligned va \<Longrightarrow> translate sp va \<noteq> None \<Longrightarrow>
      \<exists>fp'. map_page sp va pa fl fp = (Err AlreadyMapped, sp, fp')"
    and unmap_mapped: "page_aligned va \<Longrightarrow> translate sp va = Some (pa, fl) \<Longrightarrow>
      \<exists>sp'. unmap_page sp va = (Ok pa, sp') \<and> translate sp' = (translate sp)(va := None)"
    and unmap_absent: "page_aligned va \<Longrightarrow> translate sp va = None \<Longrightarrow> unmap_page sp va = (Err NotMapped, sp)"
begin

lemma map_unmap_roundtrip:
  assumes "page_aligned va" and "translate sp va = None" and "frames_suffice sp va fp"
  shows "\<exists>sp' fp' sp''. map_page sp va pa fl fp = (Ok (), sp', fp') \<and> unmap_page sp' va = (Ok pa, sp'') \<and>
    translate sp'' = translate sp"
proof -
  obtain sp' fp' where m: "map_page sp va pa fl fp = (Ok (), sp', fp')" "translate sp' = (translate sp)(va \<mapsto> (pa, fl))"
    using map_fresh [OF assms] by blast
  then obtain sp'' where "unmap_page sp' va = (Ok pa, sp'')" "translate sp'' = (translate sp')(va := None)"
    using unmap_mapped [OF assms(1), of sp' pa fl] by auto
  moreover have "(translate sp')(va := None) = translate sp" using m(2) assms(2) by (simp add: fun_upd_idem)
  ultimately show ?thesis using m(1) by metis
qed

end

section \<open>The test double\<close>

record VecFrameProvider =
  available :: "PhysFrame list"

definition frames_new :: "PhysFrame list \<Rightarrow> VecFrameProvider" where
  "frames_new frames = \<lparr>available = frames\<rparr>"

definition frames_remaining :: "VecFrameProvider \<Rightarrow> nat" where
  "frames_remaining p = length (available p)"

definition alloc_frame :: "VecFrameProvider \<Rightarrow> PhysFrame option \<times> VecFrameProvider" where
  "alloc_frame p = (if available p = [] then (None, p)
     else (Some (last (available p)), p\<lparr>available := butlast (available p)\<rparr>))"

record FakeAddressSpace =
  as_root :: PhysFrame
  as_mappings :: "VirtAddr \<rightharpoonup> PhysFrame \<times> MappingFlags"

record FakeMmu =
  activated_root :: "PhysFrame option"
  tlb_address_invalidations :: "VirtAddr list"
  tlb_all_count :: u64

definition fake_mmu_new :: FakeMmu where
  "fake_mmu_new = \<lparr>activated_root = None, tlb_address_invalidations = [], tlb_all_count = 0\<rparr>"

definition create_address_space :: "PhysFrame \<Rightarrow> FakeAddressSpace" where
  "create_address_space root = \<lparr>as_root = root, as_mappings = (\<lambda>_. None)\<rparr>"

definition address_space_root :: "FakeAddressSpace \<Rightarrow> PhysFrame" where
  "address_space_root sp = as_root sp"

definition fake_activate :: "FakeAddressSpace \<Rightarrow> FakeMmu \<Rightarrow> FakeMmu" where
  "fake_activate sp mmu = mmu\<lparr>activated_root := Some (as_root sp)\<rparr>"

definition fake_lookup :: "FakeAddressSpace \<Rightarrow> VirtAddr \<Rightarrow> (PhysFrame \<times> MappingFlags) option" where
  "fake_lookup sp va = as_mappings sp va"

definition mapping_count :: "FakeAddressSpace \<Rightarrow> nat" where
  "mapping_count sp = card (dom (as_mappings sp))"

definition fake_map ::
  "FakeAddressSpace \<Rightarrow> VirtAddr \<Rightarrow> PhysFrame \<Rightarrow> MappingFlags \<Rightarrow> VecFrameProvider \<Rightarrow>
   (MmuError, unit) result \<times> FakeAddressSpace \<times> VecFrameProvider" where
  "fake_map sp va pa fl frames =
     (if as_mappings sp va \<noteq> None then (Err AlreadyMapped, sp, frames)
      else (Ok (), sp\<lparr>as_mappings := (as_mappings sp)(va \<mapsto> (pa, fl))\<rparr>, frames))"

definition fake_unmap ::
  "FakeAddressSpace \<Rightarrow> VirtAddr \<Rightarrow> (MmuError, PhysFrame) result \<times> FakeAddressSpace" where
  "fake_unmap sp va =
     (ok_or (map_option fst (as_mappings sp va)) NotMapped,
      sp\<lparr>as_mappings := (as_mappings sp)(va := None)\<rparr>)"

definition invalidate_tlb_address :: "VirtAddr \<Rightarrow> FakeMmu \<Rightarrow> FakeMmu" where
  "invalidate_tlb_address va mmu =
     mmu\<lparr>tlb_address_invalidations := tlb_address_invalidations mmu @ [va]\<rparr>"

definition invalidate_tlb_all :: "bool \<Rightarrow> FakeMmu \<Rightarrow> unit run \<times> FakeMmu" where
  "invalidate_tlb_all dbg mmu =
     (if dbg \<and> tlb_all_count mmu = - 1 then (Panic, mmu)
      else (Ret (), mmu\<lparr>tlb_all_count := tlb_all_count mmu + 1\<rparr>))"

lemma fake_unmap_absent: "as_mappings sp va = None \<Longrightarrow> fake_unmap sp va = (Err NotMapped, sp)"
  by (cases sp) (simp add: fake_unmap_def fun_upd_idem)

interpretation fake_space: address_space fake_map fake_unmap fake_lookup "\<lambda>_ _ _. True"
  by unfold_locales (auto simp: fake_map_def fake_unmap_def fake_lookup_def fun_eq_iff fake_unmap_absent)

section \<open>Properties\<close>

text \<open>The double keeps the contract on aligned addresses, map followed by unmap included, but not
  the alignment check the interface documents: it maps any address, aligned or not, and never
  returns \<open>MisalignedAddress\<close>.\<close>

theorem fake_mmu_ignores_alignment:
  assumes "fake_lookup sp va = None"
  shows "\<exists>sp' fp' sp''. fake_map sp va pa fl fp = (Ok (), sp', fp') \<and> fake_unmap sp' va = (Ok pa, sp'') \<and>
    fake_lookup sp'' = fake_lookup sp \<and> fst (fake_map sp' va pa fl fp') = Err AlreadyMapped"
  using assms by (auto simp: fake_map_def fake_unmap_def fake_lookup_def fun_eq_iff)

theorem fake_mmu_ignores_alignment_witness:
  "\<not> page_aligned (VirtAddr 1) \<and>
   (\<exists>sp' fp'. fake_map (create_address_space (PhysFrame (PhysAddr 0))) (VirtAddr 1) (PhysFrame (PhysAddr 4096))
     FLAG_WRITE \<lparr>available = []\<rparr> = (Ok (), sp', fp'))"
  using fake_mmu_ignores_alignment [of "create_address_space (PhysFrame (PhysAddr 0))" "VirtAddr 1"
      "PhysFrame (PhysAddr 4096)" FLAG_WRITE "\<lparr>available = []\<rparr>"]
  by (auto simp: page_aligned_def PAGE_SIZE_def fake_lookup_def create_address_space_def)

end
