(* ===== verification/Unit_Tests_Hal.thy ===== *)
theory Unit_Tests_Hal
  imports Test_Kit Timer_Arith Hal_Fakes Mmu
begin

text \<open>
  The unit tests of the tick arithmetic and of the test doubles, run on the model: the test modules
  of \<open>hal/src/timer.rs\<close> and of \<open>test-hal/src/cpu.rs\<close>, \<open>irq_controller.rs\<close>, \<open>timer.rs\<close>,
  \<open>console.rs\<close> and \<open>mmu.rs\<close>.
\<close>

section \<open>Tick arithmetic\<close>

definition U64_MAX :: u64 where
  "U64_MAX = 0xFFFFFFFFFFFFFFFF"

lemma minus_one_u64: "(- 1 :: u64) = 0xFFFFFFFFFFFFFFFF"
  by simp

definition test_ticks_to_ns_zero_count_is_zero :: bool where
  "test_ticks_to_ns_zero_count_is_zero \<longleftrightarrow> ticks_to_ns 0 62500000 = Ret 0"

definition test_ticks_to_ns_qemu_virt_one_second :: bool where
  "test_ticks_to_ns_qemu_virt_one_second \<longleftrightarrow> ticks_to_ns 62500000 62500000 = Ret NANOS_PER_SECOND"

definition test_ticks_to_ns_qemu_virt_single_tick :: bool where
  "test_ticks_to_ns_qemu_virt_single_tick \<longleftrightarrow> ticks_to_ns 1 62500000 = Ret 16"

definition test_ticks_to_ns_pi3_class_non_divisor :: bool where
  "test_ticks_to_ns_pi3_class_non_divisor \<longleftrightarrow>
     ticks_to_ns 1 19200000 = Ret 52 \<and> ticks_to_ns 19200000 19200000 = Ret NANOS_PER_SECOND"

definition test_ticks_to_ns_high_frequency_one_gigahertz :: bool where
  "test_ticks_to_ns_high_frequency_one_gigahertz \<longleftrightarrow>
     ticks_to_ns 1 1000000000 = Ret 1 \<and> ticks_to_ns 123456789 1000000000 = Ret 123456789"

definition test_ticks_to_ns_saturates_at_u64_max :: bool where
  "test_ticks_to_ns_saturates_at_u64_max \<longleftrightarrow> ticks_to_ns U64_MAX 1 = Ret U64_MAX"

definition test_ticks_to_ns_no_silent_wrap_at_64bit_boundary :: bool where
  "test_ticks_to_ns_no_silent_wrap_at_64bit_boundary \<longleftrightarrow>
     (let just_over = U64_MAX div NANOS_PER_SECOND + 1 in ticks_to_ns just_over 1 = Ret U64_MAX)"

definition test_ticks_to_ns_const_fn_works_in_const_context :: bool where
  "test_ticks_to_ns_const_fn_works_in_const_context \<longleftrightarrow>
     (let NS = ticks_to_ns 62500000 62500000 in NS = Ret NANOS_PER_SECOND)"

definition test_resolution_qemu_virt_is_16_ns :: bool where
  "test_resolution_qemu_virt_is_16_ns \<longleftrightarrow> resolution_ns_for_freq 62500000 = Ret 16"

definition test_resolution_one_gigahertz_is_one_ns :: bool where
  "test_resolution_one_gigahertz_is_one_ns \<longleftrightarrow> resolution_ns_for_freq 1000000000 = Ret 1"

definition test_resolution_round_to_nearest_for_non_divisor :: bool where
  "test_resolution_round_to_nearest_for_non_divisor \<longleftrightarrow>
     resolution_ns_for_freq 19200000 = Ret 52 \<and> resolution_ns_for_freq 54000000 = Ret 19"

definition test_resolution_floor_vs_round_difference_documented :: bool where
  "test_resolution_floor_vs_round_difference_documented \<longleftrightarrow> resolution_ns_for_freq 33333333 = Ret 30"

definition test_resolution_const_fn_works_in_const_context :: bool where
  "test_resolution_const_fn_works_in_const_context \<longleftrightarrow> (let RES = resolution_ns_for_freq 62500000 in RES = Ret 16)"

definition test_resolution_clamps_to_one_above_2ghz :: bool where
  "test_resolution_clamps_to_one_above_2ghz \<longleftrightarrow>
     resolution_ns_for_freq 3000000000 = Ret 1 \<and> resolution_ns_for_freq 10000000000 = Ret 1 \<and>
     resolution_ns_for_freq U64_MAX = Ret 1"

definition test_resolution_two_ghz_is_one_ns_exactly :: bool where
  "test_resolution_two_ghz_is_one_ns_exactly \<longleftrightarrow> resolution_ns_for_freq 2000000000 = Ret 1"

text \<open>The sweep of \<open>ticks_to_ns_is_monotonic_across_frequencies\<close>.\<close>

fun never_decreases :: "u64 \<Rightarrow> u64 \<Rightarrow> u64 list \<Rightarrow> bool" where
  "never_decreases freq prev [] = True"
| "never_decreases freq prev (cnt # counts) = (case ticks_to_ns cnt freq of
     Ret now \<Rightarrow> prev \<le> now \<and> never_decreases freq now counts
   | _ \<Rightarrow> False)"

definition test_ticks_to_ns_is_monotonic_across_frequencies :: bool where
  "test_ticks_to_ns_is_monotonic_across_frequencies \<longleftrightarrow>
     list_all (\<lambda>freq. never_decreases freq 0 [0, 1, 100, 10000, 1000000, 100000000, 10000000000,
        1000000000000, U64_MAX div 2, U64_MAX])
       [1, 19200000, 62500000, 1000000000]"

definition test_ticks_to_ns_plateaus_at_u64_max_after_saturation :: bool where
  "test_ticks_to_ns_plateaus_at_u64_max_after_saturation \<longleftrightarrow>
     (let just_over = U64_MAX div NANOS_PER_SECOND + 1; way_over = U64_MAX div 2; max = U64_MAX in
      ticks_to_ns just_over 1 = Ret U64_MAX \<and> ticks_to_ns way_over 1 = Ret U64_MAX \<and>
      ticks_to_ns max 1 = Ret U64_MAX \<and>
      never_decreases 1 0 [just_over, way_over, max])"

definition test_ticks_to_ns_panics_on_zero_frequency :: bool where
  "test_ticks_to_ns_panics_on_zero_frequency \<longleftrightarrow> should_panic (ticks_to_ns 1 0)"

definition test_resolution_ns_for_freq_panics_on_zero_frequency :: bool where
  "test_resolution_ns_for_freq_panics_on_zero_frequency \<longleftrightarrow> should_panic (resolution_ns_for_freq 0)"

definition test_ns_to_ticks_zero_ns_is_zero :: bool where
  "test_ns_to_ticks_zero_ns_is_zero \<longleftrightarrow> ns_to_ticks 0 62500000 = Ret 0"

definition test_ns_to_ticks_rounds_up_on_subtick :: bool where
  "test_ns_to_ticks_rounds_up_on_subtick \<longleftrightarrow>
     ns_to_ticks 333333334 3 = Ret 2 \<and> ns_to_ticks 333333333 3 = Ret 1"

definition test_ns_to_ticks_round_trips_against_ticks_to_ns_at_qemu_frequency :: bool where
  "test_ns_to_ticks_round_trips_against_ticks_to_ns_at_qemu_frequency \<longleftrightarrow>
     (let qemu_freq = 62500000; cnt = 1234567 in
      case ticks_to_ns cnt qemu_freq of
        Ret ns \<Rightarrow> ns_to_ticks ns qemu_freq = Ret cnt
      | _ \<Rightarrow> False)"

definition test_ns_to_ticks_one_second_yields_frequency_at_any_freq :: bool where
  "test_ns_to_ticks_one_second_yields_frequency_at_any_freq \<longleftrightarrow>
     list_all (\<lambda>freq. ns_to_ticks NANOS_PER_SECOND freq = Ret freq) [1, 1000, 19200000, 62500000, 1000000000]"

definition test_ns_to_ticks_saturates_at_u64_max :: bool where
  "test_ns_to_ticks_saturates_at_u64_max \<longleftrightarrow>
     (let huge_ns = U64_MAX; high_freq = 1000000000; over_boundary_freq = 1000000001 in
      ns_to_ticks huge_ns high_freq = Ret U64_MAX \<and> ns_to_ticks huge_ns over_boundary_freq = Ret U64_MAX \<and>
      ns_to_ticks huge_ns U64_MAX = Ret U64_MAX)"

definition test_ns_to_ticks_panics_on_zero_frequency :: bool where
  "test_ns_to_ticks_panics_on_zero_frequency \<longleftrightarrow> should_panic (ns_to_ticks 1 0)"

lemmas ticks_eval = ticks_to_ns_def ns_to_ticks_def resolution_ns_for_freq_def div_ceil_def saturate_def
  NANOS_PER_SECOND_def U64_MAX_def minus_one_u64 Let_def should_panic_def

lemma ticks_tests_pass:
  "test_ticks_to_ns_zero_count_is_zero" "test_ticks_to_ns_qemu_virt_one_second"
  "test_ticks_to_ns_qemu_virt_single_tick" "test_ticks_to_ns_pi3_class_non_divisor"
  "test_ticks_to_ns_high_frequency_one_gigahertz" "test_ticks_to_ns_saturates_at_u64_max"
  "test_ticks_to_ns_no_silent_wrap_at_64bit_boundary" "test_ticks_to_ns_is_monotonic_across_frequencies"
  "test_ticks_to_ns_plateaus_at_u64_max_after_saturation" "test_ticks_to_ns_panics_on_zero_frequency"
  "test_ticks_to_ns_const_fn_works_in_const_context"
  by (simp_all add: test_ticks_to_ns_zero_count_is_zero_def test_ticks_to_ns_qemu_virt_one_second_def
      test_ticks_to_ns_qemu_virt_single_tick_def test_ticks_to_ns_pi3_class_non_divisor_def
      test_ticks_to_ns_high_frequency_one_gigahertz_def test_ticks_to_ns_saturates_at_u64_max_def
      test_ticks_to_ns_no_silent_wrap_at_64bit_boundary_def test_ticks_to_ns_is_monotonic_across_frequencies_def
      test_ticks_to_ns_plateaus_at_u64_max_after_saturation_def test_ticks_to_ns_panics_on_zero_frequency_def
      test_ticks_to_ns_const_fn_works_in_const_context_def ticks_eval)

lemma resolution_tests_pass:
  "test_resolution_qemu_virt_is_16_ns" "test_resolution_one_gigahertz_is_one_ns"
  "test_resolution_round_to_nearest_for_non_divisor" "test_resolution_floor_vs_round_difference_documented"
  "test_resolution_clamps_to_one_above_2ghz" "test_resolution_two_ghz_is_one_ns_exactly"
  "test_resolution_ns_for_freq_panics_on_zero_frequency" "test_resolution_const_fn_works_in_const_context"
  by (simp_all add: test_resolution_qemu_virt_is_16_ns_def test_resolution_one_gigahertz_is_one_ns_def
      test_resolution_round_to_nearest_for_non_divisor_def test_resolution_floor_vs_round_difference_documented_def
      test_resolution_clamps_to_one_above_2ghz_def test_resolution_two_ghz_is_one_ns_exactly_def
      test_resolution_ns_for_freq_panics_on_zero_frequency_def
      test_resolution_const_fn_works_in_const_context_def ticks_eval)

lemma ns_to_ticks_tests_pass:
  "test_ns_to_ticks_zero_ns_is_zero" "test_ns_to_ticks_rounds_up_on_subtick"
  "test_ns_to_ticks_round_trips_against_ticks_to_ns_at_qemu_frequency"
  "test_ns_to_ticks_one_second_yields_frequency_at_any_freq" "test_ns_to_ticks_saturates_at_u64_max"
  "test_ns_to_ticks_panics_on_zero_frequency"
  by (simp_all add: test_ns_to_ticks_zero_ns_is_zero_def test_ns_to_ticks_rounds_up_on_subtick_def
      test_ns_to_ticks_round_trips_against_ticks_to_ns_at_qemu_frequency_def
      test_ns_to_ticks_one_second_yields_frequency_at_any_freq_def test_ns_to_ticks_saturates_at_u64_max_def
      test_ns_to_ticks_panics_on_zero_frequency_def ticks_eval)

section \<open>The test doubles\<close>

subsection \<open>CPU\<close>

definition test_default_cpu_reports_core_zero_with_irqs_enabled :: bool where
  "test_default_cpu_reports_core_zero_with_irqs_enabled \<longleftrightarrow>
     fc_core_id fake_cpu_new = 0 \<and> fc_irqs_enabled fake_cpu_new"

definition test_with_core_id_sets_reported_id :: bool where
  "test_with_core_id_sets_reported_id \<longleftrightarrow> fc_core_id (fake_cpu_with_core_id 3) = 3"

definition test_disable_irqs_masks_and_returns_previous_state :: bool where
  "test_disable_irqs_masks_and_returns_previous_state =
     returns (lift_run (fake_disable_irqs fake_cpu_new)) (\<lambda>prev cpu.
       \<not> fc_irqs_enabled cpu \<and> fc_irqs_enabled (fake_restore_irq_state prev cpu))"

text \<open>A guard disables when it is made and restores when it is dropped.\<close>

definition test_irq_guard_enters_and_exits_critical_section :: bool where
  "test_irq_guard_enters_and_exits_critical_section \<longleftrightarrow>
     fc_irqs_enabled fake_cpu_new \<and>
     returns (lift_run (fake_disable_irqs fake_cpu_new)) (\<lambda>g cpu.
       \<not> fc_irqs_enabled cpu \<and> fc_irqs_enabled (fake_restore_irq_state g cpu))"

definition test_nested_irq_guards_restore_outer_state :: bool where
  "test_nested_irq_guards_restore_outer_state =
     returns (lift_run (fake_disable_irqs fake_cpu_new)) (\<lambda>outer cpu.
       \<not> fc_irqs_enabled cpu \<and>
       returns (lift_run (fake_disable_irqs cpu)) (\<lambda>inner cpu.
         \<not> fc_irqs_enabled cpu \<and>
         (let cpu = fake_restore_irq_state inner cpu in
          \<not> fc_irqs_enabled cpu \<and> fc_irqs_enabled (fake_restore_irq_state outer cpu))))"

definition test_wait_for_interrupt_increments_count :: bool where
  "test_wait_for_interrupt_increments_count \<longleftrightarrow>
     fc_wait_for_interrupt_count fake_cpu_new = 0 \<and>
     returns (fake_wait_for_interrupt True fake_cpu_new) (\<lambda>_ cpu.
       returns (fake_wait_for_interrupt True cpu) (\<lambda>_ cpu. fc_wait_for_interrupt_count cpu = 2))"

definition test_instruction_barrier_increments_count :: bool where
  "test_instruction_barrier_increments_count \<longleftrightarrow>
     fc_instruction_barrier_count fake_cpu_new = 0 \<and>
     returns (fake_instruction_barrier True fake_cpu_new) (\<lambda>_ cpu. fc_instruction_barrier_count cpu = 1)"

lemma fake_cpu_tests_pass:
  "test_default_cpu_reports_core_zero_with_irqs_enabled" "test_with_core_id_sets_reported_id"
  "test_disable_irqs_masks_and_returns_previous_state" "test_irq_guard_enters_and_exits_critical_section"
  "test_nested_irq_guards_restore_outer_state" "test_wait_for_interrupt_increments_count"
  "test_instruction_barrier_increments_count"
  by (simp_all add: test_default_cpu_reports_core_zero_with_irqs_enabled_def test_with_core_id_sets_reported_id_def
      test_disable_irqs_masks_and_returns_previous_state_def test_irq_guard_enters_and_exits_critical_section_def
      test_nested_irq_guards_restore_outer_state_def test_wait_for_interrupt_increments_count_def
      test_instruction_barrier_increments_count_def fake_cpu_new_def fake_cpu_with_core_id_def fake_disable_irqs_def
      fake_restore_irq_state_def fake_wait_for_interrupt_def fake_instruction_barrier_def bump_def Let_def)

subsection \<open>Interrupt controller\<close>

definition test_enable_marks_line_as_enabled :: bool where
  "test_enable_marks_line_as_enabled \<longleftrightarrow>
     \<not> fake_is_enabled fake_irq_new (IrqNumber 30) \<and>
     fake_is_enabled (fake_enable (IrqNumber 30) fake_irq_new) (IrqNumber 30)"

definition test_enable_is_idempotent :: bool where
  "test_enable_is_idempotent \<longleftrightarrow>
     fake_is_enabled (fake_enable (IrqNumber 30) (fake_enable (IrqNumber 30) fake_irq_new)) (IrqNumber 30)"

definition test_disable_removes_enabled_state :: bool where
  "test_disable_removes_enabled_state \<longleftrightarrow>
     \<not> fake_is_enabled (fake_disable (IrqNumber 30) (fake_enable (IrqNumber 30) fake_irq_new)) (IrqNumber 30)"

definition test_acknowledge_returns_none_when_queue_empty :: bool where
  "test_acknowledge_returns_none_when_queue_empty \<longleftrightarrow> fst (fake_acknowledge fake_irq_new) = None"

definition test_acknowledge_returns_pending_fifo :: bool where
  "test_acknowledge_returns_pending_fifo =
     (let ic = fake_inject (IrqNumber 31) (fake_inject (IrqNumber 30) fake_irq_new) in
      returns (lift_run (fake_acknowledge ic)) (\<lambda>r ic. r = Some (IrqNumber 30) \<and>
      returns (lift_run (fake_acknowledge ic)) (\<lambda>r ic. r = Some (IrqNumber 31) \<and>
      returns (lift_run (fake_acknowledge ic)) (\<lambda>r ic. r = None))))"

definition test_end_of_interrupt_records_irq_in_order :: bool where
  "test_end_of_interrupt_records_irq_in_order \<longleftrightarrow>
     fi_eoi_history (fake_end_of_interrupt (IrqNumber 31) (fake_end_of_interrupt (IrqNumber 30) fake_irq_new)) =
       [IrqNumber 30, IrqNumber 31]"

definition test_ack_eoi_cycle_leaves_clean_state :: bool where
  "test_ack_eoi_cycle_leaves_clean_state =
     (let ic = fake_inject (IrqNumber 30) (fake_enable (IrqNumber 30) fake_irq_new) in
      fake_pending_count ic = 1 \<and>
      unwrap_some (lift_run (fake_acknowledge ic)) (\<lambda>irq ic.
        irq = IrqNumber 30 \<and> fake_pending_count ic = 0 \<and>
        fi_eoi_history (fake_end_of_interrupt irq ic) = [IrqNumber 30]))"

definition test_disabled_irq_can_still_be_injected_for_test_purposes :: bool where
  "test_disabled_irq_can_still_be_injected_for_test_purposes \<longleftrightarrow>
     \<not> fake_is_enabled fake_irq_new (IrqNumber 30) \<and>
     fst (fake_acknowledge (fake_inject (IrqNumber 30) fake_irq_new)) = Some (IrqNumber 30)"

lemma fake_irq_tests_pass:
  "test_enable_marks_line_as_enabled" "test_enable_is_idempotent" "test_disable_removes_enabled_state"
  "test_acknowledge_returns_none_when_queue_empty" "test_acknowledge_returns_pending_fifo"
  "test_end_of_interrupt_records_irq_in_order" "test_ack_eoi_cycle_leaves_clean_state"
  "test_disabled_irq_can_still_be_injected_for_test_purposes"
  by (simp_all add: test_enable_marks_line_as_enabled_def test_enable_is_idempotent_def
      test_disable_removes_enabled_state_def test_acknowledge_returns_none_when_queue_empty_def
      test_acknowledge_returns_pending_fifo_def test_end_of_interrupt_records_irq_in_order_def
      test_ack_eoi_cycle_leaves_clean_state_def test_disabled_irq_can_still_be_injected_for_test_purposes_def
      fake_irq_new_def fake_inject_def fake_is_enabled_def fake_pending_count_def fake_enable_def fake_disable_def
      fake_acknowledge_def fake_end_of_interrupt_def Let_def)

subsection \<open>Timer\<close>

definition test_new_starts_at_zero_with_given_resolution :: bool where
  "test_new_starts_at_zero_with_given_resolution \<longleftrightarrow>
     ft_now_ns (fake_timer_new 100) = 0 \<and> ft_resolution_ns (fake_timer_new 100) = 100"

definition test_advance_moves_clock_forward :: bool where
  "test_advance_moves_clock_forward \<longleftrightarrow>
     ft_now_ns (fake_advance 500 (fake_timer_new 1)) = 500 \<and>
     ft_now_ns (fake_advance 250 (fake_advance 500 (fake_timer_new 1))) = 750"

definition test_set_now_overrides_clock :: bool where
  "test_set_now_overrides_clock \<longleftrightarrow> ft_now_ns (fake_set_now 42 (fake_advance 100 (fake_timer_new 1))) = 42"

definition test_arm_deadline_records_value :: bool where
  "test_arm_deadline_records_value \<longleftrightarrow>
     ft_armed_deadline (fake_timer_new 1) = None \<and>
     ft_armed_deadline (fake_arm_deadline 1000 (fake_timer_new 1)) = Some 1000"

definition test_arm_deadline_replaces_previous :: bool where
  "test_arm_deadline_replaces_previous \<longleftrightarrow>
     ft_armed_deadline (fake_arm_deadline 2000 (fake_arm_deadline 1000 (fake_timer_new 1))) = Some 2000"

definition test_cancel_clears_deadline_and_counts :: bool where
  "test_cancel_clears_deadline_and_counts =
     (let t = fake_arm_deadline 500 (fake_timer_new 1) in
      ft_cancel_count t = 0 \<and>
      returns (fake_cancel_deadline True t) (\<lambda>_ t.
        ft_armed_deadline t = None \<and> ft_cancel_count t = 1 \<and>
        returns (fake_cancel_deadline True t) (\<lambda>_ t. ft_cancel_count t = 2)))"

definition test_default_has_one_nanosecond_resolution :: bool where
  "test_default_has_one_nanosecond_resolution \<longleftrightarrow>
     ft_resolution_ns fake_timer_default = 1 \<and> ft_now_ns fake_timer_default = 0"

lemma fake_timer_tests_pass:
  "test_new_starts_at_zero_with_given_resolution" "test_advance_moves_clock_forward"
  "test_set_now_overrides_clock" "test_arm_deadline_records_value" "test_arm_deadline_replaces_previous"
  "test_cancel_clears_deadline_and_counts" "test_default_has_one_nanosecond_resolution"
  by (simp_all add: test_new_starts_at_zero_with_given_resolution_def test_advance_moves_clock_forward_def
      test_set_now_overrides_clock_def test_arm_deadline_records_value_def test_arm_deadline_replaces_previous_def
      test_cancel_clears_deadline_and_counts_def test_default_has_one_nanosecond_resolution_def fake_timer_new_def
      fake_timer_default_def fake_advance_def fake_set_now_def fake_arm_deadline_def fake_cancel_deadline_def
      bump_def Let_def)

subsection \<open>Console\<close>

definition ascii :: "string \<Rightarrow> u8 list" where
  "ascii s = map of_char s"

definition test_captures_successive_byte_writes :: bool where
  "test_captures_successive_byte_writes =
     returns (fake_write_bytes (ascii ''hello'') fake_console_new) (\<lambda>_ c.
       returns (fake_write_bytes (ascii '' world'') c) (\<lambda>_ c. captured c = ascii ''hello world''))"

definition test_fmt_writer_produces_formatted_output :: bool where
  "test_fmt_writer_produces_formatted_output =
     unwrap (write_fmt fake_write_bytes [ascii ''cpu '', ascii ''3'', ascii '' online''] fake_console_new) (\<lambda>_ c.
       captured c = ascii ''cpu 3 online'')"

definition test_default_fake_console_is_empty :: bool where
  "test_default_fake_console_is_empty \<longleftrightarrow> captured fake_console_new = []"

lemma fake_console_tests_pass:
  "test_captures_successive_byte_writes" "test_fmt_writer_produces_formatted_output"
  "test_default_fake_console_is_empty"
  by (simp_all add: test_captures_successive_byte_writes_def test_fmt_writer_produces_formatted_output_def
      test_default_fake_console_is_empty_def fake_console_new_def fake_write_bytes_def write_str_def ascii_def)

subsection \<open>MMU\<close>

definition test_frame :: "u64 \<Rightarrow> PhysFrame" where
  "test_frame addr = the (from_aligned (PhysAddr addr))"

definition test_mapping_flags_union_and_contains :: bool where
  "test_mapping_flags_union_and_contains \<longleftrightarrow> (let rw = FLAG_WRITE; rwx = flags_bitor rw FLAG_EXECUTE in
     flags_contains rwx FLAG_WRITE \<and> flags_contains rwx FLAG_EXECUTE \<and> \<not> flags_contains rwx FLAG_USER)"

definition test_mapping_flags_difference_clears_bits :: bool where
  "test_mapping_flags_difference_clears_bits \<longleftrightarrow>
     (let rwx = flags_bitor FLAG_WRITE FLAG_EXECUTE; rw = flags_difference rwx FLAG_EXECUTE in
      flags_contains rw FLAG_WRITE \<and> \<not> flags_contains rw FLAG_EXECUTE)"

definition test_phys_frame_rejects_unaligned :: bool where
  "test_phys_frame_rejects_unaligned \<longleftrightarrow>
     from_aligned (PhysAddr 0x1001) = None \<and> from_aligned (PhysAddr 0x1000) \<noteq> None"

definition test_create_address_space_stores_root :: bool where
  "test_create_address_space_stores_root \<longleftrightarrow>
     (let root = test_frame 0x1000; sp = create_address_space root in
      address_space_root sp = root \<and> mapping_count sp = 0)"

definition test_activate_records_root :: bool where
  "test_activate_records_root \<longleftrightarrow>
     (let root = test_frame 0x1000; sp = create_address_space root in
      activated_root fake_mmu_new = None \<and> activated_root (fake_activate sp fake_mmu_new) = Some root)"

definition test_map_unmap_round_trip :: bool where
  "test_map_unmap_round_trip =
     (let sp = create_address_space (test_frame 0x1000); fp = frames_new [test_frame 0x2000] in
      unwrap (lift_run (fake_map sp (VirtAddr 0x4000) (test_frame 0x8000) FLAG_WRITE fp)) (\<lambda>_ (sp, fp).
        mapping_count sp = 1 \<and>
        (case fake_lookup sp (VirtAddr 0x4000) of
           None \<Rightarrow> False
         | Some (pa, flags) \<Rightarrow> pa = test_frame 0x8000 \<and> flags_contains flags FLAG_WRITE) \<and>
        unwrap (lift_run (fake_unmap sp (VirtAddr 0x4000))) (\<lambda>returned sp.
          returned = test_frame 0x8000 \<and> mapping_count sp = 0)))"

definition test_double_map_returns_already_mapped :: bool where
  "test_double_map_returns_already_mapped =
     (let sp = create_address_space (test_frame 0x1000); fp = frames_new [] in
      unwrap (lift_run (fake_map sp (VirtAddr 0x4000) (test_frame 0x8000) FLAG_WRITE fp)) (\<lambda>_ (sp, fp).
        unwrap_err (lift_run (fake_map sp (VirtAddr 0x4000) (test_frame 0x9000) FLAG_WRITE fp)) AlreadyMapped (\<lambda>_. True)))"

definition test_unmap_missing_returns_not_mapped :: bool where
  "test_unmap_missing_returns_not_mapped =
     (let sp = create_address_space (test_frame 0x1000) in
      unwrap_err (lift_run (fake_unmap sp (VirtAddr 0x4000))) NotMapped (\<lambda>_. True))"

definition test_tlb_invalidations_recorded_in_order :: bool where
  "test_tlb_invalidations_recorded_in_order =
     (let mmu = invalidate_tlb_address (VirtAddr 0x5000) (invalidate_tlb_address (VirtAddr 0x4000) fake_mmu_new) in
      returns (invalidate_tlb_all True mmu) (\<lambda>_ mmu.
        tlb_address_invalidations mmu = [VirtAddr 0x4000, VirtAddr 0x5000] \<and> tlb_all_count mmu = 1))"

lemma fake_mmu_tests_pass:
  "test_mapping_flags_union_and_contains" "test_mapping_flags_difference_clears_bits"
  "test_phys_frame_rejects_unaligned" "test_create_address_space_stores_root" "test_activate_records_root"
  "test_map_unmap_round_trip" "test_double_map_returns_already_mapped" "test_unmap_missing_returns_not_mapped"
  "test_tlb_invalidations_recorded_in_order"
  by (simp_all add: test_mapping_flags_union_and_contains_def test_mapping_flags_difference_clears_bits_def
      test_phys_frame_rejects_unaligned_def test_create_address_space_stores_root_def test_activate_records_root_def
      test_map_unmap_round_trip_def test_double_map_returns_already_mapped_def test_unmap_missing_returns_not_mapped_def
      test_tlb_invalidations_recorded_in_order_def test_frame_def from_aligned_def PAGE_SIZE_def flags_bitor_def
      flags_union_def flags_difference_def flags_contains_def FLAG_WRITE_def FLAG_EXECUTE_def FLAG_USER_def
      create_address_space_def address_space_root_def mapping_count_def fake_activate_def fake_mmu_new_def
      frames_new_def fake_map_def fake_lookup_def fake_unmap_def invalidate_tlb_address_def invalidate_tlb_all_def
      Let_def)

section \<open>The modules as a whole\<close>

definition tick_tests :: "bool list" where
  "tick_tests = [
     test_ticks_to_ns_zero_count_is_zero, test_ticks_to_ns_qemu_virt_one_second,
     test_ticks_to_ns_qemu_virt_single_tick, test_ticks_to_ns_pi3_class_non_divisor,
     test_ticks_to_ns_high_frequency_one_gigahertz, test_ticks_to_ns_saturates_at_u64_max,
     test_ticks_to_ns_no_silent_wrap_at_64bit_boundary, test_ticks_to_ns_is_monotonic_across_frequencies,
     test_ticks_to_ns_plateaus_at_u64_max_after_saturation, test_ticks_to_ns_panics_on_zero_frequency,
     test_ticks_to_ns_const_fn_works_in_const_context, test_resolution_qemu_virt_is_16_ns,
     test_resolution_one_gigahertz_is_one_ns, test_resolution_round_to_nearest_for_non_divisor,
     test_resolution_floor_vs_round_difference_documented, test_resolution_clamps_to_one_above_2ghz,
     test_resolution_two_ghz_is_one_ns_exactly, test_resolution_ns_for_freq_panics_on_zero_frequency,
     test_resolution_const_fn_works_in_const_context, test_ns_to_ticks_zero_ns_is_zero,
     test_ns_to_ticks_rounds_up_on_subtick, test_ns_to_ticks_round_trips_against_ticks_to_ns_at_qemu_frequency,
     test_ns_to_ticks_one_second_yields_frequency_at_any_freq, test_ns_to_ticks_saturates_at_u64_max,
     test_ns_to_ticks_panics_on_zero_frequency]"

lemma tick_tests_pass: "list_all id tick_tests"
  by (simp add: tick_tests_def ticks_tests_pass resolution_tests_pass ns_to_ticks_tests_pass)

definition fake_tests :: "bool list" where
  "fake_tests = [
     test_default_cpu_reports_core_zero_with_irqs_enabled, test_with_core_id_sets_reported_id,
     test_disable_irqs_masks_and_returns_previous_state, test_irq_guard_enters_and_exits_critical_section,
     test_nested_irq_guards_restore_outer_state, test_wait_for_interrupt_increments_count,
     test_instruction_barrier_increments_count, test_enable_marks_line_as_enabled, test_enable_is_idempotent,
     test_disable_removes_enabled_state, test_acknowledge_returns_none_when_queue_empty,
     test_acknowledge_returns_pending_fifo, test_end_of_interrupt_records_irq_in_order,
     test_ack_eoi_cycle_leaves_clean_state, test_disabled_irq_can_still_be_injected_for_test_purposes,
     test_new_starts_at_zero_with_given_resolution, test_advance_moves_clock_forward, test_set_now_overrides_clock,
     test_arm_deadline_records_value, test_arm_deadline_replaces_previous, test_cancel_clears_deadline_and_counts,
     test_default_has_one_nanosecond_resolution, test_captures_successive_byte_writes,
     test_fmt_writer_produces_formatted_output, test_default_fake_console_is_empty,
     test_mapping_flags_union_and_contains, test_mapping_flags_difference_clears_bits,
     test_phys_frame_rejects_unaligned, test_create_address_space_stores_root, test_activate_records_root,
     test_map_unmap_round_trip, test_double_map_returns_already_mapped, test_unmap_missing_returns_not_mapped,
     test_tlb_invalidations_recorded_in_order]"

lemma fake_tests_pass: "list_all id fake_tests"
  by (simp add: fake_tests_def fake_cpu_tests_pass fake_irq_tests_pass fake_timer_tests_pass fake_console_tests_pass fake_mmu_tests_pass)

end
