(* ===== verification/Spec2Isabelle.thy ===== *)
theory Spec2Isabelle
  imports Irq_Mask Board_Kernel Unit_Tests_Sched Unit_Tests_Hal
begin

text \<open>
  Verification of the Tyrne kernel and of its board support package for the QEMU \<open>virt\<close> machine.

  \<^bold>\<open>The program.\<close> A capability-based microkernel in Rust for one AArch64 core. Kernel objects (tasks,
  endpoints, notifications) live in fixed arenas (\<open>kernel/src/obj\<close>). Each task has a capability table
  (\<open>kernel/src/cap\<close>) whose entries form a derivation tree. Tasks exchange messages, which may carry a
  capability, over endpoints (\<open>kernel/src/ipc\<close>). A cooperative scheduler (\<open>kernel/src/sched\<close>) runs the
  tasks in turn and connects blocking to IPC: a receive that finds no message blocks its caller, a
  send that finds a waiting receiver makes it ready and yields. The hardware is reached through the
  traits of \<open>hal/src\<close>, implemented by \<open>bsp-qemu-virt/src\<close> for the board and by \<open>test-hal/src\<close> for tests.

  \<^bold>\<open>How code becomes definitions.\<close> Machine integers are words of their width; \<open>usize\<close> indices that
  cannot overflow are natural numbers, and the wrapping operations the code uses on them are written
  out (\<open>usize_wrapping_add\<close>, \<open>sat_add\<close>, \<open>sat_mul\<close>). A function of the source becomes a HOL function on
  explicit state with a result of type \<open>run\<close>: \<open>Ret\<close> a value, \<open>Panic\<close> (an index out of range, a failed
  assertion, an \<open>expect\<close>), or \<open>Diverge\<close> (a loop that does not end). Rust's \<open>Result\<close> is the datatype
  \<open>result\<close>, and \<open>?\<close> is \<open>and_then\<close>. A Boolean argument \<open>dbg\<close> says whether \<open>debug_assert!\<close> is compiled
  in; theorems hold for both values. Loops with no bound in the code are \<open>partial_function (option)\<close>
  (the sibling walk of \<open>unlink_from_siblings\<close>, the poll loop of the console driver): \<open>None\<close> is a loop
  that does not end, and the theorems show when it does end. No fuel is used, except that a run of
  the reset code is a given number of steps, which the theorems assert to exist, and a run of the
  demo is as long as the list of signalled interrupt lines it is given, which the theorem bounds.

  \<^bold>\<open>Theories and sources.\<close>

  \<^item> \<open>Tyrne_Prelude\<close>: the types above, arrays, lists threaded through arrays, word lemmas.
  \<^item> \<open>Handle_Store\<close>: the contract of a store with generation-tagged handles (locale \<open>handle_store\<close>),
    provided by the arena and by the capability table.
  \<^item> \<open>Bit_Field\<close>: the contract of a bit-flag type (locale \<open>bit_field\<close>), provided by the capability rights
    and by the mapping flags.
  \<^item> \<open>Arena\<close>, \<open>Kernel_Objects\<close>: \<open>kernel/src/obj\<close>. Allocation, release and access implement a finite map
    from ids to values and do not panic; a freed id stays dead until its generation wraps around.
  \<^item> \<open>Cap_Rights\<close>, \<open>Cap_Table\<close>: \<open>kernel/src/cap\<close>, every operation of the table on the array with its
    three kinds of link. \<open>Forest\<close> is the mathematics of the derivation tree, \<open>Cap_Forest\<close> the table's
    invariant and the effect of each operation, \<open>Cap_Properties\<close> what the table guarantees: no panic,
    no loop, attenuation of rights along the tree, exact revocation, exact errors, dead handles.
  \<^item> \<open>Ipc\<close>, \<open>Ipc_Properties\<close>: \<open>kernel/src/ipc/mod.rs\<close>. Send and receive refine a state machine per
    endpoint; over any run messages come out once and in order and capabilities are conserved.
  \<^item> \<open>Sched_Queue\<close> (the ring buffer, a \<open>bounded_fifo\<close>), \<open>Scheduler\<close>, \<open>Sched_Properties\<close>:
    \<open>kernel/src/sched/mod.rs\<close>. A bridge call is cut at its context switch: \<open>SwitchTo\<close> names the two
    slots and where the call goes on (\<open>resume\<close>), and \<open>guarded_switch\<close> is the interrupt guard and the
    switch that follow.
  \<^item> \<open>System\<close>: the running kernel, any tasks making any calls. The invariant that joins scheduler and
    endpoints, no panic, no lost wake-up, no deadlock beside a task that only yields.
  \<^item> \<open>Hal_Contracts\<close>: the traits of \<open>hal/src\<close> as locales (\<open>irq_masking\<close>, \<open>irq_lines\<close>, \<open>task_contexts\<close>,
    \<open>one_shot_timer\<close>; \<open>console\<close> is in \<open>Uart\<close>, \<open>address_space\<close> in \<open>Mmu\<close>), each interpreted on the board
    and on the test double, as far as they exist.
  \<^item> \<open>Aarch64\<close>: registers, memory and the context-switch assembly of \<open>bsp-qemu-virt/src/cpu.rs\<close>, which
    implements the switch the scheduler assumes; the interrupt mask.
  \<^item> \<open>Timer_Arith\<close>: \<open>hal/src/timer.rs\<close>. \<open>Mmio\<close>, \<open>Gic\<close>, \<open>Uart\<close>: device registers as a log of accesses, the
    interrupt controller and the console drivers. \<open>Board\<close>: the CPU object with its timer, and the
    interrupt and panic entries of \<open>exceptions.rs\<close>.
  \<^item> \<open>Vectors\<close>: \<open>vectors.s\<close> and \<open>TrapFrame\<close>. An interrupt gives the code it interrupts its general
    registers, d8 to d15, flags and mask back, and all memory outside the frame, the handler's stack
    below it and the handler's data; other vector registers it does not. Every other exception panics.
  \<^item> \<open>Boot_Asm\<close>: \<open>boot.s\<close>, from reset at EL1 or EL2 to the call of \<open>kernel_entry\<close>.
  \<^item> \<open>Boot\<close>, \<open>Boot_Properties\<close>, \<open>Kernel_Main\<close>: \<open>main.rs\<close>. The kernel objects and the three demo tasks; what
    the demo does for any interrupt lines that are signalled; \<open>kernel_entry\<close> stage by stage, from the
    reset code to the first instruction of task B; what is printed.
  \<^item> \<open>Board_Kernel\<close>: the kernel of \<open>System\<close> with every switch made by the assembly of \<open>Aarch64\<close> on the context
    array in memory, under the interrupt guard, which is dropped when the task runs again: a task that
    is switched to goes on where it was suspended, with its registers and its interrupt mask.
  \<^item> \<open>Irq_Mask\<close>: a task that does not unmask interrupts runs masked, whatever the others do, and so does
    every context switch.
  \<^item> \<open>Mmu\<close>, \<open>Hal_Fakes\<close>: the memory-management interface of \<open>hal/src/mmu.rs\<close> and the test doubles of
    \<open>test-hal/src\<close>.
  \<^item> \<open>Test_Kit\<close>, \<open>Unit_Tests_Objects\<close>, \<open>Unit_Tests_Cap\<close>, \<open>Unit_Tests_Ipc\<close>, \<open>Unit_Tests_Sched\<close>,
    \<open>Unit_Tests_Hal\<close>: the repository's own unit tests, each as a truth value named \<open>test_\<close> followed by
    the test's name, evaluated on the definitions above. They tie the model to the expectations the
    authors wrote down.

  \<^bold>\<open>Devices and machine.\<close> A device is a parameter: a function from the accesses so far and the address
  read to the value returned. Theorems that need more of it say so (a console that drains, a
  controller whose type register gives its number of lines). The processor is modelled at the level
  of the instructions the assembly uses, over general registers, the low halves of the vector
  registers, the system registers named in it, and memory in aligned doublewords. What the compiler
  makes of \<open>irq_entry\<close> is a parameter (\<open>compiled_irq_entry\<close>): it has the effect of \<open>irq_entry\<close> on the
  devices, keeps the registers the procedure-call standard says (\<open>aapcs64\<close>), and writes only to a given
  amount of stack below its stack pointer and to given data.

  \<^bold>\<open>Not modelled.\<close> Crate roots and the build script, which declare modules and pass a linker script.
  \<open>core::fmt\<close> beyond concatenation, decimal and hexadecimal numbers. Mutex poisoning and the UTF-8 view
  of captured output in the test doubles. Marker traits, \<open>Debug\<close> output. Barriers change no
  state of the model: memory is sequentially consistent, on one core. \<open>wfi\<close> returns when the
  interrupt controller signals a line (\<open>wfi_returns\<close>); other wake-up events are left out. Stack depth is not
  bounded. Address translation is off in this version of the kernel; no board implements \<open>Mmu\<close>.
\<close>

end
